(* ===== verification/Prelude.thy ===== *)
theory Prelude
  imports Main "HOL-Library.Word"
begin

text \<open>
  What every component of the model shares: the widths of the C integer types, the values
  that stand for the ways a kernel function can fail to return, the sequencing of fallible
  steps, and lemmas on words, regions of the address space and lists.
\<close>

unbundle bit_operations_syntax

section \<open>Machine types\<close>

text \<open>
  The kernel is built with \<^verbatim>\<open>-m32\<close>: \<^verbatim>\<open>size_t\<close>, \<^verbatim>\<open>unsigned long\<close> and every pointer are 32 bits
  wide (\<^verbatim>\<open>libc/include/stdint.h\<close>). The null pointer is the address 0.
\<close>

type_synonym u8 = "8 word"
type_synonym u16 = "16 word"
type_synonym u32 = "32 word"
type_synonym u64 = "64 word"

text \<open>The flat byte memory: the kernel identity-maps what it touches and has no bounds checks.\<close>

type_synonym mem = "u32 \<Rightarrow> u8"

section \<open>Collections\<close>

text \<open>What an operation leaves as it was, as rules on its result.\<close>

named_theorems effects "what an operation leaves unchanged"

section \<open>Failing to return\<close>

text \<open>
  \<open>Panic\<close> is a call of \<^verbatim>\<open>panic\<close> (which halts the machine); the other faults are what C leaves
  undefined and the models make visible: a read or write through the null pointer, through a
  pointer to no live object, or outside an array; a division by zero; a loop that never ends; an access
  to a page that is not mapped, where page tables are part of the model (\<open>Mmu\<close>).
\<close>

datatype fault = Panic string | Null_deref | Wild_access | Div_by_zero | Diverges | Page_fault

type_synonym 'a res = "fault + 'a"

definition rbind :: "'a res \<Rightarrow> ('a \<Rightarrow> 'b res) \<Rightarrow> 'b res" where
  "rbind r f = (case r of Inl e \<Rightarrow> Inl e | Inr x \<Rightarrow> f x)"

lemma rbind_Inr [simp]: "rbind (Inr x) f = f x"
  by (simp add: rbind_def)

lemma rbind_Inl [simp]: "rbind (Inl e) f = Inl e"
  by (simp add: rbind_def)

lemma rbind_eq_Inr: "rbind r f = Inr y \<longleftrightarrow> (\<exists>x. r = Inr x \<and> f x = Inr y)"
  by (simp add: rbind_def split: sum.splits)

lemma rbind_InrE [elim!]:
  assumes "rbind r f = Inr y"
  obtains x where "r = Inr x" and "f x = Inr y"
  using assms by (auto simp: rbind_eq_Inr)

lemma rbind_assoc: "rbind (rbind r f) g = rbind r (\<lambda>x. rbind (f x) g)"
  by (simp add: rbind_def split: sum.splits)

lemma rbind_return: "rbind r Inr = r"
  by (simp add: rbind_def split: sum.splits)

lemma rbind_cong [fundef_cong]:
  "r = r' \<Longrightarrow> (\<And>x. r' = Inr x \<Longrightarrow> f x = f' x) \<Longrightarrow> rbind r f = rbind r' f'"
  by (simp add: rbind_def split: sum.splits)

text \<open>
  A loop that may not end is a partial function into \<^typ>\<open>'a option\<close>; where its caller goes on
  after it, not returning becomes the fault \<^term>\<open>Diverges\<close> of the caller.
\<close>

definition returned :: "'a res option \<Rightarrow> 'a res" where
  "returned r = (case r of None \<Rightarrow> Inl Diverges | Some x \<Rightarrow> x)"

lemma returned_simps [simp]: "returned None = Inl Diverges" "returned (Some r) = r"
  by (simp_all add: returned_def)

text \<open>
  Objects that only this code accesses live in typed stores; reading through a pointer faults at
  the null pointer and at an address that holds no object of the type.
\<close>

definition deref :: "(u32 \<Rightarrow> 'o option) \<Rightarrow> u32 \<Rightarrow> 'o res" where
  "deref st p = (if p = 0 then Inl Null_deref
     else case st p of None \<Rightarrow> Inl Wild_access | Some x \<Rightarrow> Inr x)"

lemma deref_0 [simp]: "deref st 0 = Inl Null_deref"
  by (simp add: deref_def)

lemma deref_Some [simp]: "p \<noteq> 0 \<Longrightarrow> st p = Some x \<Longrightarrow> deref st p = Inr x"
  by (simp add: deref_def)

lemma deref_eq_Inr [simp]: "deref st p = Inr x \<longleftrightarrow> p \<noteq> 0 \<and> st p = Some x"
  by (simp add: deref_def split: option.splits)

text \<open>An array of the kernel with its bound: reading or writing past it is \<^term>\<open>Wild_access\<close>.\<close>

definition get_at :: "'a list \<Rightarrow> nat \<Rightarrow> 'a res" where
  "get_at xs i = (if i < length xs then Inr (xs ! i) else Inl Wild_access)"

definition put_at :: "'a list \<Rightarrow> nat \<Rightarrow> 'a \<Rightarrow> 'a list res" where
  "put_at xs i x = (if i < length xs then Inr (xs[i := x]) else Inl Wild_access)"

lemma get_at_ok [simp]: "i < length xs \<Longrightarrow> get_at xs i = Inr (xs ! i)"
  by (simp add: get_at_def)

lemma put_at_ok [simp]: "i < length xs \<Longrightarrow> put_at xs i x = Inr (xs[i := x])"
  by (simp add: put_at_def)

lemma get_at_eq_Inr: "get_at xs i = Inr x \<longleftrightarrow> i < length xs \<and> x = xs ! i"
  by (auto simp: get_at_def)

lemma put_at_eq_Inr: "put_at xs i x = Inr ys \<longleftrightarrow> i < length xs \<and> ys = xs[i := x]"
  by (auto simp: put_at_def)

lemma get_at_wild: "length xs \<le> i \<Longrightarrow> get_at xs i = Inl Wild_access"
  by (simp add: get_at_def)

lemma put_at_wild: "length xs \<le> i \<Longrightarrow> put_at xs i x = Inl Wild_access"
  by (simp add: put_at_def)

section \<open>Words\<close>

lemma unat_add_of_nat:
  fixes p :: "'a::len word"
  assumes "unat p + n < 2 ^ LENGTH('a)"
  shows "unat (p + of_nat n) = unat p + n"
proof -
  have n: "n < 2 ^ LENGTH('a)" using assms by simp
  have "unat (of_nat n :: 'a word) = n"
    using n by (simp add: unat_of_nat take_bit_nat_eq_self)
  then show ?thesis
    using assms by (simp add: unat_word_ariths)
qed

lemma unat_Suc_less:
  fixes p :: "'a::len word"
  assumes "unat p + 1 < 2 ^ LENGTH('a)"
  shows "unat (p + 1) = unat p + 1"
  using unat_add_of_nat [of p 1] assms by simp

lemma unat_Suc_nonzero:
  fixes p :: "'a::len word"
  assumes "p + 1 \<noteq> 0"
  shows "unat (p + 1) = Suc (unat p)"
proof (rule ccontr)
  assume "unat (p + 1) \<noteq> Suc (unat p)"
  then have "\<not> unat p + 1 < 2 ^ LENGTH('a)"
    using unat_Suc_less [of p] by auto
  moreover have "unat p < 2 ^ LENGTH('a)" by simp
  ultimately have "unat p + 1 = 2 ^ LENGTH('a)" by linarith
  then have "unat (p + 1) = 0" by (simp add: unat_word_ariths)
  then show False using assms by (simp add: unat_eq_0)
qed

lemma of_nat_word_inj:
  assumes "m < 2 ^ LENGTH('a)" and "n < 2 ^ LENGTH('a)"
    and "(of_nat m :: 'a::len word) = of_nat n"
  shows "m = n"
proof -
  have "unat (of_nat m :: 'a word) = unat (of_nat n :: 'a word)"
    using assms(3) by simp
  then show ?thesis
    using assms(1,2) by (simp add: unat_of_nat take_bit_nat_eq_self)
qed

lemma unat_u32_less: "unat (x :: u32) < 4294967296"
  using unsigned_less [of x, where 'a = nat] by simp

lemma unat_of_nat_u32: "n < 4294967296 \<Longrightarrow> unat (of_nat n :: u32) = n"
  by (simp add: unat_of_nat take_bit_nat_eq_self)

lemma mod_shift_inj:
  fixes r i j n :: nat
  assumes "(r + i) mod n = (r + j) mod n" and "i < n" and "j < n"
  shows "i = j"
proof -
  have *: "a = b" if "(r + a) mod n = (r + b) mod n" "a \<le> b" "b < n" for a b
  proof -
    have "n dvd (r + b) - (r + a)"
      using that by (metis add_le_cancel_left mod_eq_dvd_iff_nat)
    then have "n dvd b - a" by simp
    then show "a = b"
      using that by (metis diff_is_0_eq' diffs0_imp_equal dvd_imp_le le_neq_implies_less
          less_imp_diff_less not_le zero_less_diff)
  qed
  show ?thesis
    using * [of i j] * [of j i] assms by (cases "i \<le> j") auto
qed

section \<open>Little-endian loads and stores\<close>

definition ld16 :: "mem \<Rightarrow> u32 \<Rightarrow> u16" where
  "ld16 m a = ucast (m a) OR push_bit 8 (ucast (m (a + 1)))"

definition ld32 :: "mem \<Rightarrow> u32 \<Rightarrow> u32" where
  "ld32 m a = ucast (m a) OR push_bit 8 (ucast (m (a + 1)))
     OR push_bit 16 (ucast (m (a + 2))) OR push_bit 24 (ucast (m (a + 3)))"

definition st32 :: "mem \<Rightarrow> u32 \<Rightarrow> u32 \<Rightarrow> mem" where
  "st32 m a v = m(a := ucast v, a + 1 := ucast (drop_bit 8 v),
     a + 2 := ucast (drop_bit 16 v), a + 3 := ucast (drop_bit 24 v))"

section \<open>Regions of memory\<close>

text \<open>The \<open>n\<close> bytes from address \<open>p\<close>, and the test for an address in a region.\<close>

definition bytes :: "mem \<Rightarrow> u32 \<Rightarrow> nat \<Rightarrow> u8 list" where
  "bytes m p n = map (\<lambda>i. m (p + of_nat i)) [0..<n]"

definition in_region :: "u32 \<Rightarrow> nat \<Rightarrow> u32 \<Rightarrow> bool" where
  "in_region p n a \<longleftrightarrow> unat (a - p) < n"

lemma length_bytes [simp]: "length (bytes m p n) = n"
  by (simp add: bytes_def)

lemma nth_bytes [simp]: "i < n \<Longrightarrow> bytes m p n ! i = m (p + of_nat i)"
  by (simp add: bytes_def)

lemma bytes_0 [simp]: "bytes m p 0 = []"
  by (simp add: bytes_def)

lemma bytes_Suc: "bytes m p (Suc n) = m p # bytes m (p + 1) n"
  by (rule nth_equalityI) (auto simp: nth_Cons ac_simps split: nat.splits)

lemma bytes_numeral [simp]: "bytes m p (numeral k) = m p # bytes m (p + 1) (pred_numeral k)"
  by (simp add: numeral_eq_Suc bytes_Suc)

lemma bytes_1 [simp]: "bytes m p (Suc 0) = [m p]"
  by (simp add: bytes_Suc)

lemma bytes_eq_iff: "bytes m p n = bytes m' q n \<longleftrightarrow> (\<forall>i<n. m (p + of_nat i) = m' (q + of_nat i))"
  by (auto simp: list_eq_iff_nth_eq)

lemma not_in_region_0 [simp]: "\<not> in_region p 0 a"
  by (simp add: in_region_def)

lemma in_region_of_nat:
  assumes "i < n" and "n \<le> 2 ^ 32"
  shows "in_region p n (p + of_nat i)"
proof -
  have "unat (of_nat i :: u32) = i"
    using assms by (intro unat_of_nat_u32) simp
  then show ?thesis
    using assms(1) by (simp add: in_region_def)
qed

lemma in_region_Suc:
  assumes "n < 2 ^ 32"
  shows "in_region p (Suc n) a \<longleftrightarrow> a = p \<or> in_region (p + 1) n a"
proof (cases "a = p")
  case True
  then show ?thesis by (simp add: in_region_def)
next
  case False
  then have "unat (a - p) \<noteq> 0"
    by (simp add: unat_eq_0)
  then have "0 < unat (a - p)" by simp
  moreover have "a - (p + 1) = (a - p) - 1" by simp
  ultimately have "unat (a - (p + 1)) = unat (a - p) - 1"
    by (metis One_nat_def Suc_leI unat_1 unat_sub word_le_nat_alt)
  then show ?thesis
    using \<open>0 < unat (a - p)\<close> False by (auto simp: in_region_def)
qed

lemma in_regionE:
  assumes "in_region p n a"
  obtains i where "i < n" and "a = p + of_nat i"
proof
  show "unat (a - p) < n" using assms by (simp add: in_region_def)
  show "a = p + of_nat (unat (a - p))" by simp
qed

lemma in_region_snoc:
  assumes "n < 2 ^ 32"
  shows "in_region p (Suc n) a \<longleftrightarrow> a = p + of_nat n \<or> in_region p n a"
proof -
  have "a = p + of_nat n \<longleftrightarrow> unat (a - p) = n"
  proof
    assume "unat (a - p) = n"
    then have "of_nat n = a - p" by auto
    then show "a = p + of_nat n" by simp
  next
    assume "a = p + of_nat n"
    then show "unat (a - p) = n" using assms by (simp add: unat_of_nat_u32)
  qed
  then show ?thesis by (auto simp: in_region_def)
qed

lemma in_region_shift:
  assumes "in_region (p + of_nat k) n a" and "k + n \<le> N" and "N \<le> 2 ^ 32"
  shows "in_region p N a"
proof -
  obtain j where "j < n" and "a = p + of_nat k + of_nat j" using assms(1) by (rule in_regionE)
  then have "a = p + of_nat (k + j)" and "k + j < N" using assms(2) by auto
  then show ?thesis using assms(3) in_region_of_nat [of "k + j" N p] by (simp only:)
qed

text \<open>Two regions apart from each other, wherever they wrap.\<close>

definition apart :: "u32 \<Rightarrow> nat \<Rightarrow> u32 \<Rightarrow> nat \<Rightarrow> bool" where
  "apart p n q k \<longleftrightarrow> (\<forall>a. \<not> (in_region p n a \<and> in_region q k a))"

lemma apartD1: "apart p n q k \<Longrightarrow> in_region p n a \<Longrightarrow> \<not> in_region q k a"
  by (auto simp: apart_def)

lemma apart_sym: "apart p n q k \<Longrightarrow> apart q k p n"
  by (auto simp: apart_def)

text \<open>An interval test that decides \<^term>\<open>apart\<close> for regions that do not wrap.\<close>

lemma apart_intervalI:
  assumes "unat p + n \<le> 2 ^ 32" and "unat q + k \<le> 2 ^ 32"
    and "unat p + n \<le> unat q \<or> unat q + k \<le> unat p"
  shows "apart p n q k"
  unfolding apart_def
proof (intro allI notI)
  fix a assume "in_region p n a \<and> in_region q k a"
  then obtain i j where "i < n" "a = p + of_nat i" "j < k" "a = q + of_nat j"
    by (metis in_regionE)
  have "unat (p + of_nat i) = unat p + i" and "unat (q + of_nat j) = unat q + j"
    using assms(1,2) \<open>i < n\<close> \<open>j < k\<close> by (auto intro: unat_add_of_nat)
  then show False
    using assms(3) \<open>i < n\<close> \<open>j < k\<close> \<open>a = p + _\<close> \<open>a = q + _\<close> by auto
qed

section \<open>Storing a list of bytes\<close>

fun write_all :: "mem \<Rightarrow> u32 \<Rightarrow> u8 list \<Rightarrow> mem" where
  "write_all m d [] = m"
| "write_all m d (b # bs) = write_all (m(d := b)) (d + 1) bs"

lemma write_all_apply: "length bs < 2 ^ 32 \<Longrightarrow> write_all m d bs a = (if in_region d (length bs) a then bs ! unat (a - d) else m a)"
proof (induction bs arbitrary: m d)
  case (Cons b bs)
  show ?case
  proof (cases "in_region (d + 1) (length bs) a")
    case True
    then obtain j where j: "j < length bs" "a = d + 1 + of_nat j" by (rule in_regionE)
    have "a - d = of_nat (Suc j)" "a - (d + 1) = of_nat j" using j(2) by (simp_all add: algebra_simps)
    then have "unat (a - d) = Suc j" "unat (a - (d + 1)) = j"
      using j(1) Cons.prems by (simp_all add: unat_of_nat_u32 del: of_nat_Suc)
    then show ?thesis using True Cons in_region_Suc [of "length bs" d a] by simp
  qed (use Cons in_region_Suc [of "length bs" d a] in auto)
qed simp

lemma bytes_write_all: "length bs < 2 ^ 32 \<Longrightarrow> bytes (write_all m d bs) d (length bs) = bs"
  by (rule nth_equalityI) (simp_all add: write_all_apply in_region_of_nat unat_of_nat_u32)

end
