(* ===== verification/Libk_String.thy ===== *)
theory Libk_String
  imports Prelude "HOL-Library.Signed_Division"
begin

text \<open>
  \<^verbatim>\<open>libk/string.c\<close>: the kernel's copy, comparison, search, tokenising and conversion routines,
  over the flat byte memory. A pointer is an address; a function that writes returns the new
  memory beside its C result. A \<^verbatim>\<open>while\<close> loop that scans for a terminator is a
  \<^theory_text>\<open>partial_function\<close>: \<^term>\<open>None\<close> means that it runs forever. The lemmas relate each routine
  to the C strings (\<open>cstr\<close>) and byte regions it is given.
\<close>

section \<open>Blocks of memory\<close>

fun memcmp_loop :: "mem \<Rightarrow> u32 \<Rightarrow> u32 \<Rightarrow> nat \<Rightarrow> int" where
  "memcmp_loop m p1 p2 0 = 0"
| "memcmp_loop m p1 p2 (Suc n) =
     (if m p1 < m p2 then - 1
      else if m p1 > m p2 then 1
      else memcmp_loop m (p1 + 1) (p2 + 1) n)"

definition memcmp :: "mem \<Rightarrow> u32 \<Rightarrow> u32 \<Rightarrow> u32 \<Rightarrow> int" where
  "memcmp m ptr1 ptr2 n = memcmp_loop m ptr1 ptr2 (unat n)"

text \<open>\<^verbatim>\<open>while (size--) *d++ = *s++;\<close>\<close>

fun copy_up :: "mem \<Rightarrow> u32 \<Rightarrow> u32 \<Rightarrow> nat \<Rightarrow> mem" where
  "copy_up m d s 0 = m"
| "copy_up m d s (Suc n) = copy_up (m(d := m s)) (d + 1) (s + 1) n"

text \<open>\<^verbatim>\<open>for (i = size; i != 0; i--) d[i - 1] = s[i - 1];\<close>\<close>

fun copy_down :: "mem \<Rightarrow> u32 \<Rightarrow> u32 \<Rightarrow> nat \<Rightarrow> mem" where
  "copy_down m d s 0 = m"
| "copy_down m d s (Suc n) = copy_down (m(d + of_nat n := m (s + of_nat n))) d s n"

definition memcpy :: "mem \<Rightarrow> u32 \<Rightarrow> u32 \<Rightarrow> u32 \<Rightarrow> u32 \<times> mem" where
  "memcpy m dest src n = (dest, copy_up m dest src (unat n))"

definition memmove :: "mem \<Rightarrow> u32 \<Rightarrow> u32 \<Rightarrow> u32 \<Rightarrow> u32 \<times> mem" where
  "memmove m dest src n =
     (if dest < src then (dest, copy_up m dest src (unat n))
      else (dest, copy_down m dest src (unat n)))"

fun fill :: "mem \<Rightarrow> u32 \<Rightarrow> u8 \<Rightarrow> nat \<Rightarrow> mem" where
  "fill m p v 0 = m"
| "fill m p v (Suc n) = fill (m(p := v)) (p + 1) v n"

text \<open>\<^verbatim>\<open>memset\<close> takes a signed \<^verbatim>\<open>int n\<close>: a negative count writes nothing.\<close>

definition memset :: "mem \<Rightarrow> u32 \<Rightarrow> u8 \<Rightarrow> u32 \<Rightarrow> mem" where
  "memset m dest v n = fill m dest v (nat (sint n))"

section \<open>Strings\<close>

partial_function (option) strcpy_loop :: "mem \<Rightarrow> u32 \<Rightarrow> u32 \<Rightarrow> mem option" where
  "strcpy_loop m dest src =
     (let c = m src; m' = m(dest := c)
      in if c \<noteq> 0 then strcpy_loop m' (dest + 1) (src + 1) else Some m')"

definition strcpy :: "mem \<Rightarrow> u32 \<Rightarrow> u32 \<Rightarrow> (u32 \<times> mem) option" where
  "strcpy m dest src = map_option (\<lambda>m'. (dest, m')) (strcpy_loop m dest src)"

partial_function (option) strcmp :: "mem \<Rightarrow> u32 \<Rightarrow> u32 \<Rightarrow> int option" where
  "strcmp m dest src =
     (if m dest = m src
      then if m src = 0 then Some 0 else strcmp m (dest + 1) (src + 1)
      else Some 1)"

partial_function (option) strlen_loop :: "mem \<Rightarrow> u32 \<Rightarrow> u32 \<Rightarrow> u32 option" where
  "strlen_loop m str len = (if m str \<noteq> 0 then strlen_loop m (str + 1) (len + 1) else Some len)"

definition strlen :: "mem \<Rightarrow> u32 \<Rightarrow> u32 option" where
  "strlen m str = strlen_loop m str 0"

definition strcat :: "mem \<Rightarrow> u32 \<Rightarrow> u32 \<Rightarrow> (u32 \<times> mem) option" where
  "strcat m dest src =
     Option.bind (strlen m dest) (\<lambda>n.
     Option.bind (strcpy m (dest + n) src) (\<lambda>(_, m'). Some (dest, m')))"

partial_function (option) strchr :: "mem \<Rightarrow> u32 \<Rightarrow> u8 \<Rightarrow> u32 option" where
  "strchr m str c =
     (if m str \<noteq> c then if m str = 0 then Some 0 else strchr m (str + 1) c
      else Some str)"

partial_function (option) strspn_loop :: "mem \<Rightarrow> u32 \<Rightarrow> u32 \<Rightarrow> u32 \<Rightarrow> u32 option" where
  "strspn_loop m str1 str2 ret =
     (if m str1 = 0 then Some ret
      else Option.bind (strchr m str2 (m str1)) (\<lambda>r.
        if r \<noteq> 0 then strspn_loop m (str1 + 1) str2 (ret + 1) else Some ret))"

definition strspn :: "mem \<Rightarrow> u32 \<Rightarrow> u32 \<Rightarrow> u32 option" where
  "strspn m str1 str2 = strspn_loop m str1 str2 0"

partial_function (option) strcspn_loop :: "mem \<Rightarrow> u32 \<Rightarrow> u32 \<Rightarrow> u32 \<Rightarrow> u32 option" where
  "strcspn_loop m str1 str2 ret =
     (if m str1 = 0 then Some ret
      else Option.bind (strchr m str2 (m str1)) (\<lambda>r.
        if r \<noteq> 0 then Some ret else strcspn_loop m (str1 + 1) str2 (ret + 1)))"

definition strcspn :: "mem \<Rightarrow> u32 \<Rightarrow> u32 \<Rightarrow> u32 option" where
  "strcspn m str1 str2 = strcspn_loop m str1 str2 0"

text \<open>
  \<^verbatim>\<open>strtok\<close> keeps its place in a static pointer, here the argument \<open>i\<close>; the result is the
  memory, the new static pointer and the token (0 when there is none).
\<close>

definition strtok :: "mem \<Rightarrow> u32 \<Rightarrow> u32 \<Rightarrow> u32 \<Rightarrow> (mem \<times> u32 \<times> u32) option" where
  "strtok m i str delim =
     (if str = 0 \<and> i = 0 then Some (m, i, 0)
      else
        let i0 = (if str \<noteq> 0 then str else i)
        in Option.bind (strspn m i0 delim) (\<lambda>n.
           let str' = i0 + n
           in Option.bind (strcspn m str' delim) (\<lambda>k.
              let i' = str' + k
              in if i' = str' then Some (m, 0, 0)
                 else if m i' \<noteq> 0 then Some (m(i' := 0), i' + 1, str')
                 else Some (m, 0, str'))))"

fun strstr_loop :: "mem \<Rightarrow> u32 \<Rightarrow> u32 \<Rightarrow> u32 \<Rightarrow> nat \<Rightarrow> u32" where
  "strstr_loop m p str2 N2 0 = 0"
| "strstr_loop m p str2 N2 (Suc n) =
     (if memcmp m p str2 N2 = 0 then p else strstr_loop m (p + 1) str2 N2 n)"

definition strstr :: "mem \<Rightarrow> u32 \<Rightarrow> u32 \<Rightarrow> u32 option" where
  "strstr m str1 str2 =
     Option.bind (strlen m str1) (\<lambda>N1.
     Option.bind (strlen m str2) (\<lambda>N2.
       if N1 < N2 then Some 0
       else Some (strstr_loop m str1 str2 N2 (unat (N1 - N2 + 1)))))"

section \<open>Conversions\<close>

text \<open>The digit character of \<^verbatim>\<open>itoa\<close>; \<open>tmp\<close> is \<^verbatim>\<open>unsigned long\<close>, the store truncates to a byte.\<close>

definition digit_char :: "u32 \<Rightarrow> u8" where
  "digit_char tmp = ucast (if tmp < 10 then tmp + 48 else tmp + 97 - 10)"

text \<open>
  The \<^verbatim>\<open>do .. while (value /= base)\<close> loop: \<open>value\<close> is a C \<^verbatim>\<open>int\<close>, whose division truncates
  towards zero, and a zero base traps.
\<close>

partial_function (option) itoa_digits ::
    "mem \<Rightarrow> int \<Rightarrow> u32 \<Rightarrow> int \<Rightarrow> u32 \<Rightarrow> (mem \<times> u32) option" where
  "itoa_digits m v result base i =
     (if base = 0 then None
      else
        let m' = m(result + i := digit_char (word_of_int (v smod base)));
            v' = v sdiv base
        in if v' \<noteq> 0 then itoa_digits m' v' result base (i + 1) else Some (m', i + 1))"

function itoa_reverse :: "mem \<Rightarrow> u32 \<Rightarrow> int \<Rightarrow> int \<Rightarrow> mem" where
  "itoa_reverse m result j i =
     (if j < i
      then itoa_reverse
             (m(result + word_of_int j := m (result + word_of_int i),
                result + word_of_int i := m (result + word_of_int j))) result (j + 1) (i - 1)
      else m)"
  by pat_completeness auto
termination
  by (relation "measure (\<lambda>(m, result, j, i). nat (i - j))") auto

declare itoa_reverse.simps [simp del]

definition itoa :: "mem \<Rightarrow> int \<Rightarrow> u32 \<Rightarrow> int \<Rightarrow> (u32 \<times> mem) option" where
  "itoa m v result base =
     Option.bind (itoa_digits m v result base 0) (\<lambda>(m', i).
       Some (result, itoa_reverse (m'(result + i := 0)) result 0 (uint i - 1)))"

partial_function (option) atoi_skip :: "mem \<Rightarrow> u32 \<Rightarrow> u32 option" where
  "atoi_skip m str = (if m str = 32 then atoi_skip m (str + 1) else Some str)"

text \<open>\<^verbatim>\<open>unsigned short n = *str++ - '0'\<close>: the subtraction is done in \<^verbatim>\<open>int\<close> on a signed \<^verbatim>\<open>char\<close>.\<close>

definition atoi_digit :: "u8 \<Rightarrow> u16" where
  "atoi_digit c = word_of_int (sint c - 48)"

partial_function (option) atoi_loop :: "mem \<Rightarrow> u32 \<Rightarrow> u32 \<Rightarrow> u32 option" where
  "atoi_loop m str result =
     (let n = atoi_digit (m str)
      in if n > 9 then Some result else atoi_loop m (str + 1) (10 * result + ucast n))"

definition atoi :: "mem \<Rightarrow> u32 \<Rightarrow> u32 option" where
  "atoi m str =
     Option.bind (atoi_skip m str) (\<lambda>p.
       let negative = (m p = 45);
           p' = (if m p = 45 \<or> m p = 43 then p + 1 else p)
       in map_option (\<lambda>r. if negative then - r else r) (atoi_loop m p' 0))"

section \<open>Blocks: what the copies do\<close>

text \<open>
  An upward copy is right when no byte is overwritten before it is read, a downward copy under
  the mirror condition.
\<close>

definition up_safe :: "u32 \<Rightarrow> u32 \<Rightarrow> nat \<Rightarrow> bool" where
  "up_safe d s n \<longleftrightarrow> (\<forall>i j. i < j \<and> j < n \<longrightarrow> d + of_nat i \<noteq> s + of_nat j)"

definition down_safe :: "u32 \<Rightarrow> u32 \<Rightarrow> nat \<Rightarrow> bool" where
  "down_safe d s n \<longleftrightarrow> (\<forall>i j. i < j \<and> j < n \<longrightarrow> d + of_nat j \<noteq> s + of_nat i)"

definition copied :: "mem \<Rightarrow> u32 \<Rightarrow> u32 \<Rightarrow> nat \<Rightarrow> mem" where
  "copied m d s n = (\<lambda>a. if in_region d n a then m (s + (a - d)) else m a)"

lemma up_safe_Suc: "up_safe d s (Suc n) \<Longrightarrow> up_safe (d + 1) (s + 1) n"
  unfolding up_safe_def
proof (intro allI impI)
  fix i j
  assume "\<forall>i j. i < j \<and> j < Suc n \<longrightarrow> d + of_nat i \<noteq> s + of_nat j" and "i < j \<and> j < n"
  then have "d + of_nat (Suc i) \<noteq> s + of_nat (Suc j)" by blast
  then show "d + 1 + of_nat i \<noteq> s + 1 + of_nat j" by (simp add: ac_simps)
qed

lemma copy_up_copied:
  "n \<le> 2 ^ 32 \<Longrightarrow> up_safe d s n \<Longrightarrow> copy_up m d s n = copied m d s n"
proof (induction n arbitrary: m d s)
  case 0
  then show ?case by (simp add: copied_def)
next
  case (Suc n)
  have IH: "copy_up (m(d := m s)) (d + 1) (s + 1) n = copied (m(d := m s)) (d + 1) (s + 1) n"
    using Suc by (intro Suc.IH up_safe_Suc) auto
  have "copied (m(d := m s)) (d + 1) (s + 1) n a = copied m d s (Suc n) a" for a
  proof (cases "in_region (d + 1) n a")
    case True
    then obtain j where j: "j < n" "a = d + 1 + of_nat j" by (rule in_regionE)
    have "d + of_nat 0 \<noteq> s + of_nat (Suc j)"
      using Suc.prems(2) j(1) unfolding up_safe_def by blast
    then have "s + (a - d) \<noteq> d" using j(2) by (auto simp: ac_simps)
    then show ?thesis
      using True Suc.prems(1) by (auto simp: copied_def in_region_Suc algebra_simps)
  next
    case False
    then show ?thesis
      using Suc.prems(1) by (auto simp: copied_def in_region_Suc)
  qed
  then have "copied (m(d := m s)) (d + 1) (s + 1) n = copied m d s (Suc n)" by (rule ext)
  then show ?case using IH by simp
qed

lemma copy_down_copied:
  "n \<le> 2 ^ 32 \<Longrightarrow> down_safe d s n \<Longrightarrow> copy_down m d s n = copied m d s n"
proof (induction n arbitrary: m)
  case 0
  then show ?case by (simp add: copied_def)
next
  case (Suc n)
  let ?m = "m(d + of_nat n := m (s + of_nat n))"
  have safe: "down_safe d s n"
    using Suc.prems(2) unfolding down_safe_def by (meson less_SucI)
  have n: "n < 2 ^ 32" using Suc.prems(1) by simp
  note end_n = in_region_snoc [OF n]
  have "copied ?m d s n a = copied m d s (Suc n) a" for a
  proof (cases "in_region d n a")
    case True
    then obtain i where i: "i < n" "a = d + of_nat i" by (rule in_regionE)
    have "d + of_nat n \<noteq> s + of_nat i"
      using Suc.prems(2) i(1) unfolding down_safe_def by blast
    then have "s + (a - d) \<noteq> d + of_nat n" using i(2) by (auto simp: ac_simps)
    then show ?thesis using True by (auto simp: copied_def end_n)
  next
    case False
    then show ?thesis by (auto simp: copied_def end_n)
  qed
  then have "copied ?m d s n = copied m d s (Suc n)" by (rule ext)
  moreover have "copy_down ?m d s n = copied ?m d s n"
    using safe n by (intro Suc.IH) auto
  ultimately show ?case by simp
qed

lemma up_safe_less:
  assumes "d \<le> s" and "unat s + n \<le> 2 ^ 32"
  shows "up_safe d s n"
  unfolding up_safe_def
proof (intro allI impI)
  fix i j assume ij: "i < j \<and> j < n"
  have "unat d \<le> unat s" using assms(1) by (simp add: word_le_nat_alt)
  then have "unat (d + of_nat i) = unat d + i" and "unat (s + of_nat j) = unat s + j"
    using assms(2) ij by (auto intro: unat_add_of_nat)
  then show "d + of_nat i \<noteq> s + of_nat j"
    using ij \<open>unat d \<le> unat s\<close> by (metis add_le_less_mono less_irrefl)
qed

lemma down_safe_ge:
  assumes "s \<le> d" and "unat d + n \<le> 2 ^ 32"
  shows "down_safe d s n"
  unfolding down_safe_def
proof (intro allI impI)
  fix i j assume ij: "i < j \<and> j < n"
  have "unat s \<le> unat d" using assms(1) by (simp add: word_le_nat_alt)
  then have "unat (s + of_nat i) = unat s + i" and "unat (d + of_nat j) = unat d + j"
    using assms(2) ij by (auto intro: unat_add_of_nat)
  then show "d + of_nat j \<noteq> s + of_nat i"
    using ij \<open>unat s \<le> unat d\<close> by (metis add_le_less_mono less_irrefl)
qed

lemma up_safe_apart: "n \<le> 2 ^ 32 \<Longrightarrow> apart d n s n \<Longrightarrow> up_safe d s n"
  unfolding up_safe_def apart_def by (metis in_region_of_nat less_trans)

lemma copied_bytes:
  assumes "n \<le> 2 ^ 32"
  shows "bytes (copied m d s n) d n = bytes m s n"
  using assms by (auto simp: bytes_eq_iff copied_def in_region_of_nat)

lemma copied_frame: "\<not> in_region d n a \<Longrightarrow> copied m d s n a = m a"
  by (simp add: copied_def)

lemma unat_u32_le: "unat (x :: u32) \<le> 2 ^ 32"
  using unat_u32_less [of x] by simp

lemma memcpy_copied:
  assumes "apart dest (unat n) src (unat n)"
  shows "memcpy m dest src n = (dest, copied m dest src (unat n))"
  using assms by (simp add: memcpy_def copy_up_copied up_safe_apart unat_u32_le del: power_numeral)

lemma memmove_copied:
  assumes "unat src + unat n \<le> 2 ^ 32" and "unat dest + unat n \<le> 2 ^ 32"
  shows "memmove m dest src n = (dest, copied m dest src (unat n))"
proof (cases "dest < src")
  case True
  then have "up_safe dest src (unat n)" using assms(1) by (intro up_safe_less) auto
  then show ?thesis
    using True copy_up_copied [OF unat_u32_le] by (simp add: memmove_def)
next
  case False
  then have "down_safe dest src (unat n)" using assms(2) by (intro down_safe_ge) auto
  then show ?thesis
    using False copy_down_copied [OF unat_u32_le] by (simp add: memmove_def)
qed

lemma fill_apply:
  "n \<le> 2 ^ 32 \<Longrightarrow> fill m p v n a = (if in_region p n a then v else m a)"
proof (induction n arbitrary: m p)
  case (Suc n)
  have "fill m p v (Suc n) a = (if in_region (p + 1) n a then v else (m(p := v)) a)"
    using Suc by simp
  then show ?case using Suc.prems by (auto simp: in_region_Suc)
qed simp

lemma memcmp_loop_eq_0: "memcmp_loop m p q n = 0 \<longleftrightarrow> bytes m p n = bytes m q n"
  by (induction n arbitrary: p q) (auto simp: bytes_Suc)

lemma memcmp_loop_range: "memcmp_loop m p q n \<in> {- 1, 0, 1}"
  by (induction n arbitrary: p q) auto

section \<open>C strings\<close>

text \<open>
  \<open>cstr m p xs\<close>: the bytes \<open>xs\<close>, none of them zero, lie at \<open>p\<close> and a zero follows; the string
  does not run over the null address.
\<close>

fun cstr :: "mem \<Rightarrow> u32 \<Rightarrow> u8 list \<Rightarrow> bool" where
  "cstr m p [] \<longleftrightarrow> p \<noteq> 0 \<and> m p = 0"
| "cstr m p (x # xs) \<longleftrightarrow> p \<noteq> 0 \<and> x \<noteq> 0 \<and> m p = x \<and> cstr m (p + 1) xs"

lemma cstr_nonzero: "cstr m p xs \<Longrightarrow> p \<noteq> 0"
  by (cases xs) auto

lemma cstr_no_zero: "cstr m p xs \<Longrightarrow> 0 \<notin> set xs"
  by (induction xs arbitrary: p) auto

lemma cstr_fits: "cstr m p xs \<Longrightarrow> unat p + length xs < 2 ^ 32"
proof (induction xs arbitrary: p)
  case Nil
  then show ?case using unat_u32_less [of p] by simp
next
  case (Cons x xs)
  then have IH: "unat (p + 1) + length xs < 2 ^ 32" and "p + 1 \<noteq> 0"
    by (auto dest: cstr_nonzero)
  then have "unat (p + 1) = Suc (unat p)"
    by (intro unat_Suc_nonzero)
  then show ?case using IH by simp
qed

lemma cstr_append:
  "cstr m p (xs @ ys) \<longleftrightarrow>
     (\<forall>i<length xs. p + of_nat i \<noteq> 0 \<and> xs ! i \<noteq> 0 \<and> m (p + of_nat i) = xs ! i) \<and>
     cstr m (p + of_nat (length xs)) ys"
proof (induction xs arbitrary: p)
  case (Cons x xs)
  show ?case
    by (auto simp: Cons.IH nth_Cons ac_simps less_Suc_eq_0_disj split: nat.splits)
qed simp

lemma cstr_iff:
  "cstr m p xs \<longleftrightarrow>
     (\<forall>i<length xs. p + of_nat i \<noteq> 0 \<and> xs ! i \<noteq> 0 \<and> m (p + of_nat i) = xs ! i) \<and>
     p + of_nat (length xs) \<noteq> 0 \<and> m (p + of_nat (length xs)) = 0"
  using cstr_append [of m p xs "[]"] by auto

lemma cstr_unique: "cstr m p xs \<Longrightarrow> cstr m p ys \<Longrightarrow> xs = ys"
proof (induction xs arbitrary: p ys)
  case Nil
  then show ?case by (cases ys) auto
next
  case (Cons x xs)
  then show ?case by (cases ys) auto
qed

lemma cstr_nthD: "cstr m p xs \<Longrightarrow> i < length xs \<Longrightarrow> m (p + of_nat i) = xs ! i"
  by (simp add: cstr_iff)

lemma cstr_length: "cstr m p xs \<Longrightarrow> Suc (length xs) < 2 ^ 32"
  using cstr_fits [of m p xs] cstr_nonzero [of m p xs] unat_gt_0 [of p] by linarith

text \<open>A write outside the string and its terminator leaves it as it is.\<close>

lemma cstr_cong:
  assumes "cstr m p xs" and "\<And>a. in_region p (Suc (length xs)) a \<Longrightarrow> m' a = m a"
  shows "cstr m' p xs"
proof -
  have "Suc (length xs) \<le> 2 ^ 32" using cstr_fits [OF assms(1)] by simp
  then have "m' (p + of_nat i) = m (p + of_nat i)" if "i \<le> length xs" for i
    using that by (intro assms(2) in_region_of_nat) auto
  then show ?thesis using assms(1) unfolding cstr_iff by simp
qed

lemma cstr_upd: "cstr m p xs \<Longrightarrow> \<not> in_region p (Suc (length xs)) a \<Longrightarrow> cstr (m(a := v)) p xs"
  by (erule cstr_cong) auto

lemma strlen_loop_first:
  "(\<forall>i<k. m (p + of_nat i) \<noteq> 0) \<Longrightarrow> m (p + of_nat k) = 0 \<Longrightarrow>
     strlen_loop m p l = Some (l + of_nat k)"
proof (induction k arbitrary: p l)
  case 0
  then show ?case by (simp add: strlen_loop.simps [of m p])
next
  case (Suc k)
  have "\<forall>i<k. m (p + 1 + of_nat i) \<noteq> 0"
  proof (intro allI impI)
    fix i assume "i < k"
    then have "m (p + of_nat (Suc i)) \<noteq> 0" using Suc.prems(1) by blast
    then show "m (p + 1 + of_nat i) \<noteq> 0" by (simp add: ac_simps)
  qed
  moreover have "m (p + 1 + of_nat k) = 0" using Suc.prems(2) by (simp add: ac_simps)
  ultimately have "strlen_loop m (p + 1) (l + 1) = Some (l + 1 + of_nat k)"
    by (rule Suc.IH)
  moreover have "m p \<noteq> 0" using Suc.prems(1) by force
  ultimately show ?case by (simp add: strlen_loop.simps [of m p] ac_simps)
qed

lemma strlen_loop_returns: "strlen_loop m p l = Some r \<Longrightarrow> \<exists>a. m a = 0"
proof (rule strlen_loop.raw_induct [where P = "\<lambda>m p l r. \<exists>a. m a = 0"], goal_cases)
  case (1 f m p l r)
  then show ?case by (auto split: if_splits)
qed

lemma strlen_cstr: "cstr m p xs \<Longrightarrow> strlen m p = Some (of_nat (length xs))"
  using strlen_loop_first [of "length xs" m p 0]
  by (simp add: strlen_def cstr_iff)

lemma strcmp_cstr:
  "cstr m p xs \<Longrightarrow> cstr m q ys \<Longrightarrow> strcmp m p q = Some (if xs = ys then 0 else 1)"
proof (induction xs arbitrary: p q ys)
  case Nil
  then show ?case by (cases ys) (auto simp: strcmp.simps [of m p q])
next
  case (Cons x xs)
  then show ?case by (cases ys) (auto simp: strcmp.simps [of m p q])
qed

text \<open>\<^verbatim>\<open>strcpy\<close> into a place apart from the source copies the string and its terminator.\<close>

lemma strcpy_loop_cstr:
  assumes "cstr m src xs" and "apart dest (Suc (length xs)) src (Suc (length xs))"
  shows "strcpy_loop m dest src = Some (copied m dest src (Suc (length xs)))"
  using assms
proof (induction xs arbitrary: m dest src)
  case Nil
  then show ?case
    by (auto simp: strcpy_loop.simps [of m dest src] copied_def in_region_def Let_def unat_eq_0)
next
  case (Cons x xs)
  let ?m = "m(dest := m src)" and ?n = "Suc (length xs)"
  have n: "?n < 2 ^ 32" using cstr_fits [OF Cons.prems(1)] by simp
  note R = in_region_Suc [OF n]
  have ap: "apart (dest + 1) ?n (src + 1) ?n"
    using Cons.prems(2) R unfolding apart_def by (metis length_Cons)
  have out: "\<not> in_region src (Suc ?n) dest"
    using Cons.prems(2) by (auto simp: apart_def R)
  then have c: "cstr ?m (src + 1) xs"
    using Cons.prems(1) R by (intro cstr_upd) auto
  have IH: "strcpy_loop ?m (dest + 1) (src + 1) = Some (copied ?m (dest + 1) (src + 1) ?n)"
    by (rule Cons.IH [OF c ap])
  have "up_safe dest src (Suc ?n)"
    using Cons.prems(2) n by (intro up_safe_apart) auto
  then have "copied ?m (dest + 1) (src + 1) ?n = copied m dest src (Suc ?n)"
    using n by (metis copy_up.simps(2) copy_up_copied up_safe_Suc Suc_leI less_imp_le)
  then show ?case
    using IH Cons.prems(1) by (simp add: strcpy_loop.simps [of m dest src] Let_def)
qed

lemma cstr_copied:
  assumes "cstr m src xs" and "dest \<noteq> 0" and "unat dest + length xs < 2 ^ 32"
  shows "cstr (copied m dest src (Suc (length xs))) dest xs"
proof -
  have "Suc (length xs) \<le> 2 ^ 32" using cstr_fits [OF assms(1)] by simp
  then have r: "in_region dest (Suc (length xs)) (dest + of_nat i)" if "i \<le> length xs" for i
    using that by (intro in_region_of_nat) auto
  have "dest + of_nat i \<noteq> 0" if "i \<le> length xs" for i
  proof -
    have "unat (dest + of_nat i) = unat dest + i"
      using assms(3) that by (intro unat_add_of_nat) auto
    moreover have "unat dest \<noteq> 0" using assms(2) by (simp add: unat_eq_0)
    ultimately show ?thesis by (metis add_is_0 unat_0)
  qed
  then show ?thesis using assms(1) r by (simp add: cstr_iff copied_def)
qed

lemma strchr_cstr:
  "cstr m p xs \<Longrightarrow> c \<noteq> 0 \<Longrightarrow>
     strchr m p c =
       Some (if c \<in> set xs then p + of_nat (length (takeWhile (\<lambda>x. x \<noteq> c) xs)) else 0)"
proof (induction xs arbitrary: p)
  case Nil
  then show ?case by (simp add: strchr.simps [of m p])
next
  case (Cons x xs)
  then show ?case by (auto simp: strchr.simps [of m p] ac_simps)
qed

lemma strchr_found:
  assumes "cstr m p xs" and "c \<noteq> 0" and "strchr m p c = Some r"
  shows "r \<noteq> 0 \<longleftrightarrow> c \<in> set xs"
proof (cases "c \<in> set xs")
  case True
  then have "takeWhile (\<lambda>x. x \<noteq> c) xs \<noteq> xs" by auto
  then have "length (takeWhile (\<lambda>x. x \<noteq> c) xs) < length xs"
    by (metis length_takeWhile_le le_neq_implies_less takeWhile_eq_take take_all order_refl)
  moreover have "r = p + of_nat (length (takeWhile (\<lambda>x. x \<noteq> c) xs))"
    using assms True by (simp add: strchr_cstr)
  ultimately show ?thesis using assms(1) True by (simp add: cstr_iff)
next
  case False
  then show ?thesis using assms by (simp add: strchr_cstr)
qed

lemma strchr_returns: "cstr m p xs \<Longrightarrow> c \<noteq> 0 \<Longrightarrow> \<exists>r. strchr m p c = Some r"
  by (simp add: strchr_cstr)

lemma strspn_loop_cstr:
  "cstr m p xs \<Longrightarrow> cstr m q ds \<Longrightarrow>
     strspn_loop m p q r = Some (r + of_nat (length (takeWhile (\<lambda>x. x \<in> set ds) xs)))"
proof (induction xs arbitrary: p r)
  case Nil
  then show ?case by (simp add: strspn_loop.simps [of m p])
next
  case (Cons x xs)
  then obtain k where k: "strchr m q x = Some k" "k \<noteq> 0 \<longleftrightarrow> x \<in> set ds"
    by (metis cstr.simps(2) strchr_returns strchr_found)
  then show ?case using Cons by (auto simp: strspn_loop.simps [of m p] ac_simps)
qed

lemma strcspn_loop_cstr:
  "cstr m p xs \<Longrightarrow> cstr m q ds \<Longrightarrow>
     strcspn_loop m p q r = Some (r + of_nat (length (takeWhile (\<lambda>x. x \<notin> set ds) xs)))"
proof (induction xs arbitrary: p r)
  case Nil
  then show ?case by (simp add: strcspn_loop.simps [of m p])
next
  case (Cons x xs)
  then obtain k where k: "strchr m q x = Some k" "k \<noteq> 0 \<longleftrightarrow> x \<in> set ds"
    by (metis cstr.simps(2) strchr_returns strchr_found)
  then show ?case using Cons by (auto simp: strcspn_loop.simps [of m p] ac_simps)
qed

section \<open>Tokens\<close>

text \<open>The specification of repeated \<^verbatim>\<open>strtok\<close> calls: the maximal runs of non-delimiters.\<close>

function tokens :: "'a list \<Rightarrow> 'a list \<Rightarrow> 'a list list" where
  "tokens ds s =
     (case dropWhile (\<lambda>x. x \<in> set ds) s of
        [] \<Rightarrow> []
      | t \<Rightarrow> takeWhile (\<lambda>x. x \<notin> set ds) t # tokens ds (dropWhile (\<lambda>x. x \<notin> set ds) t))"
  by pat_completeness auto
termination
proof (relation "measure (\<lambda>(ds, s). length s)", simp)
  fix ds s :: "'a list" and x t
  assume t: "dropWhile (\<lambda>x. x \<in> set ds) s = x # t"
  then have "x \<notin> set ds" using hd_dropWhile [of "\<lambda>x. x \<in> set ds" s] by simp
  then have "length (dropWhile (\<lambda>x. x \<notin> set ds) (x # t)) \<le> length t"
    by (simp add: length_dropWhile_le)
  moreover have "length (x # t) \<le> length s" by (metis t length_dropWhile_le)
  ultimately show "((ds, dropWhile (\<lambda>x. x \<notin> set ds) (x # t)), ds, s) \<in> measure (\<lambda>(ds, s). length s)"
    by simp
qed

declare tokens.simps [simp del]

text \<open>
  The calling pattern of the path walks and of the shell: one \<^verbatim>\<open>strtok(str, delim)\<close>, then
  \<^verbatim>\<open>strtok(NULL, delim)\<close> until it returns a null pointer. The result is the final memory and the
  tokens' addresses.
\<close>

partial_function (option) strtok_all ::
    "mem \<Rightarrow> u32 \<Rightarrow> u32 \<Rightarrow> u32 \<Rightarrow> (mem \<times> u32 list) option" where
  "strtok_all m i str delim =
     Option.bind (strtok m i str delim) (\<lambda>(m1, i1, t).
       if t = 0 then Some (m1, [])
       else Option.bind (strtok_all m1 i1 0 delim) (\<lambda>(m2, ts). Some (m2, t # ts)))"

lemma strtok_done: "strtok m 0 0 d = Some (m, 0, 0)"
  by (simp add: strtok_def)

lemma strtok_split:
  assumes s: "cstr m p (lead @ tok @ rest)" and ds: "cstr m d ds"
    and lead: "set lead \<subseteq> set ds" and tok: "set tok \<inter> set ds = {}"
    and rest: "rest = [] \<or> tok \<noteq> [] \<and> hd rest \<in> set ds"
    and start: "p = (if str \<noteq> 0 then str else i)"
    and b: "b = p + of_nat (length lead)" and e: "e = b + of_nat (length tok)"
  shows "strtok m i str d =
    Some (if tok = [] then (m, 0, 0) else if rest = [] then (m, 0, b) else (m(e := 0), e + 1, b))"
proof -
  have "p \<noteq> 0" using s by (rule cstr_nonzero)
  have sb: "cstr m b (tok @ rest)" using s b by (simp add: cstr_append)
  then have se: "cstr m e rest" using e by (simp add: cstr_append)
  have "takeWhile (\<lambda>x. x \<in> set ds) (lead @ tok @ rest) = lead"
    using lead tok rest by (cases tok) (auto simp: subset_iff takeWhile_append2)
  then have spn: "strspn m p d = Some (of_nat (length lead))"
    using strspn_loop_cstr [OF s ds, of 0] by (simp add: strspn_def)
  have "takeWhile (\<lambda>x. x \<notin> set ds) (tok @ rest) = tok"
    using tok rest by (cases rest) (auto simp: takeWhile_append2 disjoint_iff)
  then have cspn: "strcspn m b d = Some (of_nat (length tok))"
    using strcspn_loop_cstr [OF sb ds, of 0] by (simp add: strcspn_def)
  have "length tok < 2 ^ 32" using cstr_fits [OF sb] by simp
  then have "(of_nat (length tok) :: u32) = 0 \<longleftrightarrow> tok = []"
    using of_nat_word_inj [of "length tok" 0, where 'a = 32] by auto
  moreover have "m e = 0 \<longleftrightarrow> rest = []" using se by (cases rest) auto
  ultimately show ?thesis
    using \<open>p \<noteq> 0\<close> start spn cspn b e rest by (auto simp: strtok_def Let_def)
qed

text \<open>Where the pieces of a split string lie after the terminator has been written.\<close>

lemma strtok_split_strings:
  assumes s: "cstr m b (tok @ c # rest)" and e: "e = b + of_nat (length tok)"
  shows "cstr (m(e := 0)) b tok" and "cstr (m(e := 0)) (e + 1) rest"
    and "apart b (Suc (length tok)) (e + 1) (Suc (length rest))"
proof -
  have fits: "unat b + length tok + length rest + 1 < 2 ^ 32"
    using cstr_fits [OF s] by simp
  have se: "cstr m e (c # rest)" using s e by (simp add: cstr_append)
  then have "e + 1 \<noteq> 0" by (auto dest: cstr_nonzero)
  have ue: "unat e = unat b + length tok" using fits e by (simp add: unat_add_of_nat)
  then have ue1: "unat (e + 1) = unat b + length tok + 1"
    using \<open>e + 1 \<noteq> 0\<close> by (simp add: unat_Suc_nonzero)
  show ap: "apart b (Suc (length tok)) (e + 1) (Suc (length rest))"
    using fits ue1 by (intro apart_intervalI) auto
  have "b + of_nat i \<noteq> e" if "i < length tok" for i
  proof -
    have "unat (b + of_nat i) = unat b + i" using fits that by (intro unat_add_of_nat) auto
    then show ?thesis using ue that by auto
  qed
  then show "cstr (m(e := 0)) b tok"
    using s [unfolded cstr_append] e cstr_nonzero [OF se]
    unfolding cstr_iff [of "m(e := 0)"] by auto
  have "in_region b (Suc (length tok)) e"
    using e fits by (auto intro: in_region_of_nat)
  then show "cstr (m(e := 0)) (e + 1) rest"
    using se ap by (intro cstr_upd) (auto simp: apart_def)
qed

lemma tokens_Nil: "dropWhile (\<lambda>x. x \<in> set ds) s = [] \<Longrightarrow> tokens ds s = []"
  by (subst tokens.simps) (simp only: list.case)

lemma tokens_Cons:
  assumes "dropWhile (\<lambda>x. x \<in> set ds) s = t" and "t \<noteq> []"
  shows "tokens ds s = takeWhile (\<lambda>x. x \<notin> set ds) t # tokens ds (dropWhile (\<lambda>x. x \<notin> set ds) t)"
  using assms by (subst tokens.simps) (auto split: list.splits)

lemma tokens_drop_delim: "c \<in> set ds \<Longrightarrow> tokens ds (c # s) = tokens ds s"
  by (subst (1 2) tokens.simps) simp

lemma strtok_all_tokens:
  assumes "cstr m p s" and "cstr m d ds" and "p = (if str \<noteq> 0 then str else i)"
    and "apart p (Suc (length s)) d (Suc (length ds))"
  shows "\<exists>m' ts. strtok_all m i str d = Some (m', ts) \<and> list_all2 (cstr m') ts (tokens ds s) \<and>
    (\<forall>a. \<not> in_region p (Suc (length s)) a \<longrightarrow> m' a = m a)"
  using assms
proof (induction "length s" arbitrary: m p s str i rule: less_induct)
  case less
  define lead where "lead = takeWhile (\<lambda>x. x \<in> set ds) s"
  define t where "t = dropWhile (\<lambda>x. x \<in> set ds) s"
  define tok where "tok = takeWhile (\<lambda>x. x \<notin> set ds) t"
  define rest where "rest = dropWhile (\<lambda>x. x \<notin> set ds) t"
  define b where "b = p + of_nat (length lead)"
  define e where "e = b + of_nat (length tok)"
  have split: "s = lead @ tok @ rest" by (simp add: lead_def tok_def rest_def t_def)
  have hdt: "t \<noteq> [] \<Longrightarrow> hd t \<notin> set ds" unfolding t_def by (rule hd_dropWhile)
  have toks: "tok = [] \<longleftrightarrow> t = []" using hdt by (cases t) (auto simp: tok_def)
  have hdr: "rest \<noteq> [] \<Longrightarrow> hd rest \<in> set ds"
    unfolding rest_def using hd_dropWhile [of "\<lambda>x. x \<notin> set ds" t] by auto
  have restNil: "tok = [] \<Longrightarrow> rest = []" using toks by (simp add: rest_def)
  have step: "strtok m i str d =
      Some (if tok = [] then (m, 0, 0) else if rest = [] then (m, 0, b) else (m(e := 0), e + 1, b))"
  proof (rule strtok_split)
    show "cstr m p (lead @ tok @ rest)" using less.prems(1) split by simp
    show "set lead \<subseteq> set ds" unfolding lead_def by (auto dest: set_takeWhileD)
    show "set tok \<inter> set ds = {}" unfolding tok_def by (auto dest: set_takeWhileD)
    show "rest = [] \<or> tok \<noteq> [] \<and> hd rest \<in> set ds" using hdr restNil by blast
  qed (use less.prems b_def e_def in auto)
  have toks_s: "tokens ds s = tok # tokens ds rest" if "t \<noteq> []"
    using tokens_Cons [OF t_def [symmetric] that] by (simp only: tok_def rest_def)
  have sb: "cstr m b (tok @ rest)" using less.prems(1) b_def by (simp add: split cstr_append)
  then have b0: "b \<noteq> 0" by (rule cstr_nonzero)
  consider "t = []" | "t \<noteq> []" "rest = []" | c r where "t \<noteq> []" "rest = c # r"
    by (cases rest) auto
  then show ?case
  proof cases
    case 1
    then show ?thesis
      using step toks tokens_Nil [of ds s] t_def by (simp add: strtok_all.simps [of m i])
  next
    case 2
    then have "tokens ds s = [tok]"
      using toks_s tokens_Nil [of ds "[]"] by simp
    moreover have "strtok_all m 0 0 d = Some (m, [])"
      by (simp add: strtok_all.simps [of m 0] strtok_done)
    ultimately show ?thesis
      using step 2 toks b0 sb by (simp add: strtok_all.simps [of m i])
  next
    case 3
    let ?m = "m(e := 0)"
    note pieces = strtok_split_strings [OF sb [unfolded 3(2)] e_def]
    have toks_r: "tokens ds s = tok # tokens ds r"
      using toks_s [OF 3(1)] 3 hdr by (simp add: tokens_drop_delim)
    have fits: "Suc (length s) \<le> 2 ^ 32" using cstr_fits [OF less.prems(1)] by simp
    have len: "length s = length lead + length tok + Suc (length r)"
      using arg_cong [OF split, of length] 3(2) by simp
    have e_in: "in_region p (Suc (length s)) e"
      using in_region_of_nat [of "length lead + length tok" "Suc (length s)" p] fits len
      by (simp add: e_def b_def ac_simps)
    have sub: "in_region p (Suc (length s)) a" if "in_region (e + 1) (Suc (length r)) a" for a
      using that fits len by (intro in_region_shift [of p "length lead + length tok + 1" "Suc (length r)"])
        (simp_all add: e_def b_def ac_simps)
    have "cstr ?m d ds"
      using less.prems(2,4) e_in by (intro cstr_upd) (auto simp: apart_def)
    moreover have "apart (e + 1) (Suc (length r)) d (Suc (length ds))"
      using less.prems(4) sub by (auto simp: apart_def)
    moreover have "e + 1 = (if (0 :: u32) \<noteq> 0 then 0 else e + 1)" by simp
    ultimately obtain m' ts where IH: "strtok_all ?m (e + 1) 0 d = Some (m', ts)"
        "list_all2 (cstr m') ts (tokens ds r)"
        "\<forall>a. \<not> in_region (e + 1) (Suc (length r)) a \<longrightarrow> m' a = ?m a"
      using less.hyps [OF _ pieces(2)] len by (metis less_add_Suc2 add_Suc_right)
    have "strtok_all m i str d = Some (m', b # ts)"
      using step 3 toks b0 IH(1) by (simp add: strtok_all.simps [of m i])
    moreover have "cstr m' b tok"
      using pieces(1,3) IH(3) by (intro cstr_cong [OF pieces(1)]) (auto simp: apart_def)
    moreover have "m' a = m a" if "\<not> in_region p (Suc (length s)) a" for a
    proof -
      have "\<not> in_region (e + 1) (Suc (length r)) a" and "a \<noteq> e"
        using that sub e_in by blast+
      then show ?thesis using IH(3) by simp
    qed
    ultimately show ?thesis using toks_r IH(2) by simp
  qed
qed

section \<open>Substring search\<close>

lemma bytes_cstr:
  assumes "cstr m p xs" and "k + n \<le> length xs"
  shows "bytes m (p + of_nat k) n = take n (drop k xs)"
proof (rule nth_equalityI)
  fix j assume "j < length (bytes m (p + of_nat k) n)"
  then have j: "j < n" by simp
  then have "m (p + of_nat (k + j)) = xs ! (k + j)" using assms by (intro cstr_nthD) auto
  then show "bytes m (p + of_nat k) n ! j = take n (drop k xs) ! j"
    using j assms(2) by (simp add: ac_simps)
qed (use assms(2) in simp)

definition occurs_at :: "'a list \<Rightarrow> 'a list \<Rightarrow> nat \<Rightarrow> bool" where
  "occurs_at xs ys k \<longleftrightarrow> take (length ys) (drop k xs) = ys"

lemma memcmp_occurs:
  assumes "cstr m p xs" and "cstr m q ys" and "k + length ys \<le> length xs"
  shows "memcmp m (p + of_nat k) q (of_nat (length ys)) = 0 \<longleftrightarrow> occurs_at xs ys k"
proof -
  have "unat (of_nat (length ys) :: u32) = length ys"
    using cstr_fits [OF assms(2)] by (intro unat_of_nat_u32) simp
  moreover have "bytes m q (length ys) = ys" using bytes_cstr [OF assms(2), of 0] by simp
  ultimately show ?thesis
    using bytes_cstr [OF assms(1,3)] by (simp add: memcmp_def memcmp_loop_eq_0 occurs_at_def)
qed

lemma strstr_loop_find:
  assumes "cstr m p xs" and "cstr m q ys"
  shows "k + n + length ys \<le> Suc (length xs) \<Longrightarrow>
    strstr_loop m (p + of_nat k) q (of_nat (length ys)) n =
      (case find (occurs_at xs ys) [k..<k + n] of None \<Rightarrow> 0 | Some j \<Rightarrow> p + of_nat j)"
proof (induction n arbitrary: k)
  case (Suc n)
  have up: "[k..<Suc (k + n)] = k # [Suc k..<Suc (k + n)]" by (simp add: upt_rec)
  have "k + length ys \<le> length xs" using Suc.prems by simp
  then have hit: "memcmp m (p + of_nat k) q (of_nat (length ys)) = 0 \<longleftrightarrow> occurs_at xs ys k"
    by (rule memcmp_occurs [OF assms])
  have "p + of_nat k + 1 = p + of_nat (Suc k)" by simp
  then show ?case
    using Suc.IH [of "Suc k"] Suc.prems hit by (simp del: upt_Suc add: up ac_simps)
qed simp

lemma strstr_cstr:
  assumes "cstr m p xs" and "cstr m q ys"
  shows "strstr m p q = Some (case find (occurs_at xs ys) [0..<Suc (length xs) - length ys] of
    None \<Rightarrow> 0 | Some k \<Rightarrow> p + of_nat k)"
proof -
  have x: "unat (of_nat (length xs) :: u32) = length xs"
    and y: "unat (of_nat (length ys) :: u32) = length ys"
    using cstr_fits [OF assms(1)] cstr_fits [OF assms(2)] by (auto intro: unat_of_nat_u32)
  show ?thesis
  proof (cases "length xs < length ys")
    case True
    then have "(of_nat (length xs) :: u32) < of_nat (length ys)"
      using x y by (simp add: word_less_nat_alt)
    then show ?thesis using True assms by (simp add: strstr_def strlen_cstr)
  next
    case False
    then have nl: "\<not> (of_nat (length xs) :: u32) < of_nat (length ys)"
      using x y by (simp add: word_less_nat_alt)
    have "(of_nat (length xs) :: u32) - of_nat (length ys) + 1 =
        of_nat (Suc (length xs) - length ys)"
      using False by (simp add: of_nat_diff Suc_diff_le)
    then have "unat ((of_nat (length xs) :: u32) - of_nat (length ys) + 1) =
        Suc (length xs) - length ys"
      using cstr_length [OF assms(1)] by (simp only:) (rule unat_of_nat_u32, simp)
    then show ?thesis
      using nl assms False strstr_loop_find [OF assms, of 0 "Suc (length xs) - length ys"]
      by (simp add: strstr_def strlen_cstr)
  qed
qed

section \<open>Decimal conversion\<close>

text \<open>The digits of a number, least significant first, as the division loop produces them.\<close>

function digits_lsd :: "int \<Rightarrow> int \<Rightarrow> int list" where
  "digits_lsd b v = (if b < 2 \<or> v < b then [v] else v mod b # digits_lsd b (v div b))"
  by pat_completeness auto
termination
proof (relation "measure (\<lambda>(b, v). nat v)", simp)
  fix b v :: int
  assume "\<not> (b < 2 \<or> v < b)"
  then have "v div b < v" by (intro int_div_less_self) auto
  then show "((b, v div b), b, v) \<in> measure (\<lambda>(b, v). nat v)"
    using \<open>\<not> (b < 2 \<or> v < b)\<close> by auto
qed

declare digits_lsd.simps [simp del]

lemma digits_lsd_nonempty: "digits_lsd b v \<noteq> []"
  by (subst digits_lsd.simps) simp

lemma digits_lsd_range:
  "2 \<le> b \<Longrightarrow> 0 \<le> v \<Longrightarrow> d \<in> set (digits_lsd b v) \<Longrightarrow> 0 \<le> d \<and> d < b"
proof (induction b v rule: digits_lsd.induct)
  case (1 b v)
  show ?case
  proof (cases "v < b")
    case True
    then show ?thesis using "1.prems" digits_lsd.simps [of b v] by simp
  next
    case False
    then have "d = v mod b \<or> d \<in> set (digits_lsd b (v div b))"
      using "1.prems" digits_lsd.simps [of b v] by auto
    moreover have "0 \<le> v mod b \<and> v mod b < b" using "1.prems"(1) by simp
    moreover have "0 \<le> v div b" using "1.prems" by (simp add: pos_imp_zdiv_nonneg_iff)
    ultimately show ?thesis using "1.IH" "1.prems" False by auto
  qed
qed

text \<open>Evaluating the digits most significant first gives the number back.\<close>

lemma digits_lsd_eval:
  "2 \<le> b \<Longrightarrow> 0 \<le> v \<Longrightarrow> foldl (\<lambda>r d. b * r + d) 0 (rev (digits_lsd b v)) = v"
proof (induction b v rule: digits_lsd.induct)
  case (1 b v)
  show ?case
  proof (cases "v < b")
    case True
    then show ?thesis using "1.prems" digits_lsd.simps [of b v] by simp
  next
    case False
    have "0 \<le> v div b" using "1.prems" by (simp add: pos_imp_zdiv_nonneg_iff)
    then show ?thesis
      using "1.IH" "1.prems" False digits_lsd.simps [of b v] by simp
  qed
qed

lemma digits_lsd_length:
  "2 \<le> b \<Longrightarrow> 0 \<le> v \<Longrightarrow> v < 2 ^ n \<Longrightarrow> 0 < n \<Longrightarrow> length (digits_lsd b v) \<le> n"
proof (induction b v arbitrary: n rule: digits_lsd.induct)
  case (1 b v)
  show ?case
  proof (cases "v < b")
    case True
    then show ?thesis using "1.prems" digits_lsd.simps [of b v] by simp
  next
    case False
    then have "2 \<le> v" using "1.prems"(1) by simp
    then have "n \<noteq> 1" using "1.prems"(3) by (cases "n = 1") auto
    then obtain k where k: "n = Suc k" "0 < k" using "1.prems"(4) by (cases n) auto
    have "v div b \<le> v div 2" using "1.prems" by (intro zdiv_mono2) auto
    also have "\<dots> < 2 ^ k" using "1.prems"(3) k by simp
    finally have "v div b < 2 ^ k" .
    moreover have "0 \<le> v div b" using "1.prems" by (simp add: pos_imp_zdiv_nonneg_iff)
    ultimately have "length (digits_lsd b (v div b)) \<le> k"
      using "1.IH" "1.prems" False k by auto
    then show ?thesis using False "1.prems"(1) k digits_lsd.simps [of b v] by simp
  qed
qed

lemma c_div_nonneg: "0 \<le> v \<Longrightarrow> 0 < b \<Longrightarrow> v sdiv b = v div (b :: int)"
  by (cases "v = 0") (auto simp: signed_divide_int_def)

lemma c_mod_nonneg: "0 \<le> v \<Longrightarrow> 0 < b \<Longrightarrow> v smod b = v mod (b :: int)"
  by (cases "v = 0") (auto simp: signed_modulo_int_def)

definition digit_byte :: "int \<Rightarrow> u8" where
  "digit_byte d = digit_char (word_of_int d)"

lemma itoa_digits_store:
  assumes "2 \<le> b" and "0 \<le> v" and "k + length (digits_lsd b v) \<le> 2 ^ 32"
  shows "\<exists>m'. itoa_digits m v r b (of_nat k) = Some (m', of_nat (k + length (digits_lsd b v))) \<and>
    bytes m' (r + of_nat k) (length (digits_lsd b v)) = map digit_byte (digits_lsd b v) \<and>
    (\<forall>a. \<not> in_region (r + of_nat k) (length (digits_lsd b v)) a \<longrightarrow> m' a = m a)"
  using assms
proof (induction b v arbitrary: m k rule: digits_lsd.induct)
  case (1 b v)
  let ?m = "m(r + of_nat k := digit_byte (v mod b))"
  have eq: "v sdiv b = v div b" "v smod b = v mod b"
    using "1.prems" by (auto simp: c_div_nonneg c_mod_nonneg)
  have unf: "itoa_digits m v r b (of_nat k) =
      (if v div b \<noteq> 0 then itoa_digits ?m (v div b) r b (of_nat (Suc k))
       else Some (?m, of_nat (Suc k)))"
    using "1.prems"(1) eq
    by (subst itoa_digits.simps) (simp add: digit_byte_def Let_def add.commute)
  show ?case
  proof (cases "v < b")
    case True
    then have d: "digits_lsd b v = [v]" by (simp add: digits_lsd.simps [of b v])
    have "v div b = 0" "v mod b = v" using True "1.prems" by auto
    then have "itoa_digits m v r b (of_nat k) = Some (?m, of_nat (k + 1))"
      using unf by simp
    moreover have "bytes ?m (r + of_nat k) 1 = [digit_byte v]"
      using \<open>v mod b = v\<close> bytes_Suc [of ?m "r + of_nat k" 0] by simp
    moreover have "\<forall>a. \<not> in_region (r + of_nat k) 1 a \<longrightarrow> ?m a = m a"
      using in_region_Suc [of 0] by simp
    ultimately show ?thesis by (simp add: d)
  next
    case False
    have d: "digits_lsd b v = v mod b # digits_lsd b (v div b)"
      using False "1.prems" by (simp add: digits_lsd.simps [of b v])
    let ?n = "length (digits_lsd b (v div b))"
    have nz: "v div b \<noteq> 0" and nn: "0 \<le> v div b"
      using False "1.prems" by (auto simp: pos_imp_zdiv_nonneg_iff zdiv_eq_0_iff)
    have kn: "Suc k + ?n \<le> 2 ^ 32" using "1.prems"(3) d by simp
    have guard: "\<not> (b < 2 \<or> v < b)" using False "1.prems"(1) by simp
    from "1.IH" [OF guard "1.prems"(1) nn kn, of ?m]
    obtain m' where m': "itoa_digits ?m (v div b) r b (of_nat (Suc k)) =
          Some (m', of_nat (Suc k + ?n))"
        "bytes m' (r + of_nat (Suc k)) ?n = map digit_byte (digits_lsd b (v div b))"
        "\<forall>a. \<not> in_region (r + of_nat (Suc k)) ?n a \<longrightarrow> m' a = ?m a"
      by (elim exE conjE)
    have n: "?n < 2 ^ 32" using kn by simp
    have "\<not> in_region (r + of_nat k + 1) ?n (r + of_nat k)"
    proof
      assume "in_region (r + of_nat k + 1) ?n (r + of_nat k)"
      then obtain i where i: "i < ?n" "r + of_nat k = r + of_nat k + 1 + of_nat i"
        by (rule in_regionE)
      then have "(of_nat (Suc i) :: u32) = of_nat 0" by simp
      then show False using i(1) n of_nat_word_inj [of "Suc i" 0, where 'a = 32] by simp
    qed
    then have hd: "m' (r + of_nat k) = digit_byte (v mod b)"
      using m'(3) by (simp add: ac_simps)
    have "itoa_digits m v r b (of_nat k) = Some (m', of_nat (k + Suc ?n))"
      using unf nz m'(1) by simp
    moreover have "bytes m' (r + of_nat k) (Suc ?n) = map digit_byte (digits_lsd b v)"
      using hd m'(2) by (simp add: bytes_Suc d ac_simps)
    moreover have "\<forall>a. \<not> in_region (r + of_nat k) (Suc ?n) a \<longrightarrow> m' a = m a"
      using m'(3) n by (simp add: in_region_Suc ac_simps)
    ultimately show ?thesis by (simp add: d)
  qed
qed

lemma itoa_reverse_apply:
  "0 \<le> j \<Longrightarrow> i < 2 ^ 32 \<Longrightarrow> 0 \<le> x \<Longrightarrow> x < 2 ^ 32 \<Longrightarrow>
     itoa_reverse m r j i (r + word_of_int x) =
       m (r + word_of_int (if j \<le> x \<and> x \<le> i then j + i - x else x))"
proof (induction m r j i rule: itoa_reverse.induct)
  case (1 m r j i)
  let ?m = "m(r + word_of_int j := m (r + word_of_int i), r + word_of_int i := m (r + word_of_int j))"
  show ?case
  proof (cases "j < i")
    case True
    have inj: "(word_of_int y :: u32) = word_of_int z \<longleftrightarrow> y = z"
      if "0 \<le> y" "y < 2 ^ 32" "0 \<le> z" "z < 2 ^ 32" for y z :: int
    proof
      assume "(word_of_int y :: u32) = word_of_int z"
      then have "uint (word_of_int y :: u32) = uint (word_of_int z :: u32)" by simp
      then show "y = z" using that by (simp add: uint_word_of_int)
    qed simp
    have at: "?m (r + word_of_int y) =
        m (r + word_of_int (if y = i then j else if y = j then i else y))"
      if "0 \<le> y" "y < 2 ^ 32" for y
    proof -
      have "r + word_of_int y = r + word_of_int i \<longleftrightarrow> y = i"
        and "r + word_of_int y = r + word_of_int j \<longleftrightarrow> y = j"
        using inj [of y i] inj [of y j] that "1.prems"(1,2) True by simp_all
      then show ?thesis by simp
    qed
    define y where "y = (if j + 1 \<le> x \<and> x \<le> i - 1 then j + 1 + (i - 1) - x else x)"
    have "itoa_reverse m r j i (r + word_of_int x) =
        itoa_reverse ?m r (j + 1) (i - 1) (r + word_of_int x)"
      by (subst itoa_reverse.simps) (simp only: True if_True)
    also have "\<dots> = ?m (r + word_of_int y)"
      unfolding y_def using "1.prems" by (intro "1.IH" [OF True]) auto
    also have "?m (r + word_of_int y) = m (r + word_of_int (if y = i then j else if y = j then i else y))"
      using "1.prems" True by (intro at) (auto simp: y_def)
    also have "(if y = i then j else if y = j then i else y) =
        (if j \<le> x \<and> x \<le> i then j + i - x else x)"
      using True by (auto simp: y_def)
    finally show ?thesis .
  next
    case False
    then have "(if j \<le> x \<and> x \<le> i then j + i - x else x) = x" by auto
    then show ?thesis using False by (simp add: itoa_reverse.simps [of m r j i])
  qed
qed

text \<open>\<^verbatim>\<open>itoa\<close> of a non-negative value leaves its digits, most significant first, as a C string.\<close>

lemma digit_byte_cases:
  assumes "0 \<le> d" and "d < 36"
  shows "digit_byte d = of_int (if d < 10 then d + 48 else d + 87)" and "digit_byte d \<noteq> 0"
proof -
  have "\<forall>d \<in> set [0..35]. digit_byte d = of_int (if d < 10 then d + 48 else d + 87) \<and>
      digit_byte d \<noteq> 0"
    by code_simp
  moreover have "d \<in> set [0..35]" using assms by simp
  ultimately show "digit_byte d = of_int (if d < 10 then d + 48 else d + 87)"
    and "digit_byte d \<noteq> 0" by blast+
qed

lemma itoa_cstr:
  assumes b: "2 \<le> b" "b \<le> 36" and v: "0 \<le> v" "v < 2 ^ 31"
    and r: "r \<noteq> 0" "unat r + 32 < 2 ^ 32"
  shows "\<exists>m'. itoa m v r b = Some (r, m') \<and> cstr m' r (map digit_byte (rev (digits_lsd b v)))"
proof -
  define ds where "ds = digits_lsd b v"
  define n where "n = length ds"
  have n: "0 < n" "n \<le> 31"
    using digits_lsd_nonempty [of b v] digits_lsd_length [OF b(1) v(1), of 31] v(2)
    by (auto simp: n_def ds_def)
  obtain m1 where m1: "itoa_digits m v r b 0 = Some (m1, of_nat n)"
      "bytes m1 r n = map digit_byte ds"
    using itoa_digits_store [OF b(1) v(1), of 0 m r] n by (auto simp: n_def ds_def)
  define m2 where "m2 = m1(r + of_nat n := 0)"
  define m3 where "m3 = itoa_reverse m2 r 0 (int n - 1)"
  have un: "uint (of_nat n :: u32) = int n" using n by (simp add: uint_nat unat_of_nat_u32)
  have at: "m3 (r + of_nat i) = m2 (r + of_nat (if i < n then n - 1 - i else i))" if "i \<le> n" for i
  proof -
    have "(if 0 \<le> int i \<and> int i \<le> int n - 1 then 0 + (int n - 1) - int i else int i) =
        int (if i < n then n - 1 - i else i)" by auto
    then show ?thesis
      using itoa_reverse_apply [of 0 "int n - 1" "int i" m2 r] that n
      by (simp add: m3_def del: of_int_diff)
  qed
  have ne: "(of_nat i :: u32) \<noteq> of_nat n" if "i < n" for i
    using that n of_nat_word_inj [of i n, where 'a = 32] by auto
  have dig: "m3 (r + of_nat i) = map digit_byte (rev ds) ! i" if "i < n" for i
  proof -
    have "bytes m1 r n ! (n - 1 - i) = m1 (r + of_nat (n - 1 - i))"
      using that by (intro nth_bytes) simp
    then have "m1 (r + of_nat (n - 1 - i)) = map digit_byte (rev ds) ! i"
      using that m1(2) by (simp add: rev_nth n_def)
    then show ?thesis using at [of i] ne [of "n - 1 - i"] that by (simp add: m2_def)
  qed
  have nz: "r + of_nat i \<noteq> 0" if "i \<le> n" for i
  proof -
    have "unat (r + of_nat i) = unat r + i" using that n r by (intro unat_add_of_nat) simp
    then show ?thesis using r(1) by (metis add_is_0 unat_0 unat_eq_0)
  qed
  have dnz: "map digit_byte (rev ds) ! i \<noteq> 0" if "i < n" for i
    using that digits_lsd_range [OF b(1) v(1), of "rev ds ! i"] b digit_byte_cases(2)
    by (simp add: ds_def n_def) (metis length_rev nth_mem set_rev order_less_le_trans)
  have "m3 (r + of_nat n) = 0" using at [of n] by (simp add: m2_def)
  then have "cstr m3 r (map digit_byte (rev ds))"
    using dig nz dnz by (simp add: cstr_iff n_def)
  moreover have "itoa m v r b = Some (r, m3)"
    using m1(1) un by (simp add: itoa_def m2_def m3_def)
  ultimately show ?thesis by (auto simp: ds_def)
qed

lemma atoi_digit_cases:
  assumes "0 \<le> d" and "d < 10"
  shows "atoi_digit (digit_byte d) = word_of_int d" and "digit_byte d \<notin> {32, 43, 45}"
    and "\<not> (word_of_int d :: u16) > 9" and "ucast (word_of_int d :: u16) = (word_of_int d :: u32)"
proof -
  have "\<forall>d \<in> set [0..9]. atoi_digit (digit_byte d) = word_of_int d \<and>
      digit_byte d \<notin> set [32, 43, 45] \<and> \<not> (word_of_int d :: u16) > 9 \<and>
      ucast (word_of_int d :: u16) = (word_of_int d :: u32)"
    by code_simp
  moreover have "d \<in> set [0..9]" using assms by simp
  ultimately show "atoi_digit (digit_byte d) = word_of_int d"
    and "digit_byte d \<notin> {32, 43, 45}" and "\<not> (word_of_int d :: u16) > 9"
    and "ucast (word_of_int d :: u16) = (word_of_int d :: u32)" by auto
qed

lemma atoi_loop_digits:
  "cstr m p (map digit_byte ds) \<Longrightarrow> \<forall>d \<in> set ds. 0 \<le> d \<and> d < 10 \<Longrightarrow>
     atoi_loop m p (word_of_int r) = Some (word_of_int (foldl (\<lambda>r d. 10 * r + d) r ds))"
proof (induction ds arbitrary: p r)
  case Nil
  have "(atoi_digit 0 :: u16) > 9" by (simp add: atoi_digit_def)
  then show ?case using Nil.prems by (simp add: atoi_loop.simps [of m p] Let_def)
next
  case (Cons d ds)
  note d = atoi_digit_cases [of d]
  have "10 * word_of_int r + word_of_int d = (word_of_int (10 * r + d) :: u32)" by simp
  then have "atoi_loop m p (word_of_int r) = atoi_loop m (p + 1) (word_of_int (10 * r + d))"
    using d Cons.prems by (subst atoi_loop.simps) (simp add: Let_def)
  then show ?case using Cons.IH [of "p + 1" "10 * r + d"] Cons.prems by simp
qed

lemma atoi_decimal:
  assumes "cstr m p (map digit_byte ds)" and "\<forall>d \<in> set ds. 0 \<le> d \<and> d < 10" and "ds \<noteq> []"
  shows "atoi m p = Some (word_of_int (foldl (\<lambda>r d. 10 * r + d) 0 ds))"
proof -
  obtain d ds' where ds: "ds = d # ds'" using assms(3) by (cases ds) auto
  then have hd: "m p = digit_byte d" and "digit_byte d \<notin> {32, 43, 45}"
    using assms(1,2) atoi_digit_cases(2) [of d] by auto
  then have "m p \<noteq> 32" "m p \<noteq> 43" "m p \<noteq> 45" by auto
  then show ?thesis
    using atoi_loop_digits [OF assms(1,2), of 0]
    by (simp add: atoi_def atoi_skip.simps [of m p] Let_def option.map_ident)
qed

section \<open>Properties\<close>

text \<open>
  C1. \<^verbatim>\<open>memmove\<close> is right however its two regions overlap: as long as neither runs past the end of
  the address space, the destination holds what the source held before the call, and no byte
  outside the destination changes.
\<close>

theorem memmove_overlap:
  assumes "unat src + unat n \<le> 2 ^ 32" and "unat dest + unat n \<le> 2 ^ 32"
  shows "bytes (snd (memmove m dest src n)) dest (unat n) = bytes m src (unat n) \<and>
    (\<forall>a. \<not> in_region dest (unat n) a \<longrightarrow> snd (memmove m dest src n) a = m a)"
  using memmove_copied [OF assms] copied_bytes [OF unat_u32_le] by (simp add: copied_def)

theorem memmove_overlap_witness:
  "bytes (snd (memmove (\<lambda>a. ucast a) 102 100 4)) 102 4 = [100, 101, 102, 103 :: u8] \<and>
   snd (memmove (\<lambda>a. ucast a) 102 100 4) 106 = (106 :: u8)"
proof -
  have "unat (100 :: u32) + unat (4 :: u32) \<le> 2 ^ 32"
    and "unat (102 :: u32) + unat (4 :: u32) \<le> 2 ^ 32" by simp_all
  from memmove_overlap [OF this, of "\<lambda>a. ucast a"]
  have "bytes (snd (memmove (\<lambda>a. ucast a) 102 100 4)) 102 4 =
      bytes (\<lambda>a. ucast (a :: u32) :: u8) 100 4"
    and "\<not> in_region 102 4 106 \<Longrightarrow> snd (memmove (\<lambda>a. ucast a) 102 100 4) 106 = (106 :: u8)"
    by simp_all
  then show ?thesis by (simp add: in_region_def)
qed


text \<open>
  C3. Calling \<^verbatim>\<open>strtok\<close> until it returns a null pointer walks exactly the maximal runs of
  non-delimiters of the string, in order: each returned address is a C string holding the
  corresponding token. Nothing outside the tokenised string is written.
\<close>

theorem strtok_yields_tokens:
  assumes "cstr m p s" and "cstr m d ds" and "apart p (Suc (length s)) d (Suc (length ds))"
  shows "\<exists>m' ts. strtok_all m i p d = Some (m', ts) \<and> list_all2 (cstr m') ts (tokens ds s) \<and>
    (\<forall>a. \<not> in_region p (Suc (length s)) a \<longrightarrow> m' a = m a)"
  using assms cstr_nonzero [OF assms(1)] by (intro strtok_all_tokens) auto

definition demo_mem :: mem where
  "demo_mem = (\<lambda>_. 0)(100 := 47, 101 := 97, 102 := 98, 103 := 47, 104 := 47, 105 := 99, 200 := 47)"

theorem strtok_yields_tokens_witness:
  "\<exists>m' ts. strtok_all demo_mem 0 100 200 = Some (m', ts) \<and>
     list_all2 (cstr m') ts (tokens [47] [47, 97, 98, 47, 47, 99]) \<and>
     (\<forall>a. \<not> in_region 100 7 a \<longrightarrow> m' a = demo_mem a)"
proof -
  have "cstr demo_mem 100 [47, 97, 98, 47, 47, 99]" and "cstr demo_mem 200 [47]"
    by (simp_all add: demo_mem_def)
  moreover have "apart 100 (Suc (length [47, 97, 98, 47, 47, 99 :: u8])) 200 (Suc (length [47 :: u8]))"
    by (intro apart_intervalI) simp_all
  ultimately show ?thesis
    using strtok_yields_tokens [of demo_mem 100 "[47, 97, 98, 47, 47, 99]" 200 "[47]" 0]
    by (simp add: numeral_eq_Suc)
qed

text \<open>
  C4. \<^verbatim>\<open>strstr\<close> returns the first position at which the second string occurs in the first one, and
  a null pointer when it occurs nowhere.
\<close>

theorem strstr_first_occurrence:
  assumes "cstr m p xs" and "cstr m q ys"
  shows "(\<exists>k. strstr m p q = Some (p + of_nat k) \<and> k + length ys \<le> length xs \<and> occurs_at xs ys k \<and>
        (\<forall>j<k. \<not> occurs_at xs ys j)) \<or>
    (strstr m p q = Some 0 \<and> (\<forall>k. k + length ys \<le> length xs \<longrightarrow> \<not> occurs_at xs ys k))"
proof (cases "find (occurs_at xs ys) [0..<Suc (length xs) - length ys]")
  case None
  then have "\<forall>k. k + length ys \<le> length xs \<longrightarrow> \<not> occurs_at xs ys k"
    by (force simp: find_None_iff)
  then show ?thesis using strstr_cstr [OF assms] None by simp
next
  case (Some k)
  then have k: "k < Suc (length xs) - length ys" "occurs_at xs ys k" "\<forall>j<k. \<not> occurs_at xs ys j"
    by (auto simp: find_Some_iff)
  then have "k + length ys \<le> length xs" by linarith
  then show ?thesis using strstr_cstr [OF assms] Some k by auto
qed

theorem strstr_first_occurrence_witness:
  "(\<exists>k. strstr demo_mem 100 200 = Some (100 + of_nat k) \<and> k + 1 \<le> 6 \<and>
      occurs_at [47, 97, 98, 47, 47, 99] [47 :: u8] k \<and>
      (\<forall>j<k. \<not> occurs_at [47, 97, 98, 47, 47, 99] [47 :: u8] j)) \<or>
   (strstr demo_mem 100 200 = Some 0 \<and>
      (\<forall>k. k + 1 \<le> 6 \<longrightarrow> \<not> occurs_at [47, 97, 98, 47, 47, 99] [47 :: u8] k))"
proof -
  have "cstr demo_mem 100 [47, 97, 98, 47, 47, 99]" and "cstr demo_mem 200 [47]"
    by (simp_all add: demo_mem_def)
  from strstr_first_occurrence [OF this] show ?thesis by (simp add: numeral_eq_Suc)
qed

text \<open>
  C5. Printing a non-negative \<^verbatim>\<open>int\<close> in decimal with \<^verbatim>\<open>itoa\<close> and reading it back with \<^verbatim>\<open>atoi\<close> gives
  the number, whatever the buffer held before.
\<close>

theorem atoi_itoa:
  assumes "0 \<le> v" and "v < 2 ^ 31" and "r \<noteq> 0" and "unat r + 32 < 2 ^ 32"
  shows "\<exists>m'. itoa m v r 10 = Some (r, m') \<and> atoi m' r = Some (word_of_int v)"
proof -
  obtain m' where m': "itoa m v r 10 = Some (r, m')"
      "cstr m' r (map digit_byte (rev (digits_lsd 10 v)))"
    using itoa_cstr [of 10 v r m] assms by auto
  have "\<forall>d \<in> set (rev (digits_lsd 10 v)). 0 \<le> d \<and> d < 10"
    using digits_lsd_range [of 10 v] assms(1) by auto
  then have "atoi m' r = Some (word_of_int (foldl (\<lambda>r d. 10 * r + d) 0 (rev (digits_lsd 10 v))))"
    using m'(2) by (intro atoi_decimal) (auto simp: digits_lsd_nonempty)
  then show ?thesis using m'(1) digits_lsd_eval [of 10 v] assms(1) by simp
qed

theorem atoi_itoa_witness:
  "\<exists>m'. itoa demo_mem 2024 4096 10 = Some (4096, m') \<and> atoi m' 4096 = Some (word_of_int 2024)"
  by (rule atoi_itoa) simp_all

end
