(* ===== verification/Pipe.thy ===== *)
theory Pipe
  imports Prelude
begin

text \<open>
  \<^verbatim>\<open>kernel/fs/pipe.c\<close>: the byte ring buffer behind pipes and the standard input of every task.
  The indices are 8-bit and are reduced modulo the size after each step, the count of valid
  bytes is clipped to the size. The locale \<open>byte_fifo\<close> is the contract a reader and a writer rely
  on; the ring buffer provides it for sizes up to 256.
\<close>

section \<open>The ring buffer\<close>

record ring_buffer =
  rb_buffer :: "u8 list"
  rb_read_index :: u8
  rb_write_index :: u8
  rb_size :: u32
  rb_valid :: u32

text \<open>
  \<^verbatim>\<open>kmalloc\<close> does not clear: \<open>garbage\<close> is what the buffer's memory held, \<open>old\<close> what the memory of
  the field \<^verbatim>\<open>valid_data_size\<close> held, which \<^verbatim>\<open>make_rb\<close> does not set.
\<close>

definition make_rb :: "(nat \<Rightarrow> u8) \<Rightarrow> u32 \<Rightarrow> u32 \<Rightarrow> ring_buffer" where
  "make_rb garbage old n =
     \<lparr>rb_buffer = map garbage [0..<unat n], rb_read_index = 0, rb_write_index = 0,
      rb_size = n, rb_valid = old\<rparr>"

text \<open>
  One byte read. With no valid byte the code halts until an interrupt handler has written one:
  called on its own it does not return.
\<close>

definition rb_read_byte :: "ring_buffer \<Rightarrow> (u8 \<times> ring_buffer) res" where
  "rb_read_byte rb =
     (if rb_valid rb = 0 then Inl Diverges
      else if length (rb_buffer rb) \<le> unat (rb_read_index rb) then Inl Wild_access
      else if rb_size rb = 0 then Inl Div_by_zero
      else
        let byte = rb_buffer rb ! unat (rb_read_index rb);
            ri = rb_read_index rb + 1
        in Inr (byte, rb\<lparr>rb_valid := rb_valid rb - 1,
                         rb_read_index := ucast (ucast ri mod rb_size rb)\<rparr>))"

definition rb_write_byte :: "ring_buffer \<Rightarrow> u8 \<Rightarrow> ring_buffer res" where
  "rb_write_byte rb byte =
     (if length (rb_buffer rb) \<le> unat (rb_write_index rb) then Inl Wild_access
      else if rb_size rb = 0 then Inl Div_by_zero
      else
        let wi = rb_write_index rb + 1;
            v = rb_valid rb + 1
        in Inr (rb\<lparr>rb_buffer := (rb_buffer rb)[unat (rb_write_index rb) := byte],
                   rb_write_index := ucast (ucast wi mod rb_size rb),
                   rb_valid := (if v > rb_size rb then rb_size rb else v)\<rparr>))"

text \<open>The bytes a read stores through its buffer argument are returned as a list.\<close>

fun rb_read_loop :: "ring_buffer \<Rightarrow> nat \<Rightarrow> (u8 list \<times> ring_buffer) res" where
  "rb_read_loop rb 0 = Inr ([], rb)"
| "rb_read_loop rb (Suc n) =
     rbind (rb_read_byte rb) (\<lambda>(b, rb1).
     rbind (rb_read_loop rb1 n) (\<lambda>(bs, rb2). Inr (b # bs, rb2)))"

definition rb_read :: "ring_buffer \<Rightarrow> u32 \<Rightarrow> (u32 \<times> u8 list \<times> ring_buffer) res" where
  "rb_read rb n =
     (if n = 0 then Inr (0, [], rb)
      else rbind (rb_read_loop rb (unat n)) (\<lambda>(bs, rb'). Inr (n, bs, rb')))"

fun rb_write_loop :: "ring_buffer \<Rightarrow> u8 list \<Rightarrow> ring_buffer res" where
  "rb_write_loop rb [] = Inr rb"
| "rb_write_loop rb (b # bs) = rbind (rb_write_byte rb b) (\<lambda>rb1. rb_write_loop rb1 bs)"

text \<open>\<open>bs\<close> are the \<open>n\<close> bytes at the caller's buffer.\<close>

definition rb_write :: "ring_buffer \<Rightarrow> u8 list \<Rightarrow> u32 \<Rightarrow> (u32 \<times> ring_buffer) res" where
  "rb_write rb bs n =
     (if n = 0 then Inr (0, rb)
      else rbind (rb_write_loop rb (take (unat n) bs)) (\<lambda>rb'. Inr (n, rb')))"

text \<open>The file operations of a pipe node ignore the offset.\<close>

definition rb_vfs_read :: "ring_buffer \<Rightarrow> u32 \<Rightarrow> u32 \<Rightarrow> (u32 \<times> u8 list \<times> ring_buffer) res" where
  "rb_vfs_read rb offset n = rb_read rb n"

definition rb_vfs_write :: "ring_buffer \<Rightarrow> u32 \<Rightarrow> u32 \<Rightarrow> u8 list \<Rightarrow> (u32 \<times> ring_buffer) res" where
  "rb_vfs_write rb offset n bs = rb_write rb bs n"

section \<open>The contract\<close>

text \<open>
  A bounded first-in first-out channel: \<open>contents\<close> abstracts the state to the queued items,
  \<open>cap\<close> bounds them. A read of an empty channel does not return.
\<close>

locale byte_fifo =
  fixes inv :: "'q \<Rightarrow> bool" and contents :: "'q \<Rightarrow> 'a list" and cap :: "'q \<Rightarrow> nat"
    and enq :: "'q \<Rightarrow> 'a \<Rightarrow> 'q res" and deq :: "'q \<Rightarrow> ('a \<times> 'q) res"
  assumes enq_ok: "inv q \<Longrightarrow> length (contents q) < cap q \<Longrightarrow>
      \<exists>q'. enq q x = Inr q' \<and> inv q' \<and> contents q' = contents q @ [x] \<and> cap q' = cap q"
    and deq_ok: "inv q \<Longrightarrow> contents q = x # xs \<Longrightarrow>
      \<exists>q'. deq q = Inr (x, q') \<and> inv q' \<and> contents q' = xs \<and> cap q' = cap q"
    and deq_empty: "inv q \<Longrightarrow> contents q = [] \<Longrightarrow> deq q = Inl Diverges"

text \<open>
  Runs of a channel: the writer (an interrupt handler or another task) and the reader take
  turns in any order, one byte at a time. The specification runs on the list of queued items;
  it is \<^term>\<open>None\<close> when a write would exceed the capacity or a read finds nothing.
\<close>

datatype 'a chan_op = Put 'a | Get

fun chan_run ::
    "('q \<Rightarrow> 'a \<Rightarrow> 'q res) \<Rightarrow> ('q \<Rightarrow> ('a \<times> 'q) res) \<Rightarrow> 'q \<Rightarrow> 'a chan_op list \<Rightarrow> ('a list \<times> 'q) res" where
  "chan_run e d q [] = Inr ([], q)"
| "chan_run e d q (Put x # ops) = rbind (e q x) (\<lambda>q1. chan_run e d q1 ops)"
| "chan_run e d q (Get # ops) =
     rbind (d q) (\<lambda>(x, q1). rbind (chan_run e d q1 ops) (\<lambda>(xs, q2). Inr (x # xs, q2)))"

fun chan_spec :: "nat \<Rightarrow> 'a list \<Rightarrow> 'a chan_op list \<Rightarrow> ('a list \<times> 'a list) option" where
  "chan_spec n c [] = Some ([], c)"
| "chan_spec n c (Put x # ops) = (if length c < n then chan_spec n (c @ [x]) ops else None)"
| "chan_spec n c (Get # ops) =
     (case c of [] \<Rightarrow> None
      | x # c' \<Rightarrow> map_option (\<lambda>(xs, c''). (x # xs, c'')) (chan_spec n c' ops))"

text \<open>What a run delivers and what it leaves queued is, in order, what was queued and written.\<close>

fun puts :: "'a chan_op list \<Rightarrow> 'a list" where
  "puts [] = []"
| "puts (Put x # ops) = x # puts ops"
| "puts (Get # ops) = puts ops"

lemma chan_spec_fifo: "chan_spec n c ops = Some (xs, c') \<Longrightarrow> xs @ c' = c @ puts ops"
  by (induction n c ops arbitrary: xs c' rule: chan_spec.induct)
    (auto split: if_splits list.splits)

context byte_fifo
begin

lemma run_refines:
  "inv q \<Longrightarrow> chan_spec (cap q) (contents q) ops = Some (xs, c') \<Longrightarrow>
     \<exists>q'. chan_run enq deq q ops = Inr (xs, q') \<and> inv q' \<and> contents q' = c' \<and> cap q' = cap q"
proof (induction ops arbitrary: q xs c')
  case (Cons op ops)
  show ?case
  proof (cases op)
    case (Put x)
    then obtain q1 where q1: "enq q x = Inr q1" "inv q1" "contents q1 = contents q @ [x]"
        "cap q1 = cap q"
      using enq_ok Cons.prems by (force split: if_splits)
    moreover have "chan_spec (cap q1) (contents q1) ops = Some (xs, c')"
      using Cons.prems q1 Put by (auto split: if_splits)
    ultimately show ?thesis using Cons.IH [of q1 xs c'] q1 Put by simp
  next
    case Get
    then obtain x c ys where c: "contents q = x # c" "chan_spec (cap q) c ops = Some (ys, c')"
        "xs = x # ys"
      using Cons.prems by (auto split: list.splits)
    obtain q1 where "deq q = Inr (x, q1)" "inv q1" "contents q1 = c" "cap q1 = cap q"
      using deq_ok [OF Cons.prems(1) c(1)] by blast
    then show ?thesis using Cons.IH [of q1 ys c'] c Get by force
  qed
qed auto

end

section \<open>The ring buffer provides it\<close>

definition rb_inv :: "ring_buffer \<Rightarrow> bool" where
  "rb_inv rb \<longleftrightarrow>
     (let n = unat (rb_size rb); r = unat (rb_read_index rb); v = unat (rb_valid rb)
      in 0 < n \<and> n \<le> 256 \<and> length (rb_buffer rb) = n \<and> r < n \<and> v \<le> n \<and>
         unat (rb_write_index rb) = (r + v) mod n)"

definition rb_contents :: "ring_buffer \<Rightarrow> u8 list" where
  "rb_contents rb =
     map (\<lambda>i. rb_buffer rb ! ((unat (rb_read_index rb) + i) mod unat (rb_size rb)))
       [0..<unat (rb_valid rb)]"

definition rb_cap :: "ring_buffer \<Rightarrow> nat" where
  "rb_cap rb = unat (rb_size rb)"

lemma length_rb_contents [simp]: "length (rb_contents rb) = unat (rb_valid rb)"
  by (simp add: rb_contents_def)

text \<open>The 8-bit increment followed by the 32-bit remainder is the increment modulo the size.\<close>

lemma step_index:
  fixes i :: u8 and n :: u32
  assumes "unat i < unat n" and "unat n \<le> 256"
  shows "unat (ucast (ucast (i + 1) mod n :: u32) :: u8) = (unat i + 1) mod unat n"
proof -
  have i: "unat i < 256" using unsigned_less [of i, where 'a = nat] by simp
  have c: "unat (ucast (i + 1) :: u32) = unat (i + 1)"
    using unsigned_less [of "i + 1", where 'a = nat]
    by (simp add: unsigned_ucast_eq take_bit_nat_eq_self)
  have "unat (i + 1) mod unat n = (unat i + 1) mod unat n"
  proof (cases "unat i + 1 < 256")
    case True
    then have "unat (i + 1) = unat i + 1" by (intro unat_Suc_less) simp
    then show ?thesis by simp
  next
    case False
    then have "unat i + 1 = 256" and "unat n = 256" using i assms by auto
    then have "unat (i + 1) = 0" by (simp add: unat_word_ariths)
    then show ?thesis using \<open>unat i + 1 = 256\<close> \<open>unat n = 256\<close> by simp
  qed
  then have m: "unat (ucast (i + 1) mod n :: u32) = (unat i + 1) mod unat n"
    by (simp add: unat_mod c)
  have "(unat i + 1) mod unat n < 256"
    using assms mod_less_divisor [of "unat n" "unat i + 1"] by linarith
  then show ?thesis
    using m by (simp add: unsigned_ucast_eq take_bit_nat_eq_self)
qed

lemma rb_write_byte_ok:
  assumes "rb_inv rb" and "length (rb_contents rb) < rb_cap rb"
  shows "\<exists>rb'. rb_write_byte rb b = Inr rb' \<and> rb_inv rb' \<and>
    rb_contents rb' = rb_contents rb @ [b] \<and> rb_cap rb' = rb_cap rb"
proof -
  define n r w v where "n = unat (rb_size rb)" and "r = unat (rb_read_index rb)"
    and "w = unat (rb_write_index rb)" and "v = unat (rb_valid rb)"
  have inv: "0 < n" "n \<le> 256" "length (rb_buffer rb) = n" "r < n" "v < n" "w = (r + v) mod n"
    using assms by (auto simp: rb_inv_def Let_def rb_cap_def n_def r_def w_def v_def)
  have w: "w < n" using inv by simp
  let ?w = "ucast (ucast (rb_write_index rb + 1) mod rb_size rb :: u32) :: u8"
  have w1: "unat ?w = (w + 1) mod n"
    unfolding w_def n_def by (rule step_index) (use w inv in \<open>auto simp: w_def n_def\<close>)
  have v1: "unat (rb_valid rb + 1) = v + 1"
    using unat_Suc_less [of "rb_valid rb"] inv unfolding v_def by simp
  have nz: "rb_size rb \<noteq> 0" using inv(1) by (auto simp: n_def)
  have le: "\<not> rb_valid rb + 1 > rb_size rb"
    using v1 inv by (simp add: word_less_nat_alt n_def)
  define rb' where "rb' = rb\<lparr>rb_buffer := (rb_buffer rb)[w := b], rb_write_index := ?w,
      rb_valid := rb_valid rb + 1\<rparr>"
  have run: "rb_write_byte rb b = Inr rb'"
    using w inv(3) nz le by (simp add: rb_write_byte_def rb'_def w_def [symmetric] Let_def)
  have "(w + 1) mod n = (r + (v + 1)) mod n"
    using inv(6) by (simp add: mod_simps)
  then have "rb_inv rb'"
    using inv w1 v1 by (simp add: rb_inv_def rb'_def n_def [symmetric] r_def [symmetric] Let_def)
  moreover have "rb_contents rb' = rb_contents rb @ [b]"
  proof -
    have "w \<noteq> (r + i) mod n" if "i < v" for i
    proof
      assume "w = (r + i) mod n"
      then show False using mod_shift_inj [of r i n v] that inv by simp
    qed
    then show ?thesis
      using v1 w inv(3) unfolding inv(6) [symmetric]
      by (auto simp: rb_contents_def rb'_def n_def [symmetric] r_def [symmetric]
        v_def [symmetric] nth_list_update inv(6) [symmetric])
  qed
  ultimately show ?thesis
    using run by (simp add: rb_cap_def rb'_def)
qed

lemma rb_read_byte_ok:
  assumes "rb_inv rb" and "rb_contents rb = x # xs"
  shows "\<exists>rb'. rb_read_byte rb = Inr (x, rb') \<and> rb_inv rb' \<and>
    rb_contents rb' = xs \<and> rb_cap rb' = rb_cap rb"
proof -
  define n r v where "n = unat (rb_size rb)" and "r = unat (rb_read_index rb)"
    and "v = unat (rb_valid rb)"
  have len: "v = Suc (length xs)"
    using assms(2) length_rb_contents [of rb] by (simp add: v_def)
  have inv: "0 < n" "n \<le> 256" "length (rb_buffer rb) = n" "r < n" "v \<le> n"
      "unat (rb_write_index rb) = (r + v) mod n"
    using assms by (auto simp: rb_inv_def Let_def n_def r_def v_def)
  let ?r = "ucast (ucast (rb_read_index rb + 1) mod rb_size rb :: u32) :: u8"
  have r1: "unat ?r = (r + 1) mod n"
    unfolding r_def n_def by (rule step_index) (use inv in \<open>auto simp: r_def n_def\<close>)
  have nz: "rb_size rb \<noteq> 0" using inv(1) by (auto simp: n_def)
  have vz: "rb_valid rb \<noteq> 0" using len by (auto simp: v_def)
  then have v1: "unat (rb_valid rb - 1) = v - 1"
    unfolding v_def by (metis One_nat_def Suc_leI neq0_conv unat_1 unat_eq_0 unat_sub word_le_nat_alt)
  have c: "rb_contents rb = map (\<lambda>i. rb_buffer rb ! ((r + i) mod n)) [0..<v]"
    by (simp add: rb_contents_def n_def r_def v_def)
  then have x: "x = rb_buffer rb ! r" and
    xs: "xs = map (\<lambda>i. rb_buffer rb ! ((r + i) mod n)) [1..<v]"
    using assms(2) inv(4) unfolding c by (auto simp: upt_conv_Cons len simp del: upt_Suc)
  define rb' where "rb' = rb\<lparr>rb_valid := rb_valid rb - 1, rb_read_index := ?r\<rparr>"
  have run: "rb_read_byte rb = Inr (x, rb')"
    using x vz nz inv(3,4) by (simp add: rb_read_byte_def rb'_def r_def [symmetric] Let_def)
  have "((r + 1) mod n + (v - 1)) mod n = (r + v) mod n"
    using len by (simp add: mod_simps)
  then have "rb_inv rb'"
    using inv r1 v1 by (simp add: rb_inv_def rb'_def n_def [symmetric] Let_def)
  moreover have "rb_contents rb' = xs"
  proof -
    have "rb_contents rb' = map (\<lambda>i. rb_buffer rb ! (((r + 1) mod n + i) mod n)) [0..<v - 1]"
      using r1 v1 by (simp add: rb_contents_def rb'_def n_def [symmetric])
    also have "\<dots> = xs"
      unfolding xs by (rule nth_equalityI) (auto simp: mod_simps)
    finally show ?thesis .
  qed
  ultimately show ?thesis
    using run by (simp add: rb_cap_def rb'_def)
qed

lemma rb_read_byte_empty: "rb_inv rb \<Longrightarrow> rb_contents rb = [] \<Longrightarrow> rb_read_byte rb = Inl Diverges"
  by (simp add: rb_contents_def rb_read_byte_def unat_eq_0)

interpretation rbq: byte_fifo rb_inv rb_contents rb_cap rb_write_byte rb_read_byte
  by unfold_locales (simp_all add: rb_write_byte_ok rb_read_byte_ok rb_read_byte_empty)

lemma make_rb_inv:
  assumes "0 < unat n" and "unat n \<le> 256"
  shows "rb_inv (make_rb g 0 n)" and "rb_contents (make_rb g 0 n) = []"
    and "rb_cap (make_rb g 0 n) = unat n"
  using assms by (simp_all add: rb_inv_def make_rb_def rb_contents_def rb_cap_def)

section \<open>Whole transfers\<close>

text \<open>The loops of \<^verbatim>\<open>rb_write\<close> and \<^verbatim>\<open>rb_read\<close> are runs of the channel.\<close>

lemma rb_write_loop_run:
  "rb_write_loop rb bs = rbind (chan_run rb_write_byte rb_read_byte rb (map Put bs)) (\<lambda>(_, q). Inr q)"
  by (induction bs arbitrary: rb) (simp_all add: rbind_assoc)

lemma rb_read_loop_run:
  "rb_read_loop rb n = chan_run rb_write_byte rb_read_byte rb (replicate n Get)"
  by (induction n arbitrary: rb) simp_all

lemma chan_spec_puts: "length c + length bs \<le> n \<Longrightarrow> chan_spec n c (map Put bs) = Some ([], c @ bs)"
  by (induction bs arbitrary: c) auto

lemma chan_spec_gets:
  "k \<le> length c \<Longrightarrow> chan_spec n c (replicate k Get) = Some (take k c, drop k c)"
  by (induction k arbitrary: c) (auto split: list.splits)

lemma rb_write_ok:
  assumes "rb_inv rb" and "length (rb_contents rb) + length bs \<le> rb_cap rb" and "unat n = length bs"
  shows "\<exists>rb'. rb_write rb bs n = Inr (n, rb') \<and> rb_inv rb' \<and>
    rb_contents rb' = rb_contents rb @ bs \<and> rb_cap rb' = rb_cap rb"
proof (cases "n = 0")
  case True
  then show ?thesis using assms by (simp add: rb_write_def)
next
  case False
  then show ?thesis
    using rbq.run_refines [OF assms(1) chan_spec_puts [OF assms(2)]] assms(3)
    by (auto simp: rb_write_def rb_write_loop_run)
qed

lemma rb_read_ok:
  assumes "rb_inv rb" and "unat n \<le> length (rb_contents rb)"
  shows "\<exists>rb'. rb_read rb n = Inr (n, take (unat n) (rb_contents rb), rb') \<and> rb_inv rb' \<and>
    rb_contents rb' = drop (unat n) (rb_contents rb) \<and> rb_cap rb' = rb_cap rb"
proof (cases "n = 0")
  case True
  then show ?thesis using assms by (simp add: rb_read_def)
next
  case False
  then show ?thesis
    using rbq.run_refines [OF assms(1) chan_spec_gets [OF assms(2)]]
    by (auto simp: rb_read_def rb_read_loop_run)
qed

section \<open>Properties\<close>



text \<open>
  Writing a block that fits and reading as many bytes as are then queued gives back what
  was queued followed by the block, and leaves the pipe empty.
\<close>

theorem pipe_write_read_roundtrip:
  assumes "rb_inv rb" and "length (rb_contents rb) + length bs \<le> rb_cap rb"
    and "unat n = length bs" and "unat k = length (rb_contents rb) + length bs"
  shows "\<exists>rb1 rb2. rb_vfs_write rb off n bs = Inr (n, rb1) \<and>
    rb_vfs_read rb1 off' k = Inr (k, rb_contents rb @ bs, rb2) \<and>
    rb_inv rb2 \<and> rb_contents rb2 = []"
proof -
  obtain rb1 where 1: "rb_write rb bs n = Inr (n, rb1)" "rb_inv rb1"
      "rb_contents rb1 = rb_contents rb @ bs"
    using rb_write_ok [OF assms(1-3)] by auto
  then show ?thesis
    using rb_read_ok [OF 1(2), of k] assms(4) by (auto simp: rb_vfs_write_def rb_vfs_read_def)
qed

theorem pipe_write_read_roundtrip_witness:
  "\<exists>rb1 rb2. rb_vfs_write (make_rb (\<lambda>_. 0) 0 4) 7 3 [1, 2, 3] = Inr (3, rb1) \<and>
    rb_vfs_read rb1 0 3 = Inr (3, rb_contents (make_rb (\<lambda>_. 0) 0 4) @ [1, 2, 3], rb2) \<and>
    rb_inv rb2 \<and> rb_contents rb2 = []"
  by (rule pipe_write_read_roundtrip) (simp_all add: make_rb_inv)

text \<open>
  A write into a full ring overwrites the oldest byte without advancing the read index:
  the next read returns the newest byte first, the order of the pipe is lost.
\<close>

theorem pipe_overflow_reorders:
  assumes "rb_inv rb" and "length (rb_contents rb) = rb_cap rb"
  shows "\<exists>rb1 rb2. rb_write_byte rb b = Inr rb1 \<and> rb_read_byte rb1 = Inr (b, rb2)"
proof -
  have 1: "rb_valid rb = rb_size rb" "rb_size rb \<noteq> 0" "rb_write_index rb = rb_read_index rb"
      "unat (rb_read_index rb) < length (rb_buffer rb)"
      "unat (rb_size rb) \<le> 256" 
    using assms by (auto simp: rb_inv_def rb_cap_def Let_def word_unat_eq_iff)
  have "unat (rb_size rb + 1) = unat (rb_size rb) + 1"
    using 1(5) by (intro unat_Suc_less) simp
  then have "rb_size rb + 1 > rb_size rb" by (simp add: word_less_nat_alt)
  then show ?thesis
    using 1 by (simp add: rb_write_byte_def rb_read_byte_def Let_def)
qed

theorem pipe_overflow_reorders_witness:
  "let rb = \<lparr>rb_buffer = [1, 2], rb_read_index = 0, rb_write_index = 0, rb_size = 2, rb_valid = 2\<rparr>
   in rb_contents rb = [1, 2] \<and>
     (\<exists>rb1 rb2. rb_write_byte rb 3 = Inr rb1 \<and> rb_read_byte rb1 = Inr (3, rb2))"
  unfolding Let_def
  by (intro conjI pipe_overflow_reorders)
    (simp_all add: rb_contents_def rb_inv_def rb_cap_def upt_rec)

end
