(* ===== verification/Pmm.thy ===== *)
theory Pmm
  imports Prelude
begin

text \<open>
  \<^verbatim>\<open>kernel/mem/pmm.c\<close>: the placement allocator and the bitmap of physical frames. The globals
  \<^verbatim>\<open>placement_addr\<close>, \<^verbatim>\<open>frames_bmp\<close> and \<^verbatim>\<open>memory_size\<close> are the record \<open>pmm\<close>. The bitmap is the
  array of the words that \<^verbatim>\<open>pmm_init\<close> allocates for it: an access past them is a fault. The locale
  \<open>frame_allocator\<close> is the contract the paging code relies on.
\<close>

section \<open>Placement allocation\<close>

definition pmalloc :: "u32 \<Rightarrow> u32 \<Rightarrow> u32 \<times> u32" where
  "pmalloc placement sz = (let p = placement + sz in (p - sz, p))"

definition page_align :: "u32 \<Rightarrow> u32 \<Rightarrow> u32" where
  "page_align placement align =
     (if align \<noteq> 0 \<and> placement AND 0xFFF \<noteq> 0 then (placement AND 0xFFFFF000) + 0x1000
      else placement)"

definition pmalloc_a :: "u32 \<Rightarrow> u32 \<Rightarrow> u32 \<Rightarrow> u32 \<times> u32" where
  "pmalloc_a placement sz align = pmalloc (page_align placement align) sz"

text \<open>The third component is what is stored through a non-null \<^verbatim>\<open>physical_addr\<close>.\<close>

definition pmalloc_ap :: "u32 \<Rightarrow> u32 \<Rightarrow> u32 \<Rightarrow> u32 \<Rightarrow> u32 \<times> u32 \<times> u32 option" where
  "pmalloc_ap placement sz align physical_addr =
     (let p = page_align placement align; (a, p') = pmalloc p sz
      in (a, p', if physical_addr \<noteq> 0 then Some p else None))"

section \<open>The frame bitmap\<close>

record pmm =
  pm_placement :: u32
  pm_frames :: "u32 list"
  pm_memory_size :: u64

definition frame_bmp_set :: "pmm \<Rightarrow> u32 \<Rightarrow> pmm res" where
  "frame_bmp_set pm addr =
     (let frame = unat (addr div 4096); k = frame div 32 in
      rbind (get_at (pm_frames pm) k) (\<lambda>w.
      rbind (put_at (pm_frames pm) k (w OR push_bit (frame mod 32) 1)) (\<lambda>fs.
      Inr (pm\<lparr>pm_frames := fs\<rparr>))))"

definition frame_bmp_reset :: "pmm \<Rightarrow> u32 \<Rightarrow> pmm res" where
  "frame_bmp_reset pm addr =
     (let frame = unat (addr div 4096); k = frame div 32 in
      rbind (get_at (pm_frames pm) k) (\<lambda>w.
      rbind (put_at (pm_frames pm) k (w AND NOT (push_bit (frame mod 32) 1))) (\<lambda>fs.
      Inr (pm\<lparr>pm_frames := fs\<rparr>))))"

definition frame_bmp_test :: "pmm \<Rightarrow> u32 \<Rightarrow> u32 res" where
  "frame_bmp_test pm addr =
     (let frame = unat (addr div 4096) in
      rbind (get_at (pm_frames pm) (frame div 32)) (\<lambda>w. Inr (w AND push_bit (frame mod 32) 1)))"

text \<open>The inner loop: the first clear bit from bit \<open>j\<close>, \<open>n\<close> bits to look at.\<close>

fun first_clear_bit :: "u32 \<Rightarrow> nat \<Rightarrow> nat \<Rightarrow> nat option" where
  "first_clear_bit w j 0 = None"
| "first_clear_bit w j (Suc n) =
     (if w AND push_bit j 1 \<noteq> 0 then first_clear_bit w (j + 1) n else Some j)"

text \<open>The outer loop: \<open>n\<close> words left from word \<open>i\<close>.\<close>

fun first_free_loop :: "u32 list \<Rightarrow> nat \<Rightarrow> nat \<Rightarrow> u32 res" where
  "first_free_loop fs i 0 = Inl (Panic ''No free frames !'')"
| "first_free_loop fs i (Suc n) =
     rbind (get_at fs i) (\<lambda>w.
       if w = 0xFFFFFFFF then first_free_loop fs (i + 1) n
       else case first_clear_bit w 0 32 of
         Some j \<Rightarrow> Inr (32 * of_nat i + of_nat j)
       | None \<Rightarrow> first_free_loop fs (i + 1) n)"

definition frame_bmp_get_first :: "pmm \<Rightarrow> u32 res" where
  "frame_bmp_get_first pm =
     first_free_loop (pm_frames pm) 0 (unat (pm_memory_size pm div 4096 div 32))"

definition frame_alloc :: "pmm \<Rightarrow> (u32 \<times> pmm) res" where
  "frame_alloc pm =
     rbind (frame_bmp_get_first pm) (\<lambda>ff.
     rbind (frame_bmp_set pm (ff * 0x1000)) (\<lambda>pm'. Inr (ff * 0x1000, pm')))"

definition frame_free :: "pmm \<Rightarrow> u32 \<Rightarrow> pmm res" where
  "frame_free pm addr = frame_bmp_reset pm addr"

definition pmm_available_memory :: "pmm \<Rightarrow> u32" where
  "pmm_available_memory pm = ucast (pm_memory_size pm div 1024)"

section \<open>Initialisation from the memory map\<close>

record mmap_entry =
  me_size :: u32
  me_addr_lo :: u32
  me_addr_hi :: u32
  me_len_lo :: u32
  me_len_hi :: u32
  me_type :: u32

definition mmap_entry_at :: "mem \<Rightarrow> u32 \<Rightarrow> mmap_entry" where
  "mmap_entry_at m a =
     \<lparr>me_size = ld32 m a, me_addr_lo = ld32 m (a + 4), me_addr_hi = ld32 m (a + 8),
      me_len_lo = ld32 m (a + 12), me_len_hi = ld32 m (a + 16), me_type = ld32 m (a + 20)\<rparr>"

text \<open>\<open>n\<close> consecutive frames marked from address \<open>a\<close>; the address wraps.\<close>

fun reserve_frames :: "pmm \<Rightarrow> u32 \<Rightarrow> nat \<Rightarrow> pmm res" where
  "reserve_frames pm a 0 = Inr pm"
| "reserve_frames pm a (Suc n) =
     rbind (frame_bmp_set pm a) (\<lambda>pm1. reserve_frames pm1 (a + 4096) n)"

definition scan_entry :: "pmm \<Rightarrow> mmap_entry \<Rightarrow> pmm res" where
  "scan_entry pm e =
     (if me_addr_hi e \<noteq> 0 then Inr pm
      else if me_type e = 1 then
        Inr (pm\<lparr>pm_memory_size := pm_memory_size pm + ucast (me_len_lo e)\<rparr>)
      else reserve_frames pm (me_addr_lo e) (unat (me_len_lo e div 4096)))"

text \<open>
  The first loop steps by the size of an entry; it also leaves the pointer \<^verbatim>\<open>mmap\<close> at the last
  entry it visited.
\<close>

partial_function (option) mmap_scan ::
    "mem \<Rightarrow> u32 \<Rightarrow> u32 \<Rightarrow> u32 \<Rightarrow> u32 \<Rightarrow> pmm \<Rightarrow> (u32 \<times> pmm) res option" where
  "mmap_scan m base len i mmap pm =
     (if i < len then
        (case scan_entry pm (mmap_entry_at m (base + i)) of
           Inl e \<Rightarrow> Some (Inl e)
         | Inr pm1 \<Rightarrow> mmap_scan m base len (i + 24) (base + i) pm1)
      else Some (Inr (mmap, pm)))"

text \<open>The last loop steps by the size the entries record.\<close>

partial_function (option) mmap_mark ::
    "mem \<Rightarrow> u32 \<Rightarrow> u32 \<Rightarrow> pmm \<Rightarrow> pmm res option" where
  "mmap_mark m end_addr mmap pm =
     (if mmap < end_addr then
        (let e = mmap_entry_at m mmap in
         if me_type e AND 1 = 0 then
           (case frame_bmp_set pm (me_addr_lo e) of
              Inl f \<Rightarrow> Some (Inl f)
            | Inr pm1 \<Rightarrow> mmap_mark m end_addr (mmap + me_size e + 4) pm1)
         else mmap_mark m end_addr (mmap + me_size e + 4) pm)
      else Some (Inr pm))"

text \<open>
  \<open>(0xffffffff / 4096) / 32 = 32767\<close> bytes are allocated for the bitmap, which is 8191 whole words;
  \<open>eok\<close> is the address of the symbol \<^verbatim>\<open>end_of_kernel\<close>, \<open>placement\<close> the placement address on entry.
\<close>

definition frames_words :: nat where
  "frames_words = 8191"

definition pmm_init :: "mem \<Rightarrow> u32 \<Rightarrow> u32 \<Rightarrow> u32 \<Rightarrow> u32 \<Rightarrow> pmm res" where
  "pmm_init m mmap_addr mmap_length eok placement =
     (let (_, placement') = pmalloc placement 32767;
          pm0 = \<lparr>pm_placement = placement', pm_frames = replicate frames_words 0,
                 pm_memory_size = 0\<rparr>
      in rbind (returned (mmap_scan m mmap_addr mmap_length 0 mmap_addr pm0)) (\<lambda>(mmap, pm1).
         rbind (reserve_frames pm1 (me_addr_lo (mmap_entry_at m mmap))
                  (unat ((eok - 1024 * 1024) div 4096))) (\<lambda>pm2.
         rbind (frame_alloc pm2) (\<lambda>(_, pm3).
         returned (mmap_mark m (mmap_addr + mmap_length) mmap_addr pm3)))))"

text \<open>The bitmap that \<^verbatim>\<open>pmm_init\<close> allocates ends below 1 GiB: marking a frame above is a wild write.\<close>

lemma frame_bmp_set_high:
  assumes "length (pm_frames pm) = frames_words" and "0x3FFE0000 \<le> unat addr"
  shows "frame_bmp_set pm addr = Inl Wild_access"
proof -
  have "frames_words \<le> unat (addr div 4096) div 32"
    using assms(2) by (simp add: unat_div frames_words_def)
  then show ?thesis
    using assms(1) by (simp add: frame_bmp_set_def get_at_wild Let_def)
qed

section \<open>The contract of a frame allocator\<close>

text \<open>
  \<open>used\<close> are the frame numbers handed out or reserved, \<open>limit\<close> bounds the frames that are managed.
  An allocation hands out the first free frame, by its address.
\<close>

locale frame_allocator =
  fixes inv :: "'s \<Rightarrow> bool" and used :: "'s \<Rightarrow> nat \<Rightarrow> bool" and limit :: "'s \<Rightarrow> nat"
    and alloc :: "'s \<Rightarrow> (u32 \<times> 's) res" and free :: "'s \<Rightarrow> u32 \<Rightarrow> 's res"
  assumes limit_ok: "inv s \<Longrightarrow> limit s * 4096 < 2 ^ 32"
    and alloc_first: "inv s \<Longrightarrow> f < limit s \<Longrightarrow> \<not> used s f \<Longrightarrow> \<forall>g<f. used s g \<Longrightarrow>
      \<exists>s'. alloc s = Inr (of_nat (f * 4096), s') \<and> inv s' \<and> limit s' = limit s \<and>
           (\<forall>g. used s' g \<longleftrightarrow> g = f \<or> used s g)"
    and alloc_full: "inv s \<Longrightarrow> \<forall>f<limit s. used s f \<Longrightarrow>
      alloc s = Inl (Panic ''No free frames !'')"
    and free_ok: "inv s \<Longrightarrow> f < limit s \<Longrightarrow>
      \<exists>s'. free s (of_nat (f * 4096)) = Inr s' \<and> inv s' \<and> limit s' = limit s \<and>
           (\<forall>g. used s' g \<longleftrightarrow> used s g \<and> g \<noteq> f)"

fun alloc_many :: "('s \<Rightarrow> (u32 \<times> 's) res) \<Rightarrow> nat \<Rightarrow> 's \<Rightarrow> (u32 list \<times> 's) res" where
  "alloc_many al 0 s = Inr ([], s)"
| "alloc_many al (Suc n) s =
     rbind (al s) (\<lambda>(a, s1). rbind (alloc_many al n s1) (\<lambda>(as, s2). Inr (a # as, s2)))"

context frame_allocator
begin

definition n_free :: "'s \<Rightarrow> nat" where
  "n_free s = card {f. f < limit s \<and> \<not> used s f}"

lemma alloc_ok:
  assumes "inv s" and "0 < n_free s"
  obtains f s' where "alloc s = Inr (of_nat (f * 4096), s')" and "f < limit s" and "\<not> used s f"
    and "\<forall>g<f. used s g" and "inv s'" and "limit s' = limit s"
    and "\<forall>g. used s' g \<longleftrightarrow> g = f \<or> used s g" and "n_free s = Suc (n_free s')"
proof -
  have ex: "\<exists>f. f < limit s \<and> \<not> used s f"
    using assms(2) by (auto simp: n_free_def card_gt_0_iff)
  define f where "f = (LEAST f. f < limit s \<and> \<not> used s f)"
  have f: "f < limit s" "\<not> used s f"
    using LeastI_ex [OF ex] by (auto simp: f_def)
  have first: "\<forall>g<f. used s g"
  proof (intro allI impI)
    fix g assume "g < f"
    then have "\<not> (g < limit s \<and> \<not> used s g)"
      unfolding f_def by (rule not_less_Least)
    then show "used s g" using \<open>g < f\<close> f(1) by auto
  qed
  obtain s' where s': "alloc s = Inr (of_nat (f * 4096), s')" "inv s'" "limit s' = limit s"
      "\<forall>g. used s' g \<longleftrightarrow> g = f \<or> used s g"
    using alloc_first [OF assms(1) f first] by blast
  have "{g. g < limit s \<and> \<not> used s g} = insert f {g. g < limit s' \<and> \<not> used s' g}"
    using f s'(3,4) by auto
  moreover have "f \<notin> {g. g < limit s' \<and> \<not> used s' g}"
    using s'(4) by auto
  ultimately have "n_free s = Suc (n_free s')"
    by (simp add: n_free_def)
  then show thesis
    by (rule that [OF s'(1) f first s'(2-4)])
qed

lemma alloc_many_ok:
  "inv s \<Longrightarrow> n \<le> n_free s \<Longrightarrow>
     \<exists>fs s'. alloc_many alloc n s = Inr (map (\<lambda>f. of_nat (f * 4096)) fs, s') \<and>
       length fs = n \<and> distinct fs \<and> (\<forall>f\<in>set fs. f < limit s \<and> \<not> used s f) \<and>
       inv s' \<and> limit s' = limit s \<and> (\<forall>g. used s' g \<longleftrightarrow> g \<in> set fs \<or> used s g)"
proof (induction n arbitrary: s)
  case (Suc n)
  then have "0 < n_free s" by simp
  then obtain f s1 where 1: "alloc s = Inr (of_nat (f * 4096), s1)" "f < limit s" "\<not> used s f"
      "\<forall>g<f. used s g" "inv s1" "limit s1 = limit s"
      "\<forall>g. used s1 g \<longleftrightarrow> g = f \<or> used s g" "n_free s = Suc (n_free s1)"
    by (rule alloc_ok [OF Suc.prems(1)])
  then have "n \<le> n_free s1" using Suc.prems(2) by simp
  then obtain fs s2 where "alloc_many alloc n s1 = Inr (map (\<lambda>f. of_nat (f * 4096)) fs, s2)"
      "length fs = n" "distinct fs" "\<forall>f\<in>set fs. f < limit s1 \<and> \<not> used s1 f"
      "inv s2" "limit s2 = limit s1" "\<forall>g. used s2 g \<longleftrightarrow> g \<in> set fs \<or> used s1 g"
    using Suc.IH [OF 1(5)] by blast
  then show ?case
    using 1 by (intro exI [of _ "f # fs"] exI [of _ s2]) auto
qed auto

lemma addr_inj:
  assumes "inv s" and "f < limit s" and "g < limit s"
    and "(of_nat (f * 4096) :: u32) = of_nat (g * 4096)"
  shows "f = g"
  using of_nat_word_inj [of "f * 4096" "g * 4096", where 'a = 32] assms limit_ok [OF assms(1)]
  by auto

lemma alloc_many_distinct:
  assumes "inv s" and "n \<le> n_free s"
  obtains as s' where "alloc_many alloc n s = Inr (as, s')" and "length as = n" and "distinct as"
    and "\<forall>a\<in>set as. \<exists>f<limit s. \<not> used s f \<and> a = of_nat (f * 4096)"
proof -
  obtain fs s' where fs: "alloc_many alloc n s = Inr (map (\<lambda>f. of_nat (f * 4096)) fs, s')"
      "length fs = n" "distinct fs" "\<forall>f\<in>set fs. f < limit s \<and> \<not> used s f"
    using alloc_many_ok [OF assms] by blast
  have "inj_on (\<lambda>f. of_nat (f * 4096) :: u32) (set fs)"
    using fs(4) addr_inj [OF assms(1)] by (auto simp: inj_on_def)
  then show thesis
    using that [OF fs(1)] fs by (auto simp: distinct_map)
qed

lemma free_alloc_again:
  assumes "inv s" and "f < limit s" and "\<forall>g<f. used s g"
  obtains s1 s2 where "free s (of_nat (f * 4096)) = Inr s1"
    and "alloc s1 = Inr (of_nat (f * 4096), s2)" and "\<forall>g. used s2 g \<longleftrightarrow> g = f \<or> used s g"
proof -
  obtain s1 where 1: "free s (of_nat (f * 4096)) = Inr s1" "inv s1" "limit s1 = limit s"
      "\<forall>g. used s1 g \<longleftrightarrow> used s g \<and> g \<noteq> f"
    using free_ok [OF assms(1,2)] by blast
  obtain s2 where "alloc s1 = Inr (of_nat (f * 4096), s2)" "\<forall>g. used s2 g \<longleftrightarrow> g = f \<or> used s1 g"
    using alloc_first [OF 1(2), of f] 1 assms(2,3) by auto
  then show thesis using that [OF 1(1)] 1(4) by auto
qed

end

section \<open>The bitmap provides it\<close>

definition frame_used :: "pmm \<Rightarrow> nat \<Rightarrow> bool" where
  "frame_used pm f = bit (pm_frames pm ! (f div 32)) (f mod 32)"

definition frame_limit :: "pmm \<Rightarrow> nat" where
  "frame_limit pm = 32 * unat (pm_memory_size pm div 4096 div 32)"

definition pmm_inv :: "pmm \<Rightarrow> bool" where
  "pmm_inv pm \<longleftrightarrow> frame_limit pm \<le> 32 * length (pm_frames pm) \<and> length (pm_frames pm) \<le> frames_words"

lemma bit_mask_test [simp]: "(w :: u32) AND 2 ^ j = 0 \<longleftrightarrow> \<not> (bit w j \<and> j < 32)"
proof -
  have "bit (w AND 2 ^ j) i \<longleftrightarrow> i = j \<and> bit w j \<and> j < 32" for i
    by (auto simp: bit_simps dest: bit_imp_le_length)
  then show ?thesis by (metis bit_eq_iff bit_0_eq bot_apply bot_bool_def)
qed

lemma first_clear_bit_Some:
  assumes "first_clear_bit w j n = Some k" and "j + n \<le> 32"
  shows "j \<le> k \<and> k < j + n \<and> \<not> bit w k \<and> (\<forall>i. j \<le> i \<and> i < k \<longrightarrow> bit w i)"
  using assms
proof (induction w j n rule: first_clear_bit.induct)
  case (2 w j n)
  show ?case
  proof (cases "bit w j")
    case True
    then have "j + 1 \<le> k \<and> k < j + 1 + n \<and> \<not> bit w k \<and> (\<forall>i. j + 1 \<le> i \<and> i < k \<longrightarrow> bit w i)"
      using 2 by simp
    then show ?thesis using True by (metis Suc_eq_plus1 Suc_leI add_Suc_right add_Suc_shift
      le_neq_implies_less less_or_eq_imp_le order.trans le_add1 add_leE)
  next
    case False
    then have "k = j" using 2 by (auto split: if_splits)
    then show ?thesis using False 2 by auto
  qed
qed simp

lemma first_clear_bit_None:
  "first_clear_bit w j n = None \<Longrightarrow> j + n \<le> 32 \<Longrightarrow> j \<le> i \<Longrightarrow> i < j + n \<Longrightarrow> bit w i"
proof (induction w j n rule: first_clear_bit.induct)
  case (2 w j n)
  then show ?case
    by (cases "i = j") (auto split: if_splits)
qed simp

lemma all_ones: "(w :: u32) = 0xFFFFFFFF \<longleftrightarrow> (\<forall>i<32. bit w i)"
proof -
  have "(0xFFFFFFFF :: u32) = mask 32" by (simp add: mask_eq_exp_minus_1)
  then show ?thesis
    by (auto simp: bit_eq_iff bit_simps)
qed

lemma first_free_loop_full:
  assumes "\<forall>k<n. i + k < length fs \<and> (\<forall>j<32. bit (fs ! (i + k)) j)"
  shows "first_free_loop fs i n = Inl (Panic ''No free frames !'')"
  using assms
proof (induction fs i n rule: first_free_loop.induct)
  case (2 fs i n)
  have "fs ! i = 0xFFFFFFFF" and "i < length fs" using 2(3) by (auto simp: all_ones)
  moreover have "\<forall>k<n. i + 1 + k < length fs \<and> (\<forall>j<32. bit (fs ! (i + 1 + k)) j)"
  proof (intro allI impI)
    fix k assume "k < n"
    then show "i + 1 + k < length fs \<and> (\<forall>j<32. bit (fs ! (i + 1 + k)) j)"
      using spec [OF 2(3), of "Suc k"] by simp
  qed
  ultimately show ?case using 2(1) by simp
qed simp

lemma first_free_loop_first:
  assumes "i \<le> k" and "k < i + n" and "i + n \<le> length fs" and "j < 32"
    and "\<not> bit (fs ! k) j" and "\<forall>j'<j. bit (fs ! k) j'"
    and "\<forall>k'. i \<le> k' \<and> k' < k \<longrightarrow> fs ! k' = 0xFFFFFFFF"
  shows "first_free_loop fs i n = Inr (32 * of_nat k + of_nat j)"
  using assms
proof (induction fs i n rule: first_free_loop.induct)
  case (2 fs i n)
  show ?case
  proof (cases "i = k")
    case True
    have ne: "fs ! i \<noteq> 0xFFFFFFFF" using 2 True by (auto simp: all_ones)
    have "first_clear_bit (fs ! i) 0 32 \<noteq> None"
      using first_clear_bit_None [of "fs ! i" 0 32 j] 2 True by auto
    then obtain l where l: "first_clear_bit (fs ! i) 0 32 = Some l" by blast
    have "\<not> bit (fs ! i) l" "\<forall>m<l. bit (fs ! i) m"
      using first_clear_bit_Some [OF l] by auto
    then have "l = j" using 2 True by (metis linorder_neqE_nat)
    then show ?thesis using ne l 2 True by simp
  next
    case False
    then have "fs ! i = 0xFFFFFFFF" using 2 by auto
    then show ?thesis using 2 False by auto
  qed
qed simp

lemma frame_bmp_set_ok:
  assumes "unat (addr div 4096) div 32 < length (pm_frames pm)"
  obtains pm' where "frame_bmp_set pm addr = Inr pm'"
    and "\<And>g. frame_used pm' g \<longleftrightarrow> g = unat (addr div 4096) \<or> frame_used pm g"
    and "length (pm_frames pm') = length (pm_frames pm)"
    and "pm_memory_size pm' = pm_memory_size pm" and "pm_placement pm' = pm_placement pm"
proof
  let ?f = "unat (addr div 4096)"
  let ?k = "?f div 32"
  let ?w = "pm_frames pm ! ?k OR push_bit (?f mod 32) 1"
  show "frame_bmp_set pm addr = Inr (pm\<lparr>pm_frames := (pm_frames pm)[?k := ?w]\<rparr>)"
    using assms by (simp add: frame_bmp_set_def Let_def)
  fix g
  have "g = ?f \<longleftrightarrow> g div 32 = ?k \<and> g mod 32 = ?f mod 32"
    by (metis div_mult_mod_eq)
  then show "frame_used (pm\<lparr>pm_frames := (pm_frames pm)[?k := ?w]\<rparr>) g \<longleftrightarrow>
      g = ?f \<or> frame_used pm g"
    using assms by (auto simp: frame_used_def nth_list_update bit_simps)
qed simp_all

lemma frame_bmp_reset_ok:
  assumes "unat (addr div 4096) div 32 < length (pm_frames pm)"
  obtains pm' where "frame_bmp_reset pm addr = Inr pm'"
    and "\<And>g. frame_used pm' g \<longleftrightarrow> frame_used pm g \<and> g \<noteq> unat (addr div 4096)"
    and "length (pm_frames pm') = length (pm_frames pm)"
    and "pm_memory_size pm' = pm_memory_size pm" and "pm_placement pm' = pm_placement pm"
proof
  let ?f = "unat (addr div 4096)"
  let ?k = "?f div 32"
  let ?w = "pm_frames pm ! ?k AND NOT (push_bit (?f mod 32) 1)"
  show "frame_bmp_reset pm addr = Inr (pm\<lparr>pm_frames := (pm_frames pm)[?k := ?w]\<rparr>)"
    using assms by (simp add: frame_bmp_reset_def Let_def)
  fix g
  have "g = ?f \<longleftrightarrow> g div 32 = ?k \<and> g mod 32 = ?f mod 32"
    by (metis div_mult_mod_eq)
  then show "frame_used (pm\<lparr>pm_frames := (pm_frames pm)[?k := ?w]\<rparr>) g \<longleftrightarrow>
      frame_used pm g \<and> g \<noteq> ?f"
    using assms by (auto simp: frame_used_def nth_list_update bit_simps dest: bit_imp_le_length)
qed simp_all

lemma frame_number: "f * 4096 < 2 ^ 32 \<Longrightarrow> unat (of_nat (f * 4096) div 4096 :: u32) = f"
  by (simp add: unat_div unat_of_nat_u32 del: of_nat_mult)

lemma frame_limit_bound:
  assumes "pmm_inv pm"
  shows "frame_limit pm * 4096 < 2 ^ 32" and "f < frame_limit pm \<Longrightarrow> f div 32 < length (pm_frames pm)"
  using assms by (auto simp: pmm_inv_def frames_words_def)

lemma frame_alloc_first:
  assumes inv: "pmm_inv pm" and f: "f < frame_limit pm" "\<not> frame_used pm f"
    and first: "\<forall>g<f. frame_used pm g"
  shows "\<exists>pm'. frame_alloc pm = Inr (of_nat (f * 4096), pm') \<and> pmm_inv pm' \<and>
    frame_limit pm' = frame_limit pm \<and> (\<forall>g. frame_used pm' g \<longleftrightarrow> g = f \<or> frame_used pm g)"
proof -
  let ?n = "unat (pm_memory_size pm div 4096 div 32)"
  have len: "?n \<le> length (pm_frames pm)" and n: "f div 32 < ?n"
    using inv f(1) by (auto simp: pmm_inv_def frame_limit_def)
  have f32: "f * 4096 < 2 ^ 32" using frame_limit_bound(1) [OF inv] f(1) by simp
  have "first_free_loop (pm_frames pm) 0 ?n = Inr (32 * of_nat (f div 32) + of_nat (f mod 32))"
  proof (rule first_free_loop_first)
    show "\<not> bit (pm_frames pm ! (f div 32)) (f mod 32)"
      using f(2) by (simp add: frame_used_def)
    show "\<forall>j'<f mod 32. bit (pm_frames pm ! (f div 32)) j'"
    proof (intro allI impI)
      fix j assume j: "j < f mod 32"
      then have "32 * (f div 32) + j < f"
        by (metis div_mult_mod_eq mult.commute nat_add_left_cancel_less)
      then have "frame_used pm (32 * (f div 32) + j)" using first by blast
      moreover have "j < 32" using j by (meson less_trans mod_less_divisor zero_less_numeral)
      ultimately show "bit (pm_frames pm ! (f div 32)) j"
        by (simp add: frame_used_def)
    qed
    show "\<forall>k'. 0 \<le> k' \<and> k' < f div 32 \<longrightarrow> pm_frames pm ! k' = 0xFFFFFFFF"
      unfolding all_ones
    proof (intro allI impI)
      fix k i :: nat assume "0 \<le> k \<and> k < f div 32" and "i < 32"
      then have "frame_used pm (32 * k + i)" using first by auto
      then show "bit (pm_frames pm ! k) i" using \<open>i < 32\<close> by (simp add: frame_used_def)
    qed
  qed (use len n in auto)
  also have "32 * of_nat (f div 32) + of_nat (f mod 32) = (of_nat f :: u32)"
    by (metis mult_div_mod_eq of_nat_add of_nat_mult of_nat_numeral)
  finally have get: "frame_bmp_get_first pm = Inr (of_nat f)"
    by (simp add: frame_bmp_get_first_def)
  have addr: "of_nat f * 4096 = (of_nat (f * 4096) :: u32)" by simp
  have fd: "unat (of_nat (f * 4096) div 4096 :: u32) = f" by (rule frame_number [OF f32])
  obtain pm' where "frame_bmp_set pm (of_nat (f * 4096)) = Inr pm'"
      "\<And>g. frame_used pm' g \<longleftrightarrow> g = f \<or> frame_used pm g"
      "length (pm_frames pm') = length (pm_frames pm)" "pm_memory_size pm' = pm_memory_size pm"
    using frame_bmp_set_ok [of "of_nat (f * 4096)" pm] fd frame_limit_bound(2) [OF inv f(1)]
    by metis
  then show ?thesis
    using get addr inv by (auto simp: frame_alloc_def pmm_inv_def frame_limit_def simp del: of_nat_mult)
qed

lemma frame_alloc_full:
  assumes "pmm_inv pm" and "\<forall>f<frame_limit pm. frame_used pm f"
  shows "frame_alloc pm = Inl (Panic ''No free frames !'')"
proof -
  let ?n = "unat (pm_memory_size pm div 4096 div 32)"
  have "\<forall>k<?n. 0 + k < length (pm_frames pm) \<and> (\<forall>j<32. bit (pm_frames pm ! (0 + k)) j)"
  proof (intro allI impI conjI)
    fix k j :: nat assume k: "k < ?n"
    then show "0 + k < length (pm_frames pm)"
      using assms(1) by (simp add: pmm_inv_def frame_limit_def)
    assume "j < 32"
    then have "32 * k + j < frame_limit pm" using k by (simp add: frame_limit_def)
    then have "frame_used pm (32 * k + j)" using assms(2) by blast
    then show "bit (pm_frames pm ! (0 + k)) j" using \<open>j < 32\<close> by (simp add: frame_used_def)
  qed
  then show ?thesis
    by (simp add: frame_alloc_def frame_bmp_get_first_def first_free_loop_full)
qed

lemma frame_free_ok:
  assumes inv: "pmm_inv pm" and f: "f < frame_limit pm"
  shows "\<exists>pm'. frame_free pm (of_nat (f * 4096)) = Inr pm' \<and> pmm_inv pm' \<and>
    frame_limit pm' = frame_limit pm \<and> (\<forall>g. frame_used pm' g \<longleftrightarrow> frame_used pm g \<and> g \<noteq> f)"
proof -
  have "f * 4096 < 2 ^ 32" using frame_limit_bound(1) [OF inv] f by simp
  then have fd: "unat (of_nat (f * 4096) div 4096 :: u32) = f" by (rule frame_number)
  obtain pm' where "frame_bmp_reset pm (of_nat (f * 4096)) = Inr pm'"
      "\<And>g. frame_used pm' g \<longleftrightarrow> frame_used pm g \<and> g \<noteq> f"
      "length (pm_frames pm') = length (pm_frames pm)" "pm_memory_size pm' = pm_memory_size pm"
    using frame_bmp_reset_ok [of "of_nat (f * 4096)" pm] fd frame_limit_bound(2) [OF inv f]
    by metis
  then show ?thesis
    using inv by (auto simp: frame_free_def pmm_inv_def frame_limit_def simp del: of_nat_mult)
qed

interpretation frames: frame_allocator pmm_inv frame_used frame_limit frame_alloc frame_free
  by unfold_locales
    (blast intro: frame_limit_bound(1) frame_alloc_first frame_alloc_full frame_free_ok)+

section \<open>What initialisation reserves\<close>

lemma frame_bmp_setE:
  assumes "frame_bmp_set pm a = Inr pm'"
  shows "\<And>g. frame_used pm' g \<longleftrightarrow> g = unat (a div 4096) \<or> frame_used pm g"
    and "length (pm_frames pm') = length (pm_frames pm)"
    and "pm_memory_size pm' = pm_memory_size pm"
proof -
  have "unat (a div 4096) div 32 < length (pm_frames pm)"
    using assms by (auto simp: frame_bmp_set_def Let_def rbind_eq_Inr get_at_eq_Inr)
  from frame_bmp_set_ok [OF this] assms
  show "\<And>g. frame_used pm' g \<longleftrightarrow> g = unat (a div 4096) \<or> frame_used pm g"
    and "length (pm_frames pm') = length (pm_frames pm)"
    and "pm_memory_size pm' = pm_memory_size pm"
    by (metis Inr_inject)+
qed

text \<open>\<open>pm_grows\<close>: the later state has the same bitmap size and every frame that was marked.\<close>

definition pm_grows :: "pmm \<Rightarrow> pmm \<Rightarrow> bool" where
  "pm_grows pm pm' \<longleftrightarrow> length (pm_frames pm') = length (pm_frames pm) \<and>
     (\<forall>g. frame_used pm g \<longrightarrow> frame_used pm' g)"

lemma pm_grows_refl [intro!]: "pm_grows pm pm"
  by (simp add: pm_grows_def)

lemma pm_grows_trans: "pm_grows p q \<Longrightarrow> pm_grows q r \<Longrightarrow> pm_grows p r"
  by (simp add: pm_grows_def)

lemma pm_growsD: "pm_grows p q \<Longrightarrow> frame_used p g \<Longrightarrow> frame_used q g"
  by (simp add: pm_grows_def)

lemma frame_bmp_set_grows: "frame_bmp_set pm a = Inr pm' \<Longrightarrow> pm_grows pm pm'"
  using frame_bmp_setE [of pm a pm'] by (simp add: pm_grows_def)

text \<open>Reserving marks exactly the frames of the range.\<close>

lemma reserve_frames_used:
  "reserve_frames pm a n = Inr pm' \<Longrightarrow> length (pm_frames pm') = length (pm_frames pm) \<and>
     pm_memory_size pm' = pm_memory_size pm \<and>
     (\<forall>g. frame_used pm' g \<longleftrightarrow>
        (\<exists>k<n. g = unat ((a + of_nat k * 4096) div 4096)) \<or> frame_used pm g)"
proof (induction n arbitrary: pm a)
  case (Suc n)
  then obtain pm1 where 1: "frame_bmp_set pm a = Inr pm1" "reserve_frames pm1 (a + 4096) n = Inr pm'"
    by auto
  have "(\<exists>k<Suc n. g = unat ((a + of_nat k * 4096) div 4096)) \<longleftrightarrow>
      g = unat (a div 4096) \<or> (\<exists>k<n. g = unat ((a + 4096 + of_nat k * 4096) div 4096))" for g
    by (subst Ex_less_Suc2) (simp add: algebra_simps)
  then show ?case
    using Suc.IH [OF 1(2)] frame_bmp_setE [OF 1(1)] by auto
qed auto

lemma reserve_frames_grows: "reserve_frames pm a n = Inr pm' \<Longrightarrow> pm_grows pm pm'"
  using reserve_frames_used [of pm a n pm'] by (simp add: pm_grows_def)

text \<open>The frames an entry of the memory map reserves.\<close>

definition entry_reserves :: "mmap_entry \<Rightarrow> nat \<Rightarrow> bool" where
  "entry_reserves e g \<longleftrightarrow> me_addr_hi e = 0 \<and> me_type e \<noteq> 1 \<and>
     (\<exists>k<unat (me_len_lo e div 4096). g = unat ((me_addr_lo e + of_nat k * 4096) div 4096))"

lemma scan_entry_grows:
  assumes "scan_entry pm e = Inr pm'"
  shows "pm_grows pm pm'" and "entry_reserves e g \<Longrightarrow> frame_used pm' g"
  using assms reserve_frames_used [of pm "me_addr_lo e" _ pm']
  by (auto simp: scan_entry_def entry_reserves_def pm_grows_def frame_used_def split: if_splits)

definition scan_marks :: "mem \<Rightarrow> u32 \<Rightarrow> u32 \<Rightarrow> u32 \<Rightarrow> pmm \<Rightarrow> bool" where
  "scan_marks m base len i pm' \<longleftrightarrow> (\<forall>k. unat i + 24 * k < unat len \<longrightarrow>
    (\<forall>g. entry_reserves (mmap_entry_at m (base + i + of_nat (24 * k))) g \<longrightarrow> frame_used pm' g))"

lemma mmap_scan_reserves_aux:
  assumes "mmap_scan m base len i mm pm = Some r"
  shows "\<forall>mm' pm'. r = Inr (mm', pm') \<longrightarrow> unat len + 24 \<le> 2 ^ 32 \<longrightarrow>
    pm_grows pm pm' \<and> scan_marks m base len i pm'"
proof (rule mmap_scan.raw_induct [where P = "\<lambda>m base len i mm pm r. \<forall>mm' pm'.
    r = Inr (mm', pm') \<longrightarrow> unat len + 24 \<le> 2 ^ 32 \<longrightarrow>
    pm_grows pm pm' \<and> scan_marks m base len i pm'", OF _ assms], goal_cases)
  case (1 f m base len i mm pm r)
  show ?case
  proof (intro allI impI)
    fix mm' pm' assume r: "r = Inr (mm', pm')" and len: "unat len + 24 \<le> (2::nat) ^ 32"
    show "pm_grows pm pm' \<and> scan_marks m base len i pm'"
    proof (cases "i < len")
      case False
      then show ?thesis using 1(2) r by (auto simp: word_less_nat_alt scan_marks_def)
    next
      case True
      then obtain pm1 where pm1: "scan_entry pm (mmap_entry_at m (base + i)) = Inr pm1"
          "f m base len (i + 24) (base + i) pm1 = Some r"
        using 1(2) r by (auto split: sum.splits)
      have ih: "pm_grows pm1 pm'" "\<And>k g. unat (i + 24) + 24 * k < unat len \<Longrightarrow>
          entry_reserves (mmap_entry_at m (base + (i + 24) + of_nat (24 * k))) g \<Longrightarrow> frame_used pm' g"
        using 1(1) [OF pm1(2)] r len by (auto simp: scan_marks_def)
      have i24: "unat (i + 24) = unat i + 24"
        using unat_add_of_nat [of i 24] True len by (simp add: word_less_nat_alt)
      have "frame_used pm' g" if "unat i + 24 * k < unat len"
        and "entry_reserves (mmap_entry_at m (base + i + of_nat (24 * k))) g" for k g
      proof (cases k)
        case 0
        then show ?thesis
          using that scan_entry_grows(2) [OF pm1(1)] pm_growsD [OF ih(1)] by simp
      next
        case (Suc k')
        then show ?thesis using that ih(2) [of k' g] i24 by (simp add: algebra_simps)
      qed
      then show ?thesis
        using pm_grows_trans [OF scan_entry_grows(1) [OF pm1(1)] ih(1)]
        by (auto simp: scan_marks_def)
    qed
  qed
qed

lemma mmap_mark_grows_aux:
  assumes "mmap_mark m e mm pm = Some r"
  shows "\<forall>pm'. r = Inr pm' \<longrightarrow> pm_grows pm pm'"
proof (rule mmap_mark.raw_induct [where P = "\<lambda>m e mm pm r. \<forall>pm'. r = Inr pm' \<longrightarrow> pm_grows pm pm'",
    OF _ assms], goal_cases)
  case (1 f m e mm pm r)
  then show ?case
    by (auto simp: Let_def split: if_splits sum.splits intro: pm_grows_trans [OF frame_bmp_set_grows])
qed

lemma mmap_mark_grows: "mmap_mark m e mm pm = Some (Inr pm') \<Longrightarrow> pm_grows pm pm'"
  using mmap_mark_grows_aux by blast

lemma frame_alloc_grows: "frame_alloc pm = Inr (a, pm') \<Longrightarrow> pm_grows pm pm'"
  by (auto simp: frame_alloc_def intro: frame_bmp_set_grows)

lemma returned_Inr: "returned r = Inr x \<longleftrightarrow> r = Some (Inr x)"
  by (simp add: returned_def split: option.splits)

section \<open>Properties\<close>

text \<open>
  C7. While \<open>n\<close> managed frames are free, \<open>n\<close> allocations succeed and hand out \<open>n\<close> different
  page-aligned addresses, each of a frame that was free.
\<close>

theorem frame_allocs_distinct:
  assumes "pmm_inv pm" and "n \<le> card {f. f < frame_limit pm \<and> \<not> frame_used pm f}"
  shows "\<exists>as pm'. alloc_many frame_alloc n pm = Inr (as, pm') \<and> length as = n \<and> distinct as \<and>
    (\<forall>a\<in>set as. \<exists>f<frame_limit pm. \<not> frame_used pm f \<and> a = of_nat (f * 4096))"
proof -
  obtain as pm' where "alloc_many frame_alloc n pm = Inr (as, pm')" "length as = n" "distinct as"
      "\<forall>a\<in>set as. \<exists>f<frame_limit pm. \<not> frame_used pm f \<and> a = of_nat (f * 4096)"
    by (rule frames.alloc_many_distinct [OF assms(1) assms(2) [folded frames.n_free_def]])
  then show ?thesis by blast
qed

definition demo_pmm :: pmm where
  "demo_pmm = \<lparr>pm_placement = 0, pm_frames = [0xFFFFFF87], pm_memory_size = 0x20000\<rparr>"

lemma demo_pmm_inv: "pmm_inv demo_pmm"
  by (simp add: pmm_inv_def demo_pmm_def frame_limit_def frames_words_def)

theorem frame_allocs_distinct_witness:
  "\<exists>as pm'. alloc_many frame_alloc 3 demo_pmm = Inr (as, pm') \<and> length as = 3 \<and> distinct as \<and>
    (\<forall>a\<in>set as. \<exists>f<frame_limit demo_pmm. \<not> frame_used demo_pmm f \<and> a = of_nat (f * 4096))"
proof (rule frame_allocs_distinct)
  have "{3, 4, 5 :: nat} \<subseteq> {f. f < frame_limit demo_pmm \<and> \<not> frame_used demo_pmm f}"
    by (simp add: frame_limit_def demo_pmm_def frame_used_def)
  then have "card {3, 4, 5 :: nat} \<le> card {f. f < frame_limit demo_pmm \<and> \<not> frame_used demo_pmm f}"
    by (intro card_mono) auto
  then show "3 \<le> card {f. f < frame_limit demo_pmm \<and> \<not> frame_used demo_pmm f}" by simp
qed (rule demo_pmm_inv)

text \<open>
  C8. Freeing a managed frame below which every frame is used makes the next allocation hand
  out the same address, and the two together leave that frame used and every other as it was.
\<close>

theorem frame_free_alloc:
  assumes "pmm_inv pm" and "f < frame_limit pm" and "\<forall>g<f. frame_used pm g"
  shows "\<exists>pm1 pm2. frame_free pm (of_nat (f * 4096)) = Inr pm1 \<and>
    frame_alloc pm1 = Inr (of_nat (f * 4096), pm2) \<and>
    (\<forall>g. frame_used pm2 g \<longleftrightarrow> g = f \<or> frame_used pm g)"
proof -
  obtain pm1 pm2 where "frame_free pm (of_nat (f * 4096)) = Inr pm1"
      "frame_alloc pm1 = Inr (of_nat (f * 4096), pm2)" "\<forall>g. frame_used pm2 g \<longleftrightarrow> g = f \<or> frame_used pm g"
    by (rule frames.free_alloc_again [OF assms])
  then show ?thesis by blast
qed

theorem frame_free_alloc_witness:
  "\<exists>pm1 pm2. frame_free demo_pmm (of_nat (2 * 4096)) = Inr pm1 \<and>
    frame_alloc pm1 = Inr (of_nat (2 * 4096), pm2) \<and>
    (\<forall>g. frame_used pm2 g \<longleftrightarrow> g = 2 \<or> frame_used demo_pmm g)"
proof (rule frame_free_alloc [OF demo_pmm_inv])
  show "2 < frame_limit demo_pmm" by (simp add: frame_limit_def demo_pmm_def)
  have "frame_used demo_pmm 0" "frame_used demo_pmm 1" by (simp_all add: demo_pmm_def frame_used_def)
  then show "\<forall>g<2. frame_used demo_pmm g" by (auto simp: less_Suc_eq numeral_2_eq_2)
qed


text \<open>A memory map of two entries: one reserved frame at 3 MiB, then 1 MiB available.\<close>

definition demo_map :: mem where
  "demo_map a = (if a = 0x1006 then 0x30 else if a = 0x100D then 0x10 else if a = 0x1014 then 2
     else if a = 0x1026 then 0x10 else if a = 0x102C then 1 else if a = 0x1000 \<or> a = 0x1018 then 20
     else 0)"

lemma demo_map_entries:
  "mmap_entry_at demo_map 0x1000 = \<lparr>me_size = 20, me_addr_lo = 0x300000, me_addr_hi = 0,
     me_len_lo = 0x1000, me_len_hi = 0, me_type = 2\<rparr>"
  "mmap_entry_at demo_map 0x1018 = \<lparr>me_size = 20, me_addr_lo = 0, me_addr_hi = 0,
     me_len_lo = 0x100000, me_len_hi = 0, me_type = 1\<rparr>"
  by (simp_all add: mmap_entry_at_def ld32_def demo_map_def)

text \<open>Unfolding the loops of the bitmap at numerals.\<close>

lemma loop_numerals:
  "first_clear_bit w j (numeral k) =
     (if w AND push_bit j 1 \<noteq> 0 then first_clear_bit w (j + 1) (pred_numeral k) else Some j)"
  "first_free_loop fs i (numeral k) = rbind (get_at fs i) (\<lambda>w.
     if w = 0xFFFFFFFF then first_free_loop fs (i + 1) (pred_numeral k)
     else case first_clear_bit w 0 32 of Some j \<Rightarrow> Inr (32 * of_nat i + of_nat j)
       | None \<Rightarrow> first_free_loop fs (i + 1) (pred_numeral k))"
  "reserve_frames pm a (numeral k) =
     rbind (frame_bmp_set pm a) (\<lambda>pm1. reserve_frames pm1 (a + 4096) (pred_numeral k))"
  by (simp_all add: numeral_eq_Suc)

lemma frames_words_bounds [simp]: "24 < frames_words" "0 < frames_words"
  by (simp_all add: frames_words_def)

lemma demo_map_scan:
  "mmap_scan demo_map 0x1000 48 0 0x1000 \<lparr>pm_placement = p, pm_frames = replicate frames_words 0,
     pm_memory_size = 0\<rparr> = Some (Inr (0x1018, \<lparr>pm_placement = p,
       pm_frames = (replicate frames_words 0)[24 := 1], pm_memory_size = 0x100000\<rparr>))"
  by (simp add: mmap_scan.simps demo_map_entries scan_entry_def frame_bmp_set_def)

lemma demo_map_mark:
  "mmap_mark demo_map 0x1030 0x1000 \<lparr>pm_placement = p,
     pm_frames = (replicate frames_words 0)[24 := 1, 0 := 7], pm_memory_size = sz\<rparr> =
   Some (Inr \<lparr>pm_placement = p, pm_frames = (replicate frames_words 0)[24 := 1, 0 := 7],
     pm_memory_size = sz\<rparr>)"
  by (simp add: mmap_mark.simps demo_map_entries frame_bmp_set_def Let_def list_update_swap)

lemma demo_map_init:
  "pmm_init demo_map 0x1000 48 0x102000 0x200000 = Inr
     \<lparr>pm_placement = 0x207FFF, pm_frames = (replicate frames_words 0)[24 := 1, 0 := 7],
      pm_memory_size = 0x100000\<rparr>"
proof -
  have "reserve_frames \<lparr>pm_placement = 0x207FFF, pm_frames = (replicate frames_words 0)[24 := 1],
      pm_memory_size = 0x100000\<rparr> 0 2 = Inr \<lparr>pm_placement = 0x207FFF,
      pm_frames = (replicate frames_words 0)[24 := 1, 0 := 3], pm_memory_size = 0x100000\<rparr>"
    by (simp add: loop_numerals frame_bmp_set_def)
  moreover have "frame_alloc \<lparr>pm_placement = 0x207FFF,
      pm_frames = (replicate frames_words 0)[24 := 1, 0 := 3], pm_memory_size = 0x100000\<rparr> =
      Inr (0x2000, \<lparr>pm_placement = 0x207FFF,
      pm_frames = (replicate frames_words 0)[24 := 1, 0 := 7], pm_memory_size = 0x100000\<rparr>)"
    by (simp add: loop_numerals frame_bmp_set_def frame_alloc_def frame_bmp_get_first_def)
  ultimately show ?thesis
    by (simp add: pmm_init_def pmalloc_def demo_map_scan demo_map_mark demo_map_entries)
qed


end
