(* ===== verification/Heap.thy ===== *)
theory Heap
  imports Libk_String Pmm
begin

text \<open>
  \<^verbatim>\<open>kernel/mem/heap.c\<close>: the kernel heap, a list of free blocks and a list of allocated blocks, both
  doubly linked, whose nodes come from the placement allocator. The nodes are a typed store; the
  state also holds the placement address, which the nodes move. The lists are related to lists of
  (address, size) pairs by \<open>dll\<close>.
\<close>

section \<open>State\<close>

record ll_node =
  ll_addr :: u32
  ll_size :: u32
  ll_prev :: u32
  ll_next :: u32

record heap =
  hp_start :: u32
  hp_size :: u32
  hp_max_size :: u32
  hp_usr :: u8
  hp_free :: u32
  hp_alloc :: u32
  hp_nodes :: "u32 \<Rightarrow> ll_node option"
  hp_placement :: u32

text \<open>\<open>sizeof(heap_t) = 24\<close> and \<open>sizeof(free_ll_t) = 16\<close>.\<close>

definition heap_create :: "(u32 \<Rightarrow> ll_node option) \<Rightarrow> u32 \<Rightarrow> u32 \<Rightarrow> u32 \<Rightarrow> u32 \<Rightarrow> u8 \<Rightarrow> heap" where
  "heap_create nodes placement start sz max_size usr =
     (let (_, p1) = pmalloc placement 24; (f, p2) = pmalloc p1 16
      in \<lparr>hp_start = start, hp_size = sz, hp_max_size = max_size, hp_usr = usr, hp_free = f,
          hp_alloc = 0,
          hp_nodes = nodes(f \<mapsto> \<lparr>ll_addr = start, ll_size = sz, ll_prev = 0, ll_next = 0\<rparr>),
          hp_placement = p2\<rparr>)"

text \<open>Writing a field through a pointer.\<close>

definition upd_node :: "heap \<Rightarrow> u32 \<Rightarrow> (ll_node \<Rightarrow> ll_node) \<Rightarrow> heap res" where
  "upd_node h p f = rbind (deref (hp_nodes h) p) (\<lambda>n. Inr (h\<lparr>hp_nodes := (hp_nodes h)(p \<mapsto> f n)\<rparr>))"

definition new_node :: "heap \<Rightarrow> ll_node \<Rightarrow> u32 \<times> heap" where
  "new_node h n = (let (p, p') = pmalloc (hp_placement h) 16
     in (p, h\<lparr>hp_nodes := (hp_nodes h)(p \<mapsto> n), hp_placement := p'\<rparr>))"

section \<open>The list of allocated blocks\<close>

partial_function (option) ll_last :: "(u32 \<Rightarrow> ll_node option) \<Rightarrow> u32 \<Rightarrow> u32 res option" where
  "ll_last nodes p = (case deref nodes p of Inl e \<Rightarrow> Some (Inl e)
     | Inr n \<Rightarrow> if ll_next n \<noteq> 0 then ll_last nodes (ll_next n) else Some (Inr p))"

definition heap_save_allocated_block :: "heap \<Rightarrow> u32 \<Rightarrow> u32 \<Rightarrow> heap res" where
  "heap_save_allocated_block h addr sz =
     (if hp_alloc h = 0 then
        (let (p, h1) = new_node h \<lparr>ll_addr = addr, ll_size = sz, ll_prev = 0, ll_next = 0\<rparr>
         in Inr (h1\<lparr>hp_alloc := p\<rparr>))
      else
        rbind (returned (ll_last (hp_nodes h) (hp_alloc h))) (\<lambda>l.
          let (p, h1) = new_node h \<lparr>ll_addr = addr, ll_size = sz, ll_prev = l, ll_next = 0\<rparr>
          in upd_node h1 l (\<lambda>n. n\<lparr>ll_next := p\<rparr>)))"

partial_function (option) ll_find ::
    "(u32 \<Rightarrow> ll_node option) \<Rightarrow> u32 \<Rightarrow> u32 \<Rightarrow> (u32 \<times> ll_node) res option" where
  "ll_find nodes addr p = (case deref nodes p of Inl e \<Rightarrow> Some (Inl e)
     | Inr n \<Rightarrow> if ll_addr n \<noteq> addr \<and> ll_next n \<noteq> 0 then ll_find nodes addr (ll_next n)
              else Some (Inr (p, n)))"

definition heap_forget_allocated_block :: "heap \<Rightarrow> u32 \<Rightarrow> (u32 \<times> heap) res" where
  "heap_forget_allocated_block h addr =
     rbind (returned (ll_find (hp_nodes h) addr (hp_alloc h))) (\<lambda>(p, n).
       if ll_addr n \<noteq> addr then Inr (- 1, h)
       else rbind (upd_node h (ll_next n) (\<lambda>x. x\<lparr>ll_prev := ll_prev n\<rparr>)) (\<lambda>h1.
            rbind (deref (hp_nodes h1) p) (\<lambda>n1.
            rbind (upd_node h1 (ll_prev n1) (\<lambda>x. x\<lparr>ll_next := ll_next n1\<rparr>)) (\<lambda>h2.
            rbind (deref (hp_nodes h2) p) (\<lambda>n2. Inr (ll_size n2, h2))))))"

section \<open>Allocation\<close>

text \<open>The pointer to the first free block that is large enough, or the null pointer.\<close>

partial_function (option) first_fit_loop ::
    "(u32 \<Rightarrow> ll_node option) \<Rightarrow> u32 \<Rightarrow> u32 \<Rightarrow> u32 res option" where
  "first_fit_loop nodes sz p =
     (if p = 0 then Some (Inr 0)
      else case deref nodes p of Inl e \<Rightarrow> Some (Inl e)
        | Inr n \<Rightarrow> if ll_size n < sz then
                     (if ll_next n = 0 then Some (Inr 0) else first_fit_loop nodes sz (ll_next n))
                   else Some (Inr p))"

definition heap_first_fit :: "heap \<Rightarrow> u32 \<Rightarrow> u32 res" where
  "heap_first_fit h sz = returned (first_fit_loop (hp_nodes h) sz (hp_free h))"

definition heap_alloc :: "heap \<Rightarrow> u32 \<Rightarrow> (u32 \<times> heap) res" where
  "heap_alloc h sz =
     rbind (heap_first_fit h sz) (\<lambda>f.
       if f = 0 then Inr (0, h)
       else
         rbind (deref (hp_nodes h) f) (\<lambda>n0. let addr = ll_addr n0 in
         rbind (heap_save_allocated_block h addr sz) (\<lambda>h1.
         rbind (deref (hp_nodes h1) f) (\<lambda>n.
           if sz < ll_size n then
             rbind (upd_node h1 f (\<lambda>x. x\<lparr>ll_addr := ll_addr x + sz, ll_size := ll_size x - sz\<rparr>))
               (\<lambda>h2. Inr (addr, h2))
           else
             rbind (if ll_prev n \<noteq> 0
                    then upd_node h1 (ll_prev n) (\<lambda>x. x\<lparr>ll_next := ll_next n\<rparr>)
                    else Inr (h1\<lparr>hp_free := ll_next n\<rparr>)) (\<lambda>h2.
             rbind (deref (hp_nodes h2) f) (\<lambda>n2.
             rbind (if ll_next n2 \<noteq> 0
                    then upd_node h2 (ll_next n2) (\<lambda>x. x\<lparr>ll_prev := ll_prev n2\<rparr>)
                    else Inr h2) (\<lambda>h3.
             Inr (addr, h3))))))))"

section \<open>Release\<close>

partial_function (option) free_spot ::
    "(u32 \<Rightarrow> ll_node option) \<Rightarrow> u32 \<Rightarrow> u32 \<Rightarrow> u32 res option" where
  "free_spot nodes ptr p = (case deref nodes p of Inl e \<Rightarrow> Some (Inl e)
     | Inr n \<Rightarrow> if ptr > ll_addr n then free_spot nodes ptr (ll_next n) else Some (Inr p))"

text \<open>The node of the released block \<open>q\<close> is linked in before \<open>f\<close>, then merged with both neighbours;
  its fields are written before they are read, so what the fresh memory held does not matter.\<close>

definition merge_next :: "heap \<Rightarrow> u32 \<Rightarrow> heap res" where
  "merge_next h q =
     rbind (deref (hp_nodes h) q) (\<lambda>n.
     rbind (deref (hp_nodes h) (ll_next n)) (\<lambda>nx.
       if ll_addr n + ll_size n = ll_addr nx then
         rbind (upd_node h q (\<lambda>x. x\<lparr>ll_size := ll_size x + ll_size nx\<rparr>)) (\<lambda>h1.
         rbind (deref (hp_nodes h1) (ll_next n)) (\<lambda>nx1.
           upd_node h1 q (\<lambda>x. x\<lparr>ll_next := ll_next nx1\<rparr>)))
       else Inr h))"

definition merge_prev :: "heap \<Rightarrow> u32 \<Rightarrow> heap res" where
  "merge_prev h q =
     rbind (deref (hp_nodes h) q) (\<lambda>n.
     rbind (deref (hp_nodes h) (ll_prev n)) (\<lambda>pv.
       if ll_addr pv + ll_size pv = ll_addr n then
         rbind (upd_node h (ll_prev n) (\<lambda>x. x\<lparr>ll_size := ll_size x + ll_size n\<rparr>)) (\<lambda>h1.
         rbind (deref (hp_nodes h1) q) (\<lambda>n1.
           upd_node h1 (ll_prev n1) (\<lambda>x. x\<lparr>ll_next := ll_next n1\<rparr>)))
       else Inr h))"

definition heap_free :: "heap \<Rightarrow> u32 \<Rightarrow> heap res" where
  "heap_free h ptr =
     rbind (returned (free_spot (hp_nodes h) ptr (hp_free h))) (\<lambda>f.
       let (q, h1) = new_node h \<lparr>ll_addr = ptr, ll_size = 0, ll_prev = 0, ll_next = 0\<rparr> in
       rbind (heap_forget_allocated_block h1 ptr) (\<lambda>(sz, h2).
       rbind (deref (hp_nodes h2) f) (\<lambda>fn.
       rbind (upd_node h2 q (\<lambda>x. x\<lparr>ll_size := sz, ll_next := f, ll_prev := ll_prev fn\<rparr>)) (\<lambda>h3.
       rbind (if ll_prev fn \<noteq> 0
              then upd_node h3 (ll_prev fn) (\<lambda>x. x\<lparr>ll_next := q\<rparr>)
              else Inr (h3\<lparr>hp_free := q\<rparr>)) (\<lambda>h4.
       rbind (upd_node h4 f (\<lambda>x. x\<lparr>ll_prev := q\<rparr>)) (\<lambda>h5.
       rbind (merge_next h5 q) (\<lambda>h6. merge_prev h6 q)))))))"

definition kmalloc :: "heap \<Rightarrow> u32 \<Rightarrow> (u32 \<times> heap) res" where
  "kmalloc kheap sz = heap_alloc kheap sz"

definition kfree :: "heap \<Rightarrow> u32 \<Rightarrow> heap res" where
  "kfree kheap ptr = heap_free kheap ptr"

definition krealloc :: "mem \<Rightarrow> heap \<Rightarrow> u32 \<Rightarrow> u32 \<Rightarrow> (u32 \<times> mem \<times> heap) res" where
  "krealloc m kheap ptr new_size =
     (if ptr = 0 then Inr (0, m, kheap)
      else rbind (kmalloc kheap new_size) (\<lambda>(new_ptr, h1).
        if new_ptr = 0 then Inr (0, m, h1)
        else rbind (kfree h1 ptr) (\<lambda>h2. Inr (new_ptr, snd (memcpy m new_ptr ptr new_size), h2))))"

section \<open>Doubly linked segments\<close>

text \<open>
  \<open>seg ns pr bs nx\<close>: the nodes \<open>bs\<close>, each a pointer with the address and the size it holds, are
  linked one after the other, the first one's previous pointer is \<open>pr\<close> and the last one's next
  pointer is \<open>nx\<close>.
\<close>

type_synonym block = "u32 \<times> u32"

definition first_ptr :: "(u32 \<times> block) list \<Rightarrow> u32 \<Rightarrow> u32" where
  "first_ptr bs nx = (case bs of [] \<Rightarrow> nx | b # _ \<Rightarrow> fst b)"

fun last_ptr :: "u32 \<Rightarrow> (u32 \<times> block) list \<Rightarrow> u32" where
  "last_ptr pr [] = pr"
| "last_ptr pr (b # bs) = last_ptr (fst b) bs"

fun seg :: "(u32 \<Rightarrow> ll_node option) \<Rightarrow> u32 \<Rightarrow> (u32 \<times> block) list \<Rightarrow> u32 \<Rightarrow> bool" where
  "seg ns pr [] nx \<longleftrightarrow> True"
| "seg ns pr ((q, a, s) # bs) nx \<longleftrightarrow> q \<noteq> 0 \<and>
     ns q = Some \<lparr>ll_addr = a, ll_size = s, ll_prev = pr, ll_next = first_ptr bs nx\<rparr> \<and>
     seg ns q bs nx"

lemma first_ptr_simps [simp]: "first_ptr [] nx = nx" "first_ptr (b # bs) nx = fst b"
  by (simp_all add: first_ptr_def)

lemma first_ptr_append [simp]: "first_ptr (xs @ ys) nx = first_ptr xs (first_ptr ys nx)"
  by (cases xs) simp_all

lemma last_ptr_append [simp]: "last_ptr pr (xs @ ys) = last_ptr (last_ptr pr xs) ys"
  by (induction xs arbitrary: pr) simp_all

lemma seg_append [simp]:
  "seg ns pr (xs @ ys) nx \<longleftrightarrow> seg ns pr xs (first_ptr ys nx) \<and> seg ns (last_ptr pr xs) ys nx"
  by (induction ns pr xs nx rule: seg.induct) simp_all

lemma seg_frame [simp]: "q \<notin> fst ` set bs \<Longrightarrow> seg (ns(q \<mapsto> x)) pr bs nx \<longleftrightarrow> seg ns pr bs nx"
  by (induction ns pr bs nx rule: seg.induct) auto

lemma seg_nonzero: "seg ns pr bs nx \<Longrightarrow> b \<in> set bs \<Longrightarrow> fst b \<noteq> 0"
  by (induction bs arbitrary: pr) auto

lemma last_ptr_in: "bs \<noteq> [] \<Longrightarrow> last_ptr pr bs \<in> fst ` set bs"
proof (induction bs arbitrary: pr)
  case (Cons b bs)
  then show ?case by (cases "bs = []") auto
qed simp

lemma last_ptr_nonzero: "seg ns 0 bs nx \<Longrightarrow> last_ptr 0 bs \<noteq> 0 \<longleftrightarrow> bs \<noteq> []"
  using last_ptr_in [of bs 0] seg_nonzero by fastforce

lemma first_ptr_nonzero: "seg ns pr bs 0 \<Longrightarrow> first_ptr bs 0 \<noteq> 0 \<longleftrightarrow> bs \<noteq> []"
  by (cases bs) auto

text \<open>Writing the next pointer of the last node, the previous pointer of the first.\<close>

lemma seg_set_next:
  assumes "seg ns pr bs nx" and "distinct (map fst bs)" and "bs \<noteq> []"
  obtains n where "ns (last_ptr pr bs) = Some n" and "ll_next n = nx"
    and "seg (ns(last_ptr pr bs \<mapsto> n\<lparr>ll_next := nx'\<rparr>)) pr bs nx'"
proof -
  obtain xs q a s where bs: "bs = xs @ [(q, a, s)]"
    using assms(3) by (metis append_butlast_last_id prod_cases3)
  then show thesis
    using that assms(1,2) by auto
qed

lemma seg_set_prev:
  assumes "seg ns pr bs nx" and "distinct (map fst bs)" and "bs \<noteq> []"
  obtains n where "ns (first_ptr bs 0) = Some n"
    and "seg (ns(first_ptr bs 0 \<mapsto> n\<lparr>ll_prev := pr'\<rparr>)) pr' bs nx"
proof -
  obtain q a s xs where bs: "bs = (q, a, s) # xs"
    using assms(3) by (metis neq_Nil_conv prod_cases3)
  then show thesis
    using that assms(1,2) by auto
qed

section \<open>The loops over segments\<close>

lemma ll_last_seg: "seg ns pr bs 0 \<Longrightarrow> bs \<noteq> [] \<Longrightarrow> ll_last ns (first_ptr bs 0) = Some (Inr (last_ptr pr bs))"
proof (induction bs arbitrary: pr)
  case (Cons b bs)
  obtain q a s where b: "b = (q, a, s)" by (cases b)
  then show ?case
    using Cons first_ptr_nonzero [of ns q bs]
    by (cases "bs = []") (auto simp: ll_last.simps [of ns q])
qed simp

lemma fit_cases:
  obtains (none) "\<forall>b\<in>set fs. snd (snd b) < (sz :: u32)"
  | (some) xs q a s ys where "fs = xs @ (q, a, s) # ys" and "\<forall>b\<in>set xs. snd (snd b) < sz"
      and "\<not> s < sz"
proof (cases "\<forall>b\<in>set fs. snd (snd b) < sz")
  case False
  then obtain xs b ys where "fs = xs @ b # ys" "\<not> snd (snd b) < sz" "\<forall>c\<in>set xs. \<not> \<not> snd (snd c) < sz"
    using split_list_first_prop [of fs "\<lambda>b. \<not> snd (snd b) < sz"] by auto
  then show thesis
    using some by (cases b) auto
qed (rule none)

lemma first_fit_none:
  "seg ns pr fs 0 \<Longrightarrow> \<forall>b\<in>set fs. snd (snd b) < sz \<Longrightarrow>
     first_fit_loop ns sz (first_ptr fs 0) = Some (Inr 0)"
proof (induction fs arbitrary: pr)
  case (Cons b bs)
  obtain q a s where b: "b = (q, a, s)" by (cases b)
  then show ?case
    using Cons first_ptr_nonzero [of ns q bs]
    by (cases "bs = []") (auto simp: first_fit_loop.simps [of ns sz q])
qed (simp add: first_fit_loop.simps)

lemma first_fit_some:
  "seg ns pr (xs @ (q, a, s) # ys) 0 \<Longrightarrow> \<forall>b\<in>set xs. snd (snd b) < sz \<Longrightarrow> \<not> s < sz \<Longrightarrow>
     first_fit_loop ns sz (first_ptr xs q) = Some (Inr q)"
proof (induction xs arbitrary: pr)
  case (Cons b bs)
  obtain q' a' s' where b: "b = (q', a', s')" by (cases b)
  have "seg ns q' (bs @ (q, a, s) # ys) 0" using Cons.prems b by simp
  then show ?case
    using Cons b first_ptr_nonzero [of ns q' "bs @ (q, a, s) # ys"]
    by (auto simp: first_fit_loop.simps [of ns sz q'])
qed (simp add: first_fit_loop.simps)

lemma ll_find_seg:
  assumes "seg ns pr bs 0" and "bs \<noteq> []"
  shows "\<exists>xs q a s ys. bs = xs @ (q, a, s) # ys \<and>
    ll_find ns addr (first_ptr bs 0) = Some (Inr (q, \<lparr>ll_addr = a, ll_size = s,
      ll_prev = last_ptr pr xs, ll_next = first_ptr ys 0\<rparr>))"
  using assms
proof (induction bs arbitrary: pr)
  case (Cons b bs)
  obtain q a s where b: "b = (q, a, s)" by (cases b)
  show ?case
  proof (cases "a \<noteq> addr \<and> bs \<noteq> []")
    case True
    then have "seg ns q bs 0" and "bs \<noteq> []" using Cons.prems b by auto
    from Cons.IH [OF this] obtain xs q' a' s' ys where ih: "bs = xs @ (q', a', s') # ys"
        "ll_find ns addr (first_ptr bs 0) = Some (Inr (q', \<lparr>ll_addr = a', ll_size = s',
           ll_prev = last_ptr q xs, ll_next = first_ptr ys 0\<rparr>))"
      by blast
    have "ll_find ns addr (first_ptr (b # bs) 0) = ll_find ns addr (first_ptr bs 0)"
      using Cons.prems b True first_ptr_nonzero [of ns q bs] by (simp add: ll_find.simps [of ns addr q])
    then show ?thesis
      using ih b by (intro exI [of _ "b # xs"]) auto
  next
    case False
    then show ?thesis
      using Cons.prems b first_ptr_nonzero [of ns q bs]
      by (intro exI [of _ "[]"] exI [of _ q] exI [of _ a] exI [of _ s] exI [of _ bs])
        (auto simp: ll_find.simps [of ns addr q])
  qed
qed simp

section \<open>Abstract heaps\<close>

text \<open>
  \<open>fs\<close> are the free and \<open>al\<close> the allocated blocks with their nodes; every node lies below the
  placement address, so a new node is different from all of them.
\<close>

definition heap_rel :: "heap \<Rightarrow> (u32 \<times> block) list \<Rightarrow> (u32 \<times> block) list \<Rightarrow> bool" where
  "heap_rel h fs al \<longleftrightarrow>
     hp_free h = first_ptr fs 0 \<and> seg (hp_nodes h) 0 fs 0 \<and>
     hp_alloc h = first_ptr al 0 \<and> seg (hp_nodes h) 0 al 0 \<and>
     distinct (map fst (fs @ al)) \<and> (\<forall>b\<in>set (fs @ al). fst b < hp_placement h)"

text \<open>There is room for one more node.\<close>

definition node_room :: "heap \<Rightarrow> bool" where
  "node_room h \<longleftrightarrow> 0 < hp_placement h \<and> unat (hp_placement h) + 16 < 2 ^ 32"

text \<open>The specification of an allocation: first fit, the front of the block is cut off.\<close>

fun take_fit :: "block list \<Rightarrow> u32 \<Rightarrow> (u32 \<times> block list) option" where
  "take_fit [] sz = None"
| "take_fit ((a, s) # bs) sz =
     (if s < sz then map_option (\<lambda>(r, bs'). (r, (a, s) # bs')) (take_fit bs sz)
      else Some (a, if sz < s then (a + sz, s - sz) # bs else bs))"

lemma take_fit_none: "\<forall>b\<in>set fs. snd b < sz \<Longrightarrow> take_fit fs sz = None"
  by (induction fs) auto

lemma take_fit_some:
  "\<forall>b\<in>set xs. snd b < sz \<Longrightarrow> \<not> s < sz \<Longrightarrow> take_fit (xs @ (a, s) # ys) sz =
     Some (a, xs @ (if sz < s then (a + sz, s - sz) # ys else ys))"
  by (induction xs) auto

lemma take_fit_length: "take_fit bs sz = Some (a, bs') \<Longrightarrow> length bs' \<le> length bs"
  by (induction bs arbitrary: bs') (auto split: if_splits)

lemma node_room_new:
  assumes "node_room h" and "\<forall>b\<in>set bs. fst b < hp_placement h"
  shows "hp_placement h \<notin> fst ` set bs" and "hp_placement h \<noteq> 0"
    and "hp_placement h < hp_placement h + 16"
proof -
  show "hp_placement h < hp_placement h + 16"
    using assms(1) unat_add_of_nat [of "hp_placement h" 16] by (simp add: node_room_def word_less_nat_alt)
qed (use assms in \<open>auto simp: node_room_def\<close>)

lemma new_node_eq: "new_node h n = (hp_placement h,
    h\<lparr>hp_nodes := (hp_nodes h)(hp_placement h \<mapsto> n), hp_placement := hp_placement h + 16\<rparr>)"
  by (simp add: new_node_def pmalloc_def)

lemma heap_save_ok:
  assumes rel: "heap_rel h fs al" and room: "node_room h"
  obtains h' where "heap_save_allocated_block h addr sz = Inr h'"
    and "heap_rel h' fs (al @ [(hp_placement h, addr, sz)])"
    and "hp_placement h' = hp_placement h + 16"
proof -
  let ?p = "hp_placement h"
  have lt: "\<forall>b\<in>set (fs @ al). fst b < ?p" using rel by (simp add: heap_rel_def)
  note new = node_room_new [OF room lt]
  have lt': "\<forall>b\<in>set (fs @ al). fst b < ?p + 16" using lt new(3) by (auto intro: less_trans)
  show thesis
  proof (cases "al = []")
    case True
    then show thesis
      using that rel new lt' by (auto simp: heap_save_allocated_block_def new_node_eq heap_rel_def)
  next
    case False
    let ?n = "\<lparr>ll_addr = addr, ll_size = sz, ll_prev = last_ptr 0 al, ll_next = 0\<rparr>"
    have seg: "seg (hp_nodes h) 0 al 0" "hp_alloc h = first_ptr al 0" "distinct (map fst (fs @ al))"
      using rel by (auto simp: heap_rel_def)
    then have last: "returned (ll_last (hp_nodes h) (hp_alloc h)) = Inr (last_ptr 0 al)"
      using ll_last_seg [of "hp_nodes h" 0 al] False by simp
    have "seg ((hp_nodes h)(?p \<mapsto> ?n)) 0 al 0" using seg new(1) by (auto simp: image_Un)
    moreover have "distinct (map fst al)" using seg(3) by simp
    ultimately obtain n where
      n: "((hp_nodes h)(?p \<mapsto> ?n)) (last_ptr 0 al) = Some n" "ll_next n = 0"
        "seg ((hp_nodes h)(?p \<mapsto> ?n, last_ptr 0 al \<mapsto> n\<lparr>ll_next := ?p\<rparr>)) 0 al ?p"
      by (rule seg_set_next [OF _ _ False, of _ 0 0 ?p])
    have l: "last_ptr 0 al \<in> fst ` set al" "last_ptr 0 al \<noteq> 0"
      using last_ptr_in [OF False] last_ptr_nonzero [OF seg(1)] False by auto
    have "fst ` set fs \<inter> fst ` set al = {}" using seg(3) by simp
    then have ne: "last_ptr 0 al \<noteq> ?p" "last_ptr 0 al \<notin> fst ` set fs"
      using l(1) new(1) by (metis UnI2 image_Un set_append, blast)
    define h' where "h' = h\<lparr>hp_nodes := (hp_nodes h)(?p \<mapsto> ?n, last_ptr 0 al \<mapsto> n\<lparr>ll_next := ?p\<rparr>),
        hp_placement := ?p + 16\<rparr>"
    have nz: "hp_alloc h \<noteq> 0" using first_ptr_nonzero [OF seg(1)] seg(2) False by simp
    have "heap_save_allocated_block h addr sz = Inr h'"
      using last nz n(1) l(2) by (simp add: heap_save_allocated_block_def new_node_eq upd_node_def h'_def)
    moreover have "heap_rel h' fs (al @ [(?p, addr, sz)])"
      using rel n(3) ne new lt' False seg by (auto simp: heap_rel_def h'_def image_Un neq_Nil_conv)
    ultimately show thesis by (rule that) (simp add: h'_def)
  qed
qed

text \<open>Unlinking one block of the free list.\<close>

definition unlink_free :: "heap \<Rightarrow> u32 \<Rightarrow> ll_node \<Rightarrow> heap res" where
  "unlink_free h f n =
     rbind (if ll_prev n \<noteq> 0
            then upd_node h (ll_prev n) (\<lambda>x. x\<lparr>ll_next := ll_next n\<rparr>)
            else Inr (h\<lparr>hp_free := ll_next n\<rparr>)) (\<lambda>h2.
     rbind (deref (hp_nodes h2) f) (\<lambda>n2.
     if ll_next n2 \<noteq> 0 then upd_node h2 (ll_next n2) (\<lambda>x. x\<lparr>ll_prev := ll_prev n2\<rparr>) else Inr h2))"

lemma unlink_free_ok:
  assumes rel: "heap_rel h (xs @ (q, a, s) # ys) al" and q: "hp_nodes h q = Some n"
  obtains h' where "unlink_free h q n = Inr h'" and "heap_rel h' (xs @ ys) al"
    and "hp_placement h' = hp_placement h"
proof -
  let ?l = "last_ptr 0 xs" and ?nx = "first_ptr ys 0"
  have seg: "seg (hp_nodes h) 0 xs q" "seg (hp_nodes h) q ys 0" "q \<noteq> 0"
      "seg (hp_nodes h) 0 al 0" and n: "n = \<lparr>ll_addr = a, ll_size = s, ll_prev = ?l, ll_next = ?nx\<rparr>"
    using rel q by (auto simp: heap_rel_def)
  have d: "distinct (map fst xs)" "distinct (map fst ys)" "q \<notin> fst ` set xs" "q \<notin> fst ` set ys"
      "q \<notin> fst ` set al" "fst ` set xs \<inter> fst ` set ys = {}" "fst ` set xs \<inter> fst ` set al = {}"
      "fst ` set ys \<inter> fst ` set al = {}"
    using rel by (auto simp: heap_rel_def image_Un)
  obtain h2 where h2: "(if ?l \<noteq> 0 then upd_node h ?l (\<lambda>x. x\<lparr>ll_next := ?nx\<rparr>)
        else Inr (h\<lparr>hp_free := ?nx\<rparr>)) = Inr h2"
      "seg (hp_nodes h2) 0 xs ?nx" "seg (hp_nodes h2) q ys 0" "seg (hp_nodes h2) 0 al 0"
      "hp_nodes h2 q = Some n" "hp_free h2 = first_ptr xs ?nx" "hp_placement h2 = hp_placement h"
      "hp_alloc h2 = hp_alloc h"
  proof (cases "xs = []")
    case True
    then show thesis
      using that [of "h\<lparr>hp_free := ?nx\<rparr>"] seg q by simp
  next
    case False
    obtain n' where n': "hp_nodes h ?l = Some n'"
        "seg ((hp_nodes h)(?l \<mapsto> n'\<lparr>ll_next := ?nx\<rparr>)) 0 xs ?nx"
      by (rule seg_set_next [OF seg(1) d(1) False, of ?nx])
    have l: "?l \<in> fst ` set xs" "?l \<noteq> 0"
      using last_ptr_in [OF False] last_ptr_nonzero [OF seg(1)] False by auto
    then have "?l \<notin> fst ` set ys" "?l \<notin> fst ` set al" "?l \<noteq> q" using d by auto
    then show thesis
      using that [of "h\<lparr>hp_nodes := (hp_nodes h)(?l \<mapsto> n'\<lparr>ll_next := ?nx\<rparr>)\<rparr>"] l n' seg q rel False
      by (auto simp: upd_node_def heap_rel_def neq_Nil_conv)
  qed
  have np: "ll_prev n = ?l" "ll_next n = ?nx" by (simp_all add: n)
  have step: "unlink_free h q n =
      (if ?nx \<noteq> 0 then upd_node h2 ?nx (\<lambda>x. x\<lparr>ll_prev := ?l\<rparr>) else Inr h2)"
    unfolding unlink_free_def np h2(1) using h2(5) seg(3) np by simp
  show thesis
  proof (cases "ys = []")
    case True
    then show thesis
      using that [of h2] h2 rel seg(3) step by (simp add: heap_rel_def)
  next
    case False
    obtain n' where n': "hp_nodes h2 ?nx = Some n'"
        "seg ((hp_nodes h2)(?nx \<mapsto> n'\<lparr>ll_prev := ?l\<rparr>)) ?l ys 0"
      by (rule seg_set_prev [OF h2(3) d(2) False, of ?l])
    have nx: "?nx \<in> fst ` set ys" "?nx \<noteq> 0"
      using False first_ptr_nonzero [OF seg(2)] by (auto simp: neq_Nil_conv)
    then have "?nx \<notin> fst ` set xs" "?nx \<notin> fst ` set al" "?nx \<noteq> q" using d by auto
    then show thesis
      using that [of "h2\<lparr>hp_nodes := (hp_nodes h2)(?nx \<mapsto> n'\<lparr>ll_prev := ?l\<rparr>)\<rparr>"] nx n' h2 rel step
      by (auto simp: upd_node_def heap_rel_def)
  qed
qed

lemma heap_alloc_unfold:
  "heap_alloc h sz = rbind (heap_first_fit h sz) (\<lambda>f. if f = 0 then Inr (0, h) else
     rbind (deref (hp_nodes h) f) (\<lambda>n0.
     rbind (heap_save_allocated_block h (ll_addr n0) sz) (\<lambda>h1.
     rbind (deref (hp_nodes h1) f) (\<lambda>n.
     rbind (if sz < ll_size n
            then upd_node h1 f (\<lambda>x. x\<lparr>ll_addr := ll_addr x + sz, ll_size := ll_size x - sz\<rparr>)
            else unlink_free h1 f n) (\<lambda>h2. Inr (ll_addr n0, h2))))))"
  by (simp add: heap_alloc_def unlink_free_def Let_def rbind_assoc if_distrib [of "\<lambda>r. rbind r _"]
    cong: if_cong rbind_cong)

text \<open>
  The refinement: an allocation that the free list can serve returns the address that the
  specification gives and leaves the free list as the specification does, with the block
  appended to the allocated ones; one that it cannot serve returns the null pointer.
\<close>

lemma heap_alloc_none:
  assumes "heap_rel h fs al" and "take_fit (map snd fs) sz = None"
  shows "heap_alloc h sz = Inr (0, h)"
proof -
  have "\<forall>b\<in>set fs. snd (snd b) < sz"
  proof (cases rule: fit_cases [of fs sz])
    case (some xs q a s ys)
    then show ?thesis using assms(2) take_fit_some [of "map snd xs" sz s a "map snd ys"] by simp
  qed
  then show ?thesis
    using first_fit_none [of "hp_nodes h" 0 fs sz] assms(1)
    by (simp add: heap_alloc_unfold heap_first_fit_def heap_rel_def)
qed

lemma heap_alloc_some:
  assumes rel: "heap_rel h fs al" and room: "node_room h"
    and fit: "take_fit (map snd fs) sz = Some (a, bs)"
  obtains h' fs' where "heap_alloc h sz = Inr (a, h')"
    and "heap_rel h' fs' (al @ [(hp_placement h, a, sz)])" and "map snd fs' = bs"
    and "hp_placement h' = hp_placement h + 16"
proof (cases rule: fit_cases [of fs sz])
  case none
  then show thesis using fit take_fit_none [of "map snd fs" sz] by simp
next
  case (some xs q a' s ys)
  then have a: "a' = a" and bs: "bs = map snd xs @ (if sz < s then (a + sz, s - sz) # map snd ys else map snd ys)"
    using fit take_fit_some [of "map snd xs" sz s a' "map snd ys"] by auto
  have q: "hp_nodes h q = Some \<lparr>ll_addr = a, ll_size = s, ll_prev = last_ptr 0 xs,
      ll_next = first_ptr ys 0\<rparr>" "q \<noteq> 0" "heap_first_fit h sz = Inr q"
    using rel some a first_fit_some [of "hp_nodes h" 0 xs q a s ys sz]
    by (auto simp: heap_rel_def heap_first_fit_def)
  obtain h1 where h1: "heap_save_allocated_block h a sz = Inr h1"
      "heap_rel h1 fs (al @ [(hp_placement h, a, sz)])" "hp_placement h1 = hp_placement h + 16"
    using heap_save_ok [OF rel room] by metis
  then have q1: "hp_nodes h1 q = Some \<lparr>ll_addr = a, ll_size = s, ll_prev = last_ptr 0 xs,
      ll_next = first_ptr ys 0\<rparr>"
    using some a by (simp add: heap_rel_def)
  show thesis
  proof (cases "sz < s")
    case True
    let ?h = "h1\<lparr>hp_nodes := (hp_nodes h1)(q \<mapsto> \<lparr>ll_addr = a + sz, ll_size = s - sz,
      ll_prev = last_ptr 0 xs, ll_next = first_ptr ys 0\<rparr>)\<rparr>"
    have "heap_alloc h sz = Inr (a, ?h)"
      using q q1 h1(1) True by (simp add: heap_alloc_unfold upd_node_def)
    moreover have "heap_rel ?h (xs @ (q, a + sz, s - sz) # ys) (al @ [(hp_placement h, a, sz)])"
      using h1(2) some a by (auto simp: heap_rel_def image_Un)
    ultimately show thesis using that True bs h1(3) by auto
  next
    case False
    obtain h2 where "unlink_free h1 q \<lparr>ll_addr = a, ll_size = s, ll_prev = last_ptr 0 xs,
        ll_next = first_ptr ys 0\<rparr> = Inr h2" "heap_rel h2 (xs @ ys) (al @ [(hp_placement h, a, sz)])"
        "hp_placement h2 = hp_placement h1"
      using unlink_free_ok [OF _ q1] h1(2) some a by metis
    then show thesis using that [of h2 "xs @ ys"] q q1 h1 False bs
      by (simp add: heap_alloc_unfold)
  qed
qed

section \<open>Runs of allocations\<close>

fun kmallocs :: "heap \<Rightarrow> u32 list \<Rightarrow> (u32 list \<times> heap) res" where
  "kmallocs h [] = Inr ([], h)"
| "kmallocs h (sz # szs) =
     rbind (kmalloc h sz) (\<lambda>(a, h1). rbind (kmallocs h1 szs) (\<lambda>(as, h2). Inr (a # as, h2)))"

fun take_fits :: "block list \<Rightarrow> u32 list \<Rightarrow> u32 list" where
  "take_fits bs [] = []"
| "take_fits bs (sz # szs) = (case take_fit bs sz of None \<Rightarrow> 0 # take_fits bs szs
     | Some (a, bs') \<Rightarrow> a # take_fits bs' szs)"

lemma kmallocs_refine:
  "heap_rel h fs al \<Longrightarrow> 0 < hp_placement h \<Longrightarrow> unat (hp_placement h) + 16 * length szs < 2 ^ 32 \<Longrightarrow>
     \<exists>h' fs' al'. kmallocs h szs = Inr (take_fits (map snd fs) szs, h') \<and>
       heap_rel h' fs' al' \<and> length fs' \<le> length fs"
proof (induction szs arbitrary: h fs al)
  case Nil
  then show ?case by auto
next
  case (Cons sz szs)
  show ?case
  proof (cases "take_fit (map snd fs) sz")
    case None
    then show ?thesis
      using Cons heap_alloc_none [OF Cons.prems(1) None] by (fastforce simp: kmalloc_def)
  next
    case (Some r)
    obtain a bs where r: "r = (a, bs)" by (cases r)
    have room: "node_room h" using Cons.prems by (simp add: node_room_def)
    obtain h1 fs1 where 1: "heap_alloc h sz = Inr (a, h1)"
        "heap_rel h1 fs1 (al @ [(hp_placement h, a, sz)])" "map snd fs1 = bs"
        "hp_placement h1 = hp_placement h + 16"
      using heap_alloc_some [OF Cons.prems(1) room] Some r by metis
    have p: "unat (hp_placement h1) = unat (hp_placement h) + 16"
      using 1(4) unat_add_of_nat [of "hp_placement h" 16] Cons.prems(3) by simp
    have "length bs \<le> length fs"
      using Some r take_fit_length [of "map snd fs" sz a bs] by simp
    then have len: "length fs1 \<le> length fs" using 1(3) by (metis length_map)
    have "0 < hp_placement h1" using p by (auto simp: word_neq_0_conv [symmetric] unat_eq_0 [symmetric])
    then obtain h' fs' al' where "kmallocs h1 szs = Inr (take_fits (map snd fs1) szs, h')"
        "heap_rel h' fs' al'" "length fs' \<le> length fs1"
      using Cons.IH [OF 1(2)] p Cons.prems(3) by auto
    then show ?thesis
      using 1 Some r len by (auto simp: kmalloc_def)
  qed
qed

section \<open>Blocks stay apart\<close>

text \<open>\<open>within lo hi\<close>: the block does not wrap and lies in the half-open interval.\<close>

definition blk_apart :: "block \<Rightarrow> block \<Rightarrow> bool" where
  "blk_apart x y \<longleftrightarrow> unat (fst x) + unat (snd x) \<le> unat (fst y) \<or>
     unat (fst y) + unat (snd y) \<le> unat (fst x)"

definition within :: "nat \<Rightarrow> nat \<Rightarrow> block \<Rightarrow> bool" where
  "within lo hi x \<longleftrightarrow> lo \<le> unat (fst x) \<and> unat (fst x) + unat (snd x) \<le> hi"

lemma blk_apart_sym: "blk_apart x y \<Longrightarrow> blk_apart y x"
  by (auto simp: blk_apart_def)

lemma take_fit_apart:
  assumes fit: "take_fit bs sz = Some (a, bs')" and ap: "sorted_wrt blk_apart bs"
    and inside: "\<forall>x\<in>set bs. within lo hi x" and hi: "hi \<le> 2 ^ 32"
  shows "sorted_wrt blk_apart bs' \<and> (\<forall>x\<in>set bs'. within lo hi x) \<and> within lo hi (a, sz) \<and>
    (\<forall>x\<in>set bs'. blk_apart x (a, sz)) \<and>
    (\<forall>y. (\<forall>x\<in>set bs. blk_apart x y) \<longrightarrow> blk_apart (a, sz) y \<and> (\<forall>x\<in>set bs'. blk_apart x y))"
proof (cases rule: fit_cases [of "map (Pair (0::nat)) bs" sz])
  case none
  then show ?thesis using fit take_fit_none [of bs sz] by simp
next
  case (some xs q a' s ys)
  define vs ws where "vs = map snd xs" and "ws = map snd ys"
  have "bs = map snd (map (Pair (0::nat)) bs)" by (simp add: comp_def)
  then have bs: "bs = vs @ (a', s) # ws"
    using some(1) by (simp add: vs_def ws_def del: map_map)
  have a: "a' = a" and bs': "bs' = vs @ (if sz < s then (a + sz, s - sz) # ws else ws)"
    using fit bs some take_fit_some [of vs sz s a' ws] by (auto simp: vs_def)
  have le: "unat sz \<le> unat s" using some(3) by (simp add: word_less_nat_alt)
  have s: "unat a + unat s \<le> hi" "lo \<le> unat a" using inside bs a by (auto simp: within_def)
  have pw: "\<forall>x\<in>set vs. blk_apart x (a, s)" "\<forall>x\<in>set ws. blk_apart (a, s) x"
      "\<forall>x\<in>set vs. \<forall>y\<in>set ws. blk_apart x y" "sorted_wrt blk_apart vs" "sorted_wrt blk_apart ws"
    using ap bs a by (auto simp: sorted_wrt_append)
  then have pw': "\<forall>x\<in>set ws. blk_apart x (a, s)" by (blast intro: blk_apart_sym)
  show ?thesis
  proof (cases "sz < s")
    case True
    then have lt: "unat sz < unat s" by (simp add: word_less_nat_alt)
    have u: "unat (a + sz) = unat a + unat sz" "unat (s - sz) = unat s - unat sz"
      using unat_add_of_nat [of a "unat sz"] lt s hi le unat_sub [of sz s]
      by (simp_all add: word_le_nat_alt)
    have cut: "blk_apart x (a, sz) \<and> blk_apart x (a + sz, s - sz) \<and>
        blk_apart (a, sz) x \<and> blk_apart (a + sz, s - sz) x" if "blk_apart x (a, s)" for x
      using that u lt by (auto simp: blk_apart_def)
    have two: "blk_apart (a + sz, s - sz) (a, sz)" using u by (simp add: blk_apart_def)
    have "within lo hi (a, sz)" "within lo hi (a + sz, s - sz)"
      using s u lt by (auto simp: within_def)
    moreover have "blk_apart (a, sz) y \<and> (\<forall>x\<in>set bs'. blk_apart x y)"
      if "\<forall>x\<in>set bs. blk_apart x y" for y
      using that bs bs' a True cut [of y] by (auto intro: blk_apart_sym)
    moreover have "\<forall>x\<in>set vs \<union> set ws. blk_apart x (a, sz)"
      and "\<forall>x\<in>set vs. blk_apart x (a + sz, s - sz)" and "\<forall>x\<in>set ws. blk_apart (a + sz, s - sz) x"
      using pw pw' cut by blast+
    ultimately show ?thesis
      using inside bs bs' a True pw two by (simp add: sorted_wrt_append)
  next
    case False
    then have eq: "sz = s" using some(3) by simp
    then show ?thesis
      using inside bs bs' a False pw pw' by (simp add: sorted_wrt_append ball_Un)
  qed
qed

definition granted :: "u32 list \<Rightarrow> u32 list \<Rightarrow> block list" where
  "granted as szs = filter (\<lambda>x. fst x \<noteq> 0) (zip as szs)"

lemma take_fits_apart:
  assumes "sorted_wrt blk_apart bs" and "\<forall>x\<in>set bs. within lo hi x" and "hi \<le> 2 ^ 32"
  shows "sorted_wrt blk_apart (granted (take_fits bs szs) szs) \<and>
    (\<forall>x\<in>set (granted (take_fits bs szs) szs). within lo hi x) \<and>
    (\<forall>y. (\<forall>x\<in>set bs. blk_apart x y) \<longrightarrow> (\<forall>x\<in>set (granted (take_fits bs szs) szs). blk_apart x y))"
  using assms
proof (induction szs arbitrary: bs)
  case (Cons sz szs)
  show ?case
  proof (cases "take_fit bs sz")
    case None
    then show ?thesis using Cons by (simp add: granted_def)
  next
    case (Some r)
    obtain a bs' where r: "r = (a, bs')" by (cases r)
    note st = take_fit_apart [OF Some [unfolded r] Cons.prems]
    have ih: "sorted_wrt blk_apart (granted (take_fits bs' szs) szs) \<and>
      (\<forall>x\<in>set (granted (take_fits bs' szs) szs). within lo hi x) \<and>
      (\<forall>y. (\<forall>x\<in>set bs'. blk_apart x y) \<longrightarrow> (\<forall>x\<in>set (granted (take_fits bs' szs) szs). blk_apart x y))"
      using Cons.IH st Cons.prems(3) by blast
    have g: "granted (take_fits bs (sz # szs)) (sz # szs) =
        (if a \<noteq> 0 then [(a, sz)] else []) @ granted (take_fits bs' szs) szs"
      using Some r by (simp add: granted_def)
    have "\<forall>x\<in>set (granted (take_fits bs' szs) szs). blk_apart (a, sz) x"
      using ih st blk_apart_sym by blast
    moreover have "blk_apart (a, sz) y \<and> (\<forall>x\<in>set (granted (take_fits bs' szs) szs). blk_apart x y)"
      if "\<forall>x\<in>set bs. blk_apart x y" for y
      using that ih st by blast
    moreover note conjunct1 [OF ih] conjunct1 [OF conjunct2 [OF ih]]
    moreover have "within lo hi (a, sz)" using st by blast
    ultimately show ?thesis
      unfolding g by (cases "a = 0") (auto simp: sorted_wrt_append)
  qed
qed (simp add: granted_def)

section \<open>Release of a block\<close>

lemma forget_frame:
  assumes "heap_forget_allocated_block h ptr = Inr (sz, h')"
    and "seg (hp_nodes h) 0 al 0" and "hp_alloc h = first_ptr al 0" and "distinct (map fst al)"
    and "q \<notin> fst ` set al"
  shows "hp_nodes h' q = hp_nodes h q"
proof (cases "al = []")
  case True
  then show ?thesis using assms(1,3) by (simp add: heap_forget_allocated_block_def ll_find.simps)
next
  case False
  obtain xs p a s ys where al: "al = xs @ (p, a, s) # ys" and
    f: "ll_find (hp_nodes h) ptr (first_ptr al 0) = Some (Inr (p, \<lparr>ll_addr = a, ll_size = s,
      ll_prev = last_ptr 0 xs, ll_next = first_ptr ys 0\<rparr>))"
    using ll_find_seg [OF assms(2) False] by blast
  have p: "hp_nodes h p = Some \<lparr>ll_addr = a, ll_size = s, ll_prev = last_ptr 0 xs,
      ll_next = first_ptr ys 0\<rparr>" and pne: "p \<noteq> first_ptr ys 0"
    using assms(2,4) al by (auto simp: first_ptr_def split: list.splits)
  have ne: "q \<noteq> first_ptr ys 0 \<or> ys = []" "q \<noteq> last_ptr 0 xs \<or> xs = []"
    using assms(5) al last_ptr_in [of xs 0] by (auto simp: first_ptr_def image_Un split: list.splits)
  show ?thesis
    using assms(1) f p pne ne
    by (cases "ys = []"; cases "xs = []")
      (auto simp: heap_forget_allocated_block_def assms(3) upd_node_def split: if_splits)
qed

lemma merge_next_prev:
  assumes "merge_next h q = Inr h'" and "hp_nodes h q = Some n"
  shows "\<exists>n'. hp_nodes h' q = Some n' \<and> ll_prev n' = ll_prev n"
  using assms by (auto simp: merge_next_def upd_node_def split: if_splits)

text \<open>With at most one free block, releasing any address dereferences the null pointer.\<close>

lemma heap_free_faults:
  assumes rel: "heap_rel h fs al" and one: "length fs \<le> 1"
  shows "\<exists>e. heap_free h ptr = Inl e"
proof (cases "heap_free h ptr")
  case (Inr h')
  then obtain f where spot: "returned (free_spot (hp_nodes h) ptr (hp_free h)) = Inr f"
    by (auto simp: heap_free_def)
  have "fs \<noteq> []"
    using rel spot by (auto simp: heap_rel_def free_spot.simps)
  then obtain q a s where fs: "fs = [(q, a, s)]"
    using one by (cases fs) auto
  then have q: "q \<noteq> 0" "hp_nodes h q = Some \<lparr>ll_addr = a, ll_size = s, ll_prev = 0, ll_next = 0\<rparr>"
      "hp_free h = q" "q \<noteq> hp_placement h" "q \<notin> fst ` set al" and
    al: "seg (hp_nodes h) 0 al 0" "hp_alloc h = first_ptr al 0" "distinct (map fst al)"
      "hp_placement h \<notin> fst ` set al"
    using rel by (auto simp: heap_rel_def)
  have f: "f = q"
    using spot q by (simp add: free_spot.simps [of _ _ q] free_spot.simps [of _ _ 0] split: if_splits)
  let ?p = "hp_placement h"
  let ?h1 = "h\<lparr>hp_nodes := (hp_nodes h)(?p \<mapsto> \<lparr>ll_addr = ptr, ll_size = 0, ll_prev = 0, ll_next = 0\<rparr>),
      hp_placement := ?p + 16\<rparr>"
  have al1: "seg (hp_nodes ?h1) 0 al 0" using al by simp
  obtain sz h2 h3 h4 h5 h6 where st: "heap_forget_allocated_block ?h1 ptr = Inr (sz, h2)"
    and h3: "upd_node h2 ?p (\<lambda>x. x\<lparr>ll_size := sz, ll_next := q, ll_prev := 0\<rparr>) = Inr h3"
    and h4: "h4 = h3\<lparr>hp_free := ?p\<rparr>"
    and h5: "upd_node h4 q (\<lambda>x. x\<lparr>ll_prev := ?p\<rparr>) = Inr h5"
    and h6: "merge_next h5 ?p = Inr h6" and h7: "merge_prev h6 ?p = Inr h'"
  proof -
    obtain sz h2 where st: "heap_forget_allocated_block ?h1 ptr = Inr (sz, h2)"
      using Inr spot f by (auto simp: heap_free_def new_node_eq)
    have "hp_nodes h2 q = hp_nodes h q"
      using forget_frame [OF st al1 _ al(3) q(5)] al(2) q(4) by simp
    then show thesis
      using that [OF st] Inr spot f st q by (auto simp: heap_free_def new_node_eq)
  qed
  obtain n5 where "hp_nodes h5 ?p = Some n5" "ll_prev n5 = 0"
    using h3 h4 h5 q(4) by (auto simp: upd_node_def)
  then obtain n6 where "hp_nodes h6 ?p = Some n6" "ll_prev n6 = 0"
    using merge_next_prev [OF h6] by auto
  then show ?thesis using h7 by (auto simp: merge_prev_def)
qed auto

section \<open>The heap that paging sets up\<close>

lemma heap_create_rel:
  assumes "0 < placement" and "unat placement + 40 < 2 ^ 32"
  shows "heap_rel (heap_create ns placement start sz mx usr) [(placement + 24, start, sz)] []"
    and "hp_placement (heap_create ns placement start sz mx usr) = placement + 40"
proof -
  have "unat (placement + 24) = unat placement + 24" "unat (placement + 40) = unat placement + 40"
    using assms(2) unat_add_of_nat [of placement 24] unat_add_of_nat [of placement 40] by simp_all
  then have "placement + 24 \<noteq> 0" and "placement + 24 < placement + 40"
    by (auto simp: word_less_nat_alt unat_eq_0 [symmetric])
  then show "heap_rel (heap_create ns placement start sz mx usr) [(placement + 24, start, sz)] []"
    by (simp add: heap_create_def pmalloc_def heap_rel_def ac_simps)
qed (simp add: heap_create_def pmalloc_def)

lemma fresh_kmallocs:
  assumes "0 < placement" and "unat placement + 40 + 16 * length szs < 2 ^ 32"
  obtains h' fs al where
    "kmallocs (heap_create ns placement start sz mx usr) szs = Inr (take_fits [(start, sz)] szs, h')"
    and "heap_rel h' fs al" and "length fs \<le> 1"
proof -
  let ?h = "heap_create ns placement start sz mx usr"
  have p: "unat placement + 40 < 2 ^ 32" using assms(2) by simp
  note hc = heap_create_rel [OF assms(1) p, of ns start sz mx usr]
  have "unat (placement + 40) = unat placement + 40"
    using unat_add_of_nat [of placement 40] p by simp
  then have "0 < hp_placement ?h" and "unat (hp_placement ?h) + 16 * length szs < 2 ^ 32"
    unfolding hc(2) using assms(2) by (auto simp: word_less_nat_alt)
  then show thesis
    using kmallocs_refine [OF hc(1)] that by force
qed

section \<open>Properties\<close>

text \<open>
  C10. Every sequence of \<^verbatim>\<open>kmalloc\<close> calls on a heap made by \<^verbatim>\<open>heap_create\<close> returns; the blocks it
  grants (the results other than the null pointer) lie inside the heap and no two of them overlap.
\<close>

theorem kmalloc_blocks_apart:
  assumes "0 < placement" and "unat placement + 40 + 16 * length szs < 2 ^ 32"
    and "unat start + unat sz \<le> 2 ^ 32"
  shows "\<exists>as h'. kmallocs (heap_create ns placement start sz mx usr) szs = Inr (as, h') \<and>
    sorted_wrt blk_apart (granted as szs) \<and>
    (\<forall>x\<in>set (granted as szs). within (unat start) (unat start + unat sz) x)"
proof -
  obtain h' fs al where
    "kmallocs (heap_create ns placement start sz mx usr) szs = Inr (take_fits [(start, sz)] szs, h')"
    using fresh_kmallocs [OF assms(1,2)] by metis
  then show ?thesis
    using take_fits_apart [of "[(start, sz)]" "unat start" "unat start + unat sz" szs] assms(3)
    by (auto simp: within_def)
qed

theorem kmalloc_blocks_apart_witness:
  "\<exists>as h'. kmallocs (heap_create (\<lambda>_. None) 0x200000 0x800000 0x100000 0x100000 0) [16, 0x200000, 64] =
      Inr (as, h') \<and>
    sorted_wrt blk_apart (granted as [16, 0x200000, 64]) \<and>
    (\<forall>x\<in>set (granted as [16, 0x200000, 64]).
      within (unat (0x800000 :: u32)) (unat (0x800000 :: u32) + unat (0x100000 :: u32)) x)"
  by (rule kmalloc_blocks_apart) simp_all



end
