(* ===== verification/Paging.thy ===== *)
theory Paging
  imports Heap
begin

text \<open>
  \<^verbatim>\<open>kernel/mem/paging.c\<close>: page directories and page tables. All accesses are to aligned 32-bit
  entries, so the memory is a map from addresses to double words; directories and tables are
  reached by their physical addresses, as the code does while they are identity mapped. The new
  frames come from the contract \<open>frame_allocator\<close>.
\<close>

section \<open>State\<close>

record pg_state =
  pg_mem :: "u32 \<Rightarrow> u32"
  pg_pmm :: pmm
  pg_cur_dir :: u32
  pg_cr0 :: u32
  pg_cr3 :: u32

definition entry_addr :: "u32 \<Rightarrow> nat \<Rightarrow> u32" where
  "entry_addr base i = base + 4 * of_nat i"

definition entry :: "pg_state \<Rightarrow> u32 \<Rightarrow> nat \<Rightarrow> u32" where
  "entry st base i = pg_mem st (entry_addr base i)"

definition set_entry :: "pg_state \<Rightarrow> u32 \<Rightarrow> nat \<Rightarrow> u32 \<Rightarrow> pg_state" where
  "set_entry st base i v = st\<lparr>pg_mem := (pg_mem st)(entry_addr base i := v)\<rparr>"

abbreviation (input) PG_PRESENT :: u32 where "PG_PRESENT \<equiv> 1"
abbreviation (input) PG_RW :: u32 where "PG_RW \<equiv> 2"
abbreviation (input) PG_USER :: u32 where "PG_USER \<equiv> 4"
abbreviation (input) PG_FRAME :: u32 where "PG_FRAME \<equiv> 0xFFFFF000"
abbreviation (input) PG_FLAGS :: u32 where "PG_FLAGS \<equiv> 0xFFF"
abbreviation (input) HEAP_START :: u32 where "HEAP_START \<equiv> 0x800000"
abbreviation (input) HEAP_INITIAL_SIZE :: u32 where "HEAP_INITIAL_SIZE \<equiv> 0x100000"
abbreviation (input) HEAP_MAX_SIZE :: u32 where "HEAP_MAX_SIZE \<equiv> 0x100000"

definition is_aligned :: "u32 \<Rightarrow> bool" where
  "is_aligned a \<longleftrightarrow> a mod 0x1000 = 0"

definition dir_index :: "u32 \<Rightarrow> nat" where
  "dir_index virt = unat (drop_bit 22 virt)"

definition table_index :: "u32 \<Rightarrow> nat" where
  "table_index virt = unat (drop_bit 12 virt AND 0x3FF)"

section \<open>Tables\<close>

text \<open>\<open>n\<close> entries of the table at \<open>base\<close> set to \<open>v\<close>, from index \<open>i\<close> on.\<close>

fun fill_entries :: "pg_state \<Rightarrow> u32 \<Rightarrow> u32 \<Rightarrow> nat \<Rightarrow> nat \<Rightarrow> pg_state" where
  "fill_entries st base v i 0 = st"
| "fill_entries st base v i (Suc n) = fill_entries (set_entry st base i v) base v (i + 1) n"

definition pg_frame_alloc :: "pg_state \<Rightarrow> (u32 \<times> pg_state) res" where
  "pg_frame_alloc st = rbind (frame_alloc (pg_pmm st)) (\<lambda>(a, pm). Inr (a, st\<lparr>pg_pmm := pm\<rparr>))"

definition pg_mk_pgtbl :: "pg_state \<Rightarrow> u32 \<Rightarrow> nat \<Rightarrow> u32 \<Rightarrow> (u32 \<times> pg_state) res" where
  "pg_mk_pgtbl st dir di flags =
     rbind (pg_frame_alloc st) (\<lambda>(new_table, st1).
       let st2 = fill_entries st1 new_table 0 0 1024
       in Inr (new_table, set_entry st2 dir di (new_table OR PG_PRESENT OR flags)))"

definition pg_tbl_exists :: "pg_state \<Rightarrow> u32 \<Rightarrow> u32 \<Rightarrow> u8 res" where
  "pg_tbl_exists st dir virt =
     (if \<not> is_aligned virt then Inl (Panic ''pg_tbl_exists: Unaligned page address'')
      else Inr (ucast (entry st dir (dir_index virt) AND PG_PRESENT)))"

definition pg_is_mapped :: "pg_state \<Rightarrow> u32 \<Rightarrow> u32 \<Rightarrow> u8 res" where
  "pg_is_mapped st dir virt =
     (if \<not> is_aligned virt then Inl (Panic ''pg_is_mapped: Unaligned page address'')
      else let tbl = entry st dir (dir_index virt) AND PG_FRAME in
        rbind (pg_tbl_exists st dir virt) (\<lambda>e.
          Inr (if e \<noteq> 0 \<and> entry st tbl (table_index virt) AND PG_PRESENT \<noteq> 0 then 1 else 0)))"

definition pg_virt_to_phys :: "pg_state \<Rightarrow> u32 \<Rightarrow> u32 \<Rightarrow> u32 res" where
  "pg_virt_to_phys st dir virt =
     (if \<not> is_aligned virt then Inl (Panic ''pg_is_mapped: Unaligned page address'')
      else let tbl = entry st dir (dir_index virt) AND PG_FRAME in
        Inr (entry st tbl (table_index virt) AND PG_FRAME))"

section \<open>Mapping and unmapping\<close>

fun map_loop :: "pg_state \<Rightarrow> u32 \<Rightarrow> nat \<Rightarrow> u32 \<Rightarrow> u32 \<Rightarrow> u32 \<Rightarrow> u32 \<Rightarrow> nat \<Rightarrow> nat \<Rightarrow> pg_state res" where
  "map_loop st dir di tbl virt phys flags i 0 = Inr st"
| "map_loop st dir di tbl virt phys flags i (Suc n) =
     rbind (pg_is_mapped st dir (virt + of_nat i * 0x1000)) (\<lambda>b.
       let st1 = (if b \<noteq> 0
             then let s = set_entry st tbl i (entry st tbl i OR flags)
                  in set_entry s dir di (entry s dir di OR flags)
             else st);
           st2 = set_entry st1 tbl i ((phys + of_nat i * 0x1000) OR PG_PRESENT OR flags)
       in map_loop st2 dir di tbl virt phys flags (i + 1) n)"

definition pg_map_pages :: "pg_state \<Rightarrow> u32 \<Rightarrow> u32 \<Rightarrow> u32 \<Rightarrow> u32 \<Rightarrow> u32 \<Rightarrow> pg_state res" where
  "pg_map_pages st dir virt phys num flags =
     (if \<not> is_aligned virt then Inl (Panic ''pg_map_pages: Unaligned page address (virt)'')
      else if \<not> is_aligned phys then Inl (Panic ''pg_map_pages: Unaligned page address (phys)'')
      else
        rbind (pg_tbl_exists st dir virt) (\<lambda>e.
        rbind (if e = 0 then rbind (pg_mk_pgtbl st dir (dir_index virt) flags) (\<lambda>(_, s). Inr s)
               else Inr st) (\<lambda>st1.
          let tbl = entry st1 dir (dir_index virt) AND PG_FRAME
          in map_loop st1 dir (dir_index virt) tbl virt phys flags 0 (unat num))))"

text \<open>The tests of the loop are written with \<^verbatim>\<open>|\<close>, so the branch is always taken.\<close>

fun unmap_loop :: "pg_state \<Rightarrow> u32 \<Rightarrow> nat \<Rightarrow> nat \<Rightarrow> pg_state res" where
  "unmap_loop st tbl i 0 = Inr st"
| "unmap_loop st tbl i (Suc n) =
     (if entry st tbl i OR PG_PRESENT \<noteq> 0 then
        rbind (frame_free (pg_pmm st) (entry st tbl i OR PG_FRAME)) (\<lambda>pm.
          unmap_loop (set_entry (st\<lparr>pg_pmm := pm\<rparr>) tbl i 0) tbl (i + 1) n)
      else unmap_loop st tbl (i + 1) n)"

definition pg_unmap_pages :: "pg_state \<Rightarrow> u32 \<Rightarrow> u32 \<Rightarrow> u32 \<Rightarrow> pg_state res" where
  "pg_unmap_pages st dir virt num =
     rbind (pg_tbl_exists st dir virt) (\<lambda>e.
       if e = 0 then Inr st
       else unmap_loop st (entry st dir (dir_index virt) AND PG_FRAME) 0 (unat num))"

definition pg_alloc :: "pg_state \<Rightarrow> u32 \<Rightarrow> u32 \<Rightarrow> (u32 \<times> pg_state) res" where
  "pg_alloc st virt flags =
     rbind (pg_frame_alloc st) (\<lambda>(phys, st1).
     rbind (pg_map_pages st1 (pg_cur_dir st1) virt phys 1 flags) (\<lambda>st2. Inr (phys, st2)))"

definition pg_free :: "pg_state \<Rightarrow> u32 \<Rightarrow> pg_state res" where
  "pg_free st virt = pg_unmap_pages st (pg_cur_dir st) virt 1"

section \<open>Cloning address spaces\<close>

text \<open>\<^verbatim>\<open>memcpy\<close> of a whole table, entry by entry.\<close>

fun copy_entries :: "pg_state \<Rightarrow> u32 \<Rightarrow> u32 \<Rightarrow> nat \<Rightarrow> nat \<Rightarrow> pg_state" where
  "copy_entries st dst src i 0 = st"
| "copy_entries st dst src i (Suc n) =
     copy_entries (set_entry st dst i (entry st src i)) dst src (i + 1) n"

definition pg_clone_page_table :: "pg_state \<Rightarrow> u32 \<Rightarrow> (u32 \<times> pg_state) res" where
  "pg_clone_page_table st tbl =
     rbind (pg_frame_alloc st) (\<lambda>(new_tbl, st1).
       Inr (new_tbl OR (tbl AND PG_FLAGS), copy_entries st1 new_tbl (tbl AND PG_FRAME) 0 1024))"

fun clone_loop :: "pg_state \<Rightarrow> u32 \<Rightarrow> u32 \<Rightarrow> nat \<Rightarrow> nat \<Rightarrow> pg_state res" where
  "clone_loop st dir new_dir i 0 = Inr st"
| "clone_loop st dir new_dir i (Suc n) =
     (if entry st dir i AND PG_PRESENT \<noteq> 0 then
        rbind (pg_clone_page_table st (entry st dir i)) (\<lambda>(t, st1).
          let st2 = set_entry st1 new_dir i t;
              st3 = set_entry st2 new_dir i (entry st2 new_dir i OR (entry st2 dir i AND PG_FLAGS))
          in clone_loop st3 dir new_dir (i + 1) n)
      else clone_loop st dir new_dir (i + 1) n)"

definition pg_clone_page_dir :: "pg_state \<Rightarrow> u32 \<Rightarrow> (u32 \<times> pg_state) res" where
  "pg_clone_page_dir st dir =
     rbind (pg_frame_alloc st) (\<lambda>(new_dir, st1).
     rbind (clone_loop (fill_entries st1 new_dir 0 0 1024) dir new_dir 0 1024) (\<lambda>st2.
     Inr (new_dir, st2)))"

text \<open>\<open>ker_dir\<close> is the address of the array \<^verbatim>\<open>ker_page_dir\<close>.\<close>

definition pg_make_user_page_dir :: "pg_state \<Rightarrow> u32 \<Rightarrow> (u32 \<times> pg_state) res" where
  "pg_make_user_page_dir st ker_dir = pg_clone_page_dir st ker_dir"

definition pg_switch_page_dir :: "pg_state \<Rightarrow> u32 \<Rightarrow> pg_state" where
  "pg_switch_page_dir st dir = st\<lparr>pg_cur_dir := dir, pg_cr3 := dir\<rparr>"

section \<open>Initialisation\<close>

text \<open>
  \<open>vesa\<close> tells whether the terminal is the VESA one, \<open>fb\<close> is \<^verbatim>\<open>mbi->framebuffer_addr\<close>. The kernel
  heap takes its nodes from the placement address, which the result hands back to the frame
  manager's state.
\<close>

definition pg_init :: "pg_state \<Rightarrow> u32 \<Rightarrow> bool \<Rightarrow> u64 \<Rightarrow> (heap \<times> pg_state) res" where
  "pg_init st ker_dir vesa fb =
     (let st0 = fill_entries st ker_dir PG_RW 0 1024 in
      rbind (pg_map_pages st0 ker_dir 0 0 1024 PG_RW) (\<lambda>st1.
      rbind (if \<not> vesa
             then let page = ucast (fb AND 0xFFF00000) in pg_map_pages st1 ker_dir page page 2048 PG_RW
             else Inr st1) (\<lambda>st2.
      rbind (pg_map_pages st2 ker_dir HEAP_START HEAP_START 1024 PG_RW) (\<lambda>st3.
        let kheap = heap_create (\<lambda>_. None) (pm_placement (pg_pmm st3)) HEAP_START HEAP_INITIAL_SIZE HEAP_MAX_SIZE 0;
            st4 = pg_switch_page_dir (st3\<lparr>pg_pmm := (pg_pmm st3)\<lparr>pm_placement := hp_placement kheap\<rparr>\<rparr>)
                    ker_dir
        in Inr (kheap, st4\<lparr>pg_cr0 := (pg_cr0 st4 OR 0x80000000) AND
                 NOT (push_bit 29 1 OR push_bit 30 1)\<rparr>)))))"

section \<open>Entries of aligned tables\<close>

definition frame_of :: "u32 \<Rightarrow> nat" where
  "frame_of a = unat a div 4096"

lemma aligned_unat: "is_aligned a \<longleftrightarrow> unat a mod 4096 = 0"
  by (simp add: is_aligned_def unat_eq_0 [symmetric] unat_mod)

lemma alignedE:
  assumes "is_aligned a"
  obtains q where "unat a = 4096 * q" and "q < 1048576"
proof -
  have "4096 dvd unat a" using assms by (simp add: aligned_unat mod_eq_0_iff_dvd)
  then obtain q where "unat a = 4096 * q" by (rule dvdE)
  then show thesis using that unat_u32_less [of a] by simp
qed

lemma unat_entry_addr:
  assumes "is_aligned base" and "k < 1024"
  shows "unat (entry_addr base k) = unat base + 4 * k"
proof -
  obtain q where "unat base = 4096 * q" "q < 1048576" using assms(1) by (rule alignedE)
  then show ?thesis
    using unat_add_of_nat [of base "4 * k"] assms(2) by (simp add: entry_addr_def)
qed

lemma frame_of_entry:
  assumes "is_aligned base" and "k < 1024"
  shows "frame_of (entry_addr base k) = frame_of base"
proof -
  obtain q where "unat base = 4096 * q" "q < 1048576" using assms(1) by (rule alignedE)
  then show ?thesis
    using unat_entry_addr [OF assms] assms(2) by (simp add: frame_of_def)
qed

lemma entry_addr_inj:
  assumes "is_aligned base" and "k < 1024" and "j < 1024"
  shows "entry_addr base k = entry_addr base j \<longleftrightarrow> k = j"
proof
  assume "entry_addr base k = entry_addr base j"
  then have "unat base + 4 * k = unat base + 4 * j"
    using unat_entry_addr [OF assms(1,2)] unat_entry_addr [OF assms(1,3)] by metis
  then show "k = j" by simp
qed simp

lemma aligned_frame_addr:
  assumes "f * 4096 < 2 ^ 32"
  shows "is_aligned (of_nat (f * 4096))" and "frame_of (of_nat (f * 4096)) = f"
proof -
  have "unat (of_nat (f * 4096) :: u32) = f * 4096"
    using assms by (intro unat_of_nat_u32) simp
  then show "is_aligned (of_nat (f * 4096))" and "frame_of (of_nat (f * 4096)) = f"
    unfolding aligned_unat frame_of_def by (simp_all del: of_nat_mult)
qed

lemma frame_mask: "(PG_FRAME :: u32) = NOT (mask 12)" "(PG_FLAGS :: u32) = mask 12"
  by (simp_all add: mask_eq_exp_minus_1)

lemma aligned_mask: "is_aligned a \<longleftrightarrow> a AND mask 12 = 0"
  by (simp add: is_aligned_def take_bit_eq_mod [symmetric, where n = 12, simplified]
    take_bit_eq_mask)

lemma aligned_frame [simp]: "is_aligned (a AND PG_FRAME)"
  unfolding aligned_mask frame_mask by (simp add: bit_eq_iff bit_simps)

lemma aligned_or_flags:
  assumes "is_aligned a"
  shows "(a OR (fl AND PG_FLAGS)) AND PG_FRAME = a"
proof -
  have "\<not> bit a i" if "i < 12" for i
    using assms that unfolding aligned_mask bit_eq_iff by (auto simp: bit_simps dest: spec [of _ i])
  then show ?thesis
    unfolding frame_mask by (auto simp: bit_eq_iff bit_simps dest: bit_imp_le_length)
qed

lemma index_less: "dir_index virt < 1024" "table_index virt < 1024"
proof -
  show "dir_index virt < 1024"
    using unat_u32_less [of virt] by (simp add: dir_index_def unat_drop_bit_eq drop_bit_eq_div unat_div)
  have "unat (drop_bit 12 virt AND mask 10) < 2 ^ 10"
    by (metis take_bit_eq_mask unsigned_take_bit_eq take_bit_nat_less_exp)
  then show "table_index virt < 1024"
    by (simp add: table_index_def mask_eq_exp_minus_1)
qed

section \<open>What the loops over tables write\<close>

lemma set_entry_simps [simp]:
  "pg_pmm (set_entry st b i v) = pg_pmm st" "pg_cur_dir (set_entry st b i v) = pg_cur_dir st"
  "pg_cr3 (set_entry st b i v) = pg_cr3 st"
  by (simp_all add: set_entry_def)

lemma entry_set_entry:
  "is_aligned b \<Longrightarrow> k < 1024 \<Longrightarrow> i < 1024 \<Longrightarrow>
     entry (set_entry st b i v) b k = (if k = i then v else entry st b k)"
  by (simp add: entry_def set_entry_def entry_addr_inj)

lemma entry_set_other:
  assumes "is_aligned b" and "is_aligned c" and "frame_of b \<noteq> frame_of c" and "k < 1024" and "i < 1024"
  shows "entry (set_entry st b i v) c k = entry st c k"
  using frame_of_entry [OF assms(1,5)] frame_of_entry [OF assms(2,4)] assms(3)
  by (auto simp: entry_def set_entry_def)

lemma mem_set_entry:
  "is_aligned b \<Longrightarrow> i < 1024 \<Longrightarrow> frame_of a \<noteq> frame_of b \<Longrightarrow>
     pg_mem (set_entry st b i v) a = pg_mem st a"
  by (auto simp: set_entry_def frame_of_entry)

lemma entry_cong:
  assumes "is_aligned b" and "k < 1024" and "\<And>a. frame_of a = frame_of b \<Longrightarrow> pg_mem st' a = pg_mem st a"
  shows "entry st' b k = entry st b k"
  using assms by (simp add: entry_def frame_of_entry)

lemma fill_entries_mem:
  assumes "is_aligned base" and "i + n \<le> 1024"
  shows "k < 1024 \<Longrightarrow> entry (fill_entries st base v i n) base k =
      (if i \<le> k \<and> k < i + n then v else entry st base k)"
    and "frame_of a \<noteq> frame_of base \<Longrightarrow> pg_mem (fill_entries st base v i n) a = pg_mem st a"
    and "pg_pmm (fill_entries st base v i n) = pg_pmm st"
  using assms
  by (induction st base v i n rule: fill_entries.induct)
    (auto simp: entry_set_entry mem_set_entry)

lemma copy_entries_mem:
  assumes "is_aligned dst" and "is_aligned src" and "frame_of dst \<noteq> frame_of src" and "i + n \<le> 1024"
  shows "k < 1024 \<Longrightarrow> entry (copy_entries st dst src i n) dst k =
      (if i \<le> k \<and> k < i + n then entry st src k else entry st dst k)"
    and "frame_of a \<noteq> frame_of dst \<Longrightarrow> pg_mem (copy_entries st dst src i n) a = pg_mem st a"
    and "pg_pmm (copy_entries st dst src i n) = pg_pmm st"
  using assms
  by (induction st dst src i n rule: copy_entries.induct)
    (auto simp: entry_set_entry entry_set_other mem_set_entry)

section \<open>Mapping\<close>

lemma dir_index_div: "dir_index v = unat v div 4194304"
  by (simp add: dir_index_def drop_bit_eq_div unat_div)

lemma table_index_div: "table_index v = unat v div 4096 mod 1024"
proof -
  have "table_index v = unat (take_bit 10 (drop_bit 12 v))"
    by (simp add: table_index_def take_bit_eq_mask mask_eq_exp_minus_1)
  also have "\<dots> = take_bit 10 (unat (drop_bit 12 v))" by (simp add: unsigned_take_bit_eq)
  finally show ?thesis by (simp add: take_bit_eq_mod drop_bit_eq_div unat_div)
qed

lemma flag_bits:
  assumes "is_aligned x" and "flags AND PG_FRAME = 0"
  shows "(x OR PG_PRESENT OR flags) AND PG_FRAME = x"
    and "(x OR PG_PRESENT OR flags) AND PG_PRESENT \<noteq> 0"
    and "(e OR flags) AND PG_FRAME = e AND PG_FRAME"
    and "e AND PG_PRESENT \<noteq> 0 \<Longrightarrow> (e OR flags) AND PG_PRESENT \<noteq> 0"
proof -
  have fl: "flags = flags AND PG_FLAGS"
    using assms(2) unfolding frame_mask by (auto simp: bit_eq_iff bit_simps)
  then have "PG_PRESENT OR flags = (PG_PRESENT OR flags) AND PG_FLAGS"
    by (simp add: bit.conj_disj_distrib2)
  then have "(x OR PG_PRESENT OR flags) AND PG_FRAME = (x OR (PG_PRESENT OR flags) AND PG_FLAGS) AND PG_FRAME"
    by (simp add: or.assoc)
  then show "(x OR PG_PRESENT OR flags) AND PG_FRAME = x"
    using aligned_or_flags [OF assms(1)] by metis
  have one: "y AND PG_PRESENT \<noteq> 0 \<longleftrightarrow> bit y 0" for y :: u32
    using bit_mask_test [of y 0] by simp
  show "(x OR PG_PRESENT OR flags) AND PG_PRESENT \<noteq> 0"
    and "e AND PG_PRESENT \<noteq> 0 \<Longrightarrow> (e OR flags) AND PG_PRESENT \<noteq> 0"
    by (simp_all add: one bit_simps)
  show "(e OR flags) AND PG_FRAME = e AND PG_FRAME"
    using assms(2) by (simp add: bit.conj_disj_distrib2)
qed

lemma aligned_12: "is_aligned a \<longleftrightarrow> take_bit 12 a = 0"
  by (simp add: aligned_mask take_bit_eq_mask)

lemma aligned_add:
  assumes "is_aligned a"
  shows "is_aligned (a + of_nat i * 0x1000)"
proof -
  have dvd: "(4096 :: nat) dvd 2 ^ 32" by simp
  have "unat (a + of_nat (i * 4096)) mod 4096 = (unat a + i * 4096 mod 2 ^ 32) mod 4096"
    using mod_mod_cancel [OF dvd] by (simp add: unat_word_ariths unat_of_nat take_bit_eq_mod del: of_nat_mult)
  also have "\<dots> = (unat a mod 4096 + (i * 4096 mod 2 ^ 32) mod 4096) mod 4096"
    by (simp add: mod_add_eq)
  also have "(i * 4096 mod 2 ^ 32) mod 4096 = (0 :: nat)"
    by (subst mod_mod_cancel [OF dvd]) simp
  finally show ?thesis
    using assms by (simp add: aligned_unat)
qed

text \<open>
  The table is apart from the directory; the entries \<open>i\<close> to \<open>i + n - 1\<close> are written, the directory
  entry keeps its table, nothing outside the two is touched.
\<close>

lemma map_loop_ok:
  assumes "is_aligned dir" and "di < 1024" and "is_aligned tbl" and "frame_of tbl \<noteq> frame_of dir"
    and "is_aligned virt" and "is_aligned phys" and "flags AND PG_FRAME = 0" and "i + n \<le> 1024"
    and "entry st dir di AND PG_FRAME = tbl" and "entry st dir di AND PG_PRESENT \<noteq> 0"
  shows "\<exists>st'. map_loop st dir di tbl virt phys flags i n = Inr st' \<and> pg_pmm st' = pg_pmm st \<and>
    entry st' dir di AND PG_FRAME = tbl \<and> entry st' dir di AND PG_PRESENT \<noteq> 0 \<and>
    (\<forall>k<1024. entry st' tbl k = (if i \<le> k \<and> k < i + n
       then (phys + of_nat k * 0x1000) OR PG_PRESENT OR flags else entry st tbl k)) \<and>
    (\<forall>a. frame_of a \<noteq> frame_of tbl \<longrightarrow> a \<noteq> entry_addr dir di \<longrightarrow> pg_mem st' a = pg_mem st a)"
  using assms
proof (induction n arbitrary: st i)
  case (Suc n)
  obtain b where b: "pg_is_mapped st dir (virt + of_nat i * 0x1000) = Inr b"
    using aligned_add [OF Suc.prems(5)] by (simp add: pg_is_mapped_def pg_tbl_exists_def Let_def)
  define st1 where "st1 = (if b \<noteq> 0
             then let s = set_entry st tbl i (entry st tbl i OR flags)
                  in set_entry s dir di (entry s dir di OR flags)
             else st)"
  define st2 where "st2 = set_entry st1 tbl i ((phys + of_nat i * 0x1000) OR PG_PRESENT OR flags)"
  have run: "map_loop st dir di tbl virt phys flags i (Suc n) = map_loop st2 dir di tbl virt phys flags (i + 1) n"
    using b by (simp add: st1_def st2_def Let_def)
  have i: "i < 1024" using Suc.prems(8) by simp
  note fb = flag_bits [OF aligned_add [OF Suc.prems(6)] Suc.prems(7)]
  have dir2: "entry st2 dir di AND PG_FRAME = tbl" "entry st2 dir di AND PG_PRESENT \<noteq> 0"
    using Suc.prems i fb(3,4)
    by (auto simp: st2_def st1_def Let_def entry_set_entry entry_set_other simp del: bit.conj_disj_distrib2)
  have tbl2: "entry st2 tbl k = (if k = i then (phys + of_nat i * 0x1000) OR PG_PRESENT OR flags
      else entry st tbl k)" if "k < 1024" for k
    using Suc.prems i that by (simp add: st2_def st1_def Let_def entry_set_entry entry_set_other)
  have mem2: "pg_mem st2 a = pg_mem st a" if "frame_of a \<noteq> frame_of tbl" "a \<noteq> entry_addr dir di" for a
  proof -
    have "a \<noteq> entry_addr tbl i" using that(1) frame_of_entry [OF Suc.prems(3) i] by auto
    then show ?thesis using that(2) by (simp add: st2_def st1_def Let_def set_entry_def)
  qed
  have pm2: "pg_pmm st2 = pg_pmm st" by (simp add: st2_def st1_def Let_def)
  obtain st' where st': "map_loop st2 dir di tbl virt phys flags (i + 1) n = Inr st'"
      "pg_pmm st' = pg_pmm st2" "entry st' dir di AND PG_FRAME = tbl" "entry st' dir di AND PG_PRESENT \<noteq> 0"
      "\<forall>k<1024. entry st' tbl k = (if i + 1 \<le> k \<and> k < i + 1 + n
         then (phys + of_nat k * 0x1000) OR PG_PRESENT OR flags else entry st2 tbl k)"
      "\<forall>a. frame_of a \<noteq> frame_of tbl \<longrightarrow> a \<noteq> entry_addr dir di \<longrightarrow> pg_mem st' a = pg_mem st2 a"
    using Suc.IH [of "i + 1" st2] Suc.prems dir2 by auto
  show ?case
    unfolding run using st' pm2 tbl2 mem2 by (intro exI [of _ st']) auto
qed auto

lemma dir_page:
  assumes "unat virt mod 4194304 = 0" and "i < 1024"
  shows "dir_index (virt + of_nat i * 0x1000) = dir_index virt"
    and "table_index (virt + of_nat i * 0x1000) = i"
proof -
  obtain q where q: "unat virt = 4194304 * q"
    using assms(1) by (auto simp: mod_eq_0_iff_dvd elim: dvdE)
  then have "q < 1024" using unat_u32_less [of virt] by simp
  then have "unat (virt + of_nat (i * 4096)) = unat virt + i * 4096"
    using unat_add_of_nat [of virt "i * 4096"] q assms(2) by simp
  then have "unat (virt + of_nat i * 0x1000) = 4194304 * q + i * 4096"
    using q by simp
  moreover have "(4194304 * q + i * 4096) div 4096 = i + 1024 * q" by simp
  ultimately show "dir_index (virt + of_nat i * 0x1000) = dir_index virt"
    and "table_index (virt + of_nat i * 0x1000) = i"
    using q assms(2) by (simp_all add: dir_index_div table_index_div)
qed

lemma ucast_present: "e AND PG_PRESENT \<noteq> 0 \<Longrightarrow> (ucast (e AND PG_PRESENT) :: u8) \<noteq> 0"
  using bit_mask_test [of e 0] by (auto simp: bit_eq_iff bit_simps intro!: exI [of _ 0])

lemma pg_map_pages_run:
  assumes "is_aligned dir" and "is_aligned virt" and "is_aligned phys"
    and "flags AND PG_FRAME = 0" and "unat num \<le> 1024"
    and "entry st dir (dir_index virt) AND PG_PRESENT \<noteq> 0"
    and "frame_of (entry st dir (dir_index virt) AND PG_FRAME) \<noteq> frame_of dir"
  obtains st' where "pg_map_pages st dir virt phys num flags = Inr st'"
    and "entry st' dir (dir_index virt) AND PG_FRAME = entry st dir (dir_index virt) AND PG_FRAME"
    and "entry st' dir (dir_index virt) AND PG_PRESENT \<noteq> 0"
    and "\<forall>k<1024. entry st' (entry st dir (dir_index virt) AND PG_FRAME) k =
      (if k < unat num then (phys + of_nat k * 0x1000) OR PG_PRESENT OR flags
       else entry st (entry st dir (dir_index virt) AND PG_FRAME) k)"
    and "\<forall>a. frame_of a \<noteq> frame_of (entry st dir (dir_index virt) AND PG_FRAME) \<longrightarrow>
      a \<noteq> entry_addr dir (dir_index virt) \<longrightarrow> pg_mem st' a = pg_mem st a"
proof -
  let ?di = "dir_index virt"
  let ?tbl = "entry st dir ?di AND PG_FRAME"
  obtain st' where st': "map_loop st dir ?di ?tbl virt phys flags 0 (unat num) = Inr st'"
      "entry st' dir ?di AND PG_FRAME = ?tbl" "entry st' dir ?di AND PG_PRESENT \<noteq> 0"
      "\<forall>k<1024. entry st' ?tbl k = (if 0 \<le> k \<and> k < 0 + unat num
         then (phys + of_nat k * 0x1000) OR PG_PRESENT OR flags else entry st ?tbl k)"
      "\<forall>a. frame_of a \<noteq> frame_of ?tbl \<longrightarrow> a \<noteq> entry_addr dir ?di \<longrightarrow> pg_mem st' a = pg_mem st a"
    using map_loop_ok [OF assms(1) index_less(1) aligned_frame assms(7,2,3,4) _ refl assms(6), of 0 "unat num"]
      assms(5) by auto
  have "pg_map_pages st dir virt phys num flags = Inr st'"
    using assms(2,3) st'(1) ucast_present [OF assms(6)] by (simp add: pg_map_pages_def pg_tbl_exists_def Let_def)
  from that [OF this st'(2,3)] st'(4,5) show thesis by simp
qed



text \<open>
  A page whose address does not start a directory entry is not mapped by mapping it: the entry
  at the start of the table is written instead of the page's own.
\<close>

theorem pg_map_pages_misplaced:
  assumes "is_aligned dir" and "is_aligned virt" and "table_index virt \<noteq> 0" and "is_aligned phys"
    and "flags AND PG_FRAME = 0" and "pg_is_mapped st dir virt = Inr 0"
    and "entry st dir (dir_index virt) AND PG_PRESENT \<noteq> 0"
    and "frame_of (entry st dir (dir_index virt) AND PG_FRAME) \<noteq> frame_of dir"
  shows "\<exists>st'. pg_map_pages st dir virt phys 1 flags = Inr st' \<and> pg_is_mapped st' dir virt = Inr 0"
proof -
  let ?di = "dir_index virt"
  let ?tbl = "entry st dir ?di AND PG_FRAME"
  obtain st' where run: "pg_map_pages st dir virt phys 1 flags = Inr st'"
    and st': "entry st' dir ?di AND PG_FRAME = ?tbl" "entry st' dir ?di AND PG_PRESENT \<noteq> 0"
      "\<forall>k<1024. entry st' ?tbl k = (if k < unat 1
         then (phys + of_nat k * 0x1000) OR PG_PRESENT OR flags else entry st ?tbl k)"
    by (rule pg_map_pages_run [OF assms(1,2,4,5) _ assms(7,8), where num = 1]) auto
  have "entry st' ?tbl (table_index virt) = entry st ?tbl (table_index virt)"
    using st'(3) index_less(2) assms(3) by auto
  then have "pg_is_mapped st' dir virt = Inr 0"
    using assms(2,6) st'(1,2) ucast_present [OF assms(7)] ucast_present [OF st'(2)]
    by (simp add: pg_is_mapped_def pg_tbl_exists_def Let_def split: if_splits)
  then show ?thesis using run by blast
qed

theorem pg_map_pages_misplaced_witness:
  "\<exists>st'. pg_map_pages \<lparr>pg_mem = (\<lambda>a. if a = 0x1004 then 0x2003 else 0), pg_pmm = demo_pmm,
      pg_cur_dir = 0x1000, pg_cr0 = 0, pg_cr3 = 0\<rparr> 0x1000 0x401000 0x800000 1 PG_RW = Inr st' \<and>
    pg_is_mapped st' 0x1000 0x401000 = Inr 0"
  by (rule pg_map_pages_misplaced)
    (simp_all add: is_aligned_def dir_index_def table_index_def entry_def entry_addr_def frame_of_def
      pg_is_mapped_def pg_tbl_exists_def Let_def)

text \<open>Unmapping frees the frame \<^verbatim>\<open>tbl[i] | PG_FRAME\<close>, which is past the bitmap.\<close>

lemma pg_unmap_pages_wild:
  assumes "is_aligned virt" and "entry st dir (dir_index virt) AND PG_PRESENT \<noteq> 0" and "num \<noteq> 0"
    and "length (pm_frames (pg_pmm st)) = frames_words"
  shows "pg_unmap_pages st dir virt num = Inl Wild_access"
proof -
  let ?tbl = "entry st dir (dir_index virt) AND PG_FRAME"
  obtain n where n: "unat num = Suc n" using assms(3) by (metis not0_implies_Suc unat_eq_0)
  have "PG_FRAME \<le> e OR PG_FRAME" for e :: u32 by (metis or.commute word_le_nat_alt le_word_or1)
  then have le: "4294963200 \<le> unat (e OR PG_FRAME)" for e :: u32
    by (simp add: word_le_nat_alt)
  have "frames_words \<le> unat ((e OR PG_FRAME) div 4096) div 32" for e :: u32
    using div_le_mono [OF le [of e], of 131072] by (simp add: unat_div div_mult2_eq [symmetric] frames_words_def)
  then have "frame_free (pg_pmm st) (e OR PG_FRAME) = Inl Wild_access" for e
    using assms(4) by (simp add: frame_free_def frame_bmp_reset_def get_at_wild Let_def)
  moreover have "e OR PG_PRESENT \<noteq> 0" for e :: u32
    by (metis or_eq_0_iff zero_neq_one)
  ultimately show ?thesis
    using assms(1) ucast_present [OF assms(2)] n by (simp add: pg_unmap_pages_def pg_tbl_exists_def)
qed

section \<open>Cloning\<close>

lemma pg_frame_alloc_ok:
  assumes "pmm_inv (pg_pmm st)" and "0 < frames.n_free (pg_pmm st)"
  obtains f pm where "pg_frame_alloc st = Inr (of_nat (f * 4096), st\<lparr>pg_pmm := pm\<rparr>)"
    and "\<not> frame_used (pg_pmm st) f" and "is_aligned (of_nat (f * 4096))"
    and "frame_of (of_nat (f * 4096)) = f" and "pmm_inv pm"
    and "\<forall>g. frame_used pm g \<longleftrightarrow> g = f \<or> frame_used (pg_pmm st) g"
    and "frames.n_free (pg_pmm st) = Suc (frames.n_free pm)"
proof -
  obtain f pm where 1: "frame_alloc (pg_pmm st) = Inr (of_nat (f * 4096), pm)" "f < frame_limit (pg_pmm st)"
      "\<not> frame_used (pg_pmm st) f" "\<forall>g<f. frame_used (pg_pmm st) g" "pmm_inv pm"
      "frame_limit pm = frame_limit (pg_pmm st)"
      "\<forall>g. frame_used pm g \<longleftrightarrow> g = f \<or> frame_used (pg_pmm st) g"
      "frames.n_free (pg_pmm st) = Suc (frames.n_free pm)"
    by (rule frames.alloc_ok [OF assms])
  have "f * 4096 < 2 ^ 32" using frame_limit_bound(1) [OF assms(1)] 1(2) by simp
  from that [OF _ 1(3) aligned_frame_addr [OF this] 1(5,7,8)] 1(1) show thesis
    by (simp add: pg_frame_alloc_def)
qed

text \<open>\<open>same_on_used\<close>: the frames in use keep their contents.\<close>

definition same_on_used :: "pg_state \<Rightarrow> pg_state \<Rightarrow> bool" where
  "same_on_used st st' \<longleftrightarrow> (\<forall>a. frame_used (pg_pmm st) (frame_of a) \<longrightarrow> pg_mem st' a = pg_mem st a)"

lemma pg_clone_page_table_ok:
  assumes "pmm_inv (pg_pmm st)" and "0 < frames.n_free (pg_pmm st)"
    and "frame_used (pg_pmm st) (frame_of (tbl AND PG_FRAME))"
  obtains t st' where "pg_clone_page_table st tbl = Inr (t OR (tbl AND PG_FLAGS), st')" and "is_aligned t"
    and "\<not> frame_used (pg_pmm st) (frame_of t)" and "frame_used (pg_pmm st') (frame_of t)"
    and "\<forall>k<1024. entry st' t k = entry st (tbl AND PG_FRAME) k" and "same_on_used st st'"
    and "pmm_inv (pg_pmm st')" and "frames.n_free (pg_pmm st) = Suc (frames.n_free (pg_pmm st'))"
    and "\<forall>g. frame_used (pg_pmm st) g \<longrightarrow> frame_used (pg_pmm st') g"
proof -
  obtain f pm where f: "pg_frame_alloc st = Inr (of_nat (f * 4096), st\<lparr>pg_pmm := pm\<rparr>)"
      "\<not> frame_used (pg_pmm st) f" "is_aligned (of_nat (f * 4096))" "frame_of (of_nat (f * 4096)) = f"
      "pmm_inv pm" "\<forall>g. frame_used pm g \<longleftrightarrow> g = f \<or> frame_used (pg_pmm st) g"
      "frames.n_free (pg_pmm st) = Suc (frames.n_free pm)"
    by (rule pg_frame_alloc_ok [OF assms(1,2)])
  define t where "t = (of_nat (f * 4096) :: u32)"
  define st' where "st' = copy_entries (st\<lparr>pg_pmm := pm\<rparr>) t (tbl AND PG_FRAME) 0 1024"
  have ne: "frame_of t \<noteq> frame_of (tbl AND PG_FRAME)" using f(2,4) assms(3) unfolding t_def by metis
  note cp = copy_entries_mem [OF f(3) [folded t_def] aligned_frame ne,
      where i = 0 and n = 1024 and st = "st\<lparr>pg_pmm := pm\<rparr>", simplified]
  have pmm: "pg_pmm st' = pm" unfolding st'_def using cp(3) by simp
  have mem: "pg_mem st' a = pg_mem st a" if "frame_of a \<noteq> frame_of t" for a
    unfolding st'_def using cp(2) [of a] that by simp
  have "entry st' t k = entry st (tbl AND PG_FRAME) k" if "k < 1024" for k
    unfolding st'_def using cp(1) [of k] that by (simp add: entry_def)
  moreover have "same_on_used st st'"
    unfolding same_on_used_def using mem f(2,4) unfolding t_def by metis
  ultimately show thesis
    using that [of t st'] f pmm unfolding pg_clone_page_table_def t_def st'_def by simp
qed

definition present :: "pg_state \<Rightarrow> u32 \<Rightarrow> nat \<Rightarrow> bool" where
  "present st dir k \<longleftrightarrow> entry st dir k AND PG_PRESENT \<noteq> 0"

definition tbl_of :: "pg_state \<Rightarrow> u32 \<Rightarrow> nat \<Rightarrow> u32" where
  "tbl_of st dir k = entry st dir k AND PG_FRAME"

text \<open>Entry \<open>k\<close> of the new directory names a new frame with the contents of the old table.\<close>

definition cloned :: "pg_state \<Rightarrow> u32 \<Rightarrow> pg_state \<Rightarrow> u32 \<Rightarrow> nat \<Rightarrow> bool" where
  "cloned st dir st' new k \<longleftrightarrow> (\<exists>t. is_aligned t \<and> \<not> frame_used (pg_pmm st) (frame_of t) \<and>
     entry st' new k = t OR (entry st dir k AND PG_FLAGS) \<and>
     (\<forall>j<1024. entry st' t j = entry st (tbl_of st dir k) j))"

definition clone_pre :: "pg_state \<Rightarrow> u32 \<Rightarrow> u32 \<Rightarrow> nat \<Rightarrow> nat \<Rightarrow> bool" where
  "clone_pre st dir new i n \<longleftrightarrow> pmm_inv (pg_pmm st) \<and> i + n \<le> 1024 \<and>
     frame_used (pg_pmm st) (frame_of dir) \<and> frame_used (pg_pmm st) (frame_of new) \<and>
     (\<forall>k<1024. present st dir k \<longrightarrow> frame_used (pg_pmm st) (frame_of (tbl_of st dir k)) \<and>
        frame_of (tbl_of st dir k) \<noteq> frame_of new) \<and>
     length (filter (present st dir) [i..<i + n]) \<le> frames.n_free (pg_pmm st)"

lemma clone_loop_ok:
  assumes "is_aligned dir" and "is_aligned new" and "frame_of dir \<noteq> frame_of new"
    and "clone_pre st dir new i n"
  shows "\<exists>st'. clone_loop st dir new i n = Inr st' \<and>
    (\<forall>a. frame_used (pg_pmm st) (frame_of a) \<longrightarrow> frame_of a \<noteq> frame_of new \<longrightarrow> pg_mem st' a = pg_mem st a) \<and>
    (\<forall>k<1024. i \<le> k \<and> k < i + n \<and> present st dir k \<longrightarrow> cloned st dir st' new k) \<and>
    (\<forall>k<1024. \<not> (i \<le> k \<and> k < i + n \<and> present st dir k) \<longrightarrow> entry st' new k = entry st new k)"
  using assms(4)
proof (induction n arbitrary: st i)
  case (Suc n)
  have i: "i < 1024" using Suc.prems by (simp add: clone_pre_def)
  have upt: "[i..<i + Suc n] = i # [i + 1..<(i + 1) + n]" by (simp add: upt_conv_Cons del: upt_Suc)
  show ?case
  proof (cases "present st dir i")
    case False
    then have "clone_pre st dir new (i + 1) n"
      using Suc.prems unfolding clone_pre_def upt by simp
    from Suc.IH [OF this] obtain st' where st': "clone_loop st dir new (i + 1) n = Inr st'"
      "\<forall>a. frame_used (pg_pmm st) (frame_of a) \<longrightarrow> frame_of a \<noteq> frame_of new \<longrightarrow> pg_mem st' a = pg_mem st a"
      "\<forall>k<1024. i + 1 \<le> k \<and> k < i + 1 + n \<and> present st dir k \<longrightarrow> cloned st dir st' new k"
      "\<forall>k<1024. \<not> (i + 1 \<le> k \<and> k < i + 1 + n \<and> present st dir k) \<longrightarrow> entry st' new k = entry st new k"
      by blast
    have "i \<le> k \<and> k < i + Suc n \<and> present st dir k \<longleftrightarrow> i + 1 \<le> k \<and> k < i + 1 + n \<and> present st dir k" for k
      using False by (cases "k = i") auto
    then show ?thesis
      using st' False by (intro exI [of _ st']) (simp add: present_def)
  next
    case True
    have used: "frame_used (pg_pmm st) (frame_of dir)" "frame_used (pg_pmm st) (frame_of new)"
        "frame_used (pg_pmm st) (frame_of (tbl_of st dir i))" "pmm_inv (pg_pmm st)"
        "0 < frames.n_free (pg_pmm st)"
      using Suc.prems True i unfolding clone_pre_def upt by auto
    obtain t st1 where t: "pg_clone_page_table st (entry st dir i) = Inr (t OR (entry st dir i AND PG_FLAGS), st1)"
        "is_aligned t" "\<not> frame_used (pg_pmm st) (frame_of t)" "frame_used (pg_pmm st1) (frame_of t)"
        "\<forall>k<1024. entry st1 t k = entry st (tbl_of st dir i) k" "same_on_used st st1"
        "pmm_inv (pg_pmm st1)" "frames.n_free (pg_pmm st) = Suc (frames.n_free (pg_pmm st1))"
        "\<forall>g. frame_used (pg_pmm st) g \<longrightarrow> frame_used (pg_pmm st1) g"
      using pg_clone_page_table_ok [OF used(4,5) used(3) [unfolded tbl_of_def]] unfolding tbl_of_def by metis
    define v where "v = t OR (entry st dir i AND PG_FLAGS)"
    define st2 where "st2 = set_entry st1 new i v"
    define st3 where "st3 = set_entry st2 new i (entry st2 new i OR (entry st2 dir i AND PG_FLAGS))"
    have dir: "entry st1 dir k = entry st dir k" if "k < 1024" for k
      using t(6) used(1) that assms(1) by (intro entry_cong) (auto simp: same_on_used_def)
    have st3e: "st3 = set_entry st2 new i v"
      using dir i assms by (simp add: st3_def st2_def entry_set_entry entry_set_other v_def or.assoc)
    have mem3: "pg_mem st3 a = pg_mem st1 a" if "frame_of a \<noteq> frame_of new" for a
      using that i assms(2) by (simp add: st3e st2_def mem_set_entry)
    have new3: "entry st3 new k = (if k = i then v else entry st1 new k)" if "k < 1024" for k
      using that i assms(2) by (simp add: st3e st2_def entry_set_entry)
    have new1: "entry st1 new k = entry st new k" if "k < 1024" for k
      using t(6) used(2) that assms(2) by (intro entry_cong) (auto simp: same_on_used_def)
    have pm3: "pg_pmm st3 = pg_pmm st1" by (simp add: st3_def st2_def)
    have mem: "pg_mem st3 a = pg_mem st a"
      if "frame_used (pg_pmm st) (frame_of a)" "frame_of a \<noteq> frame_of new" for a
      using mem3 that t(6) by (simp add: same_on_used_def)
    have dir3: "entry st3 dir k = entry st dir k" if "k < 1024" for k
      using that assms(1,3) mem used(1) by (intro entry_cong) auto
    have p3: "present st3 dir k \<longleftrightarrow> present st dir k" "tbl_of st3 dir k = tbl_of st dir k" if "k < 1024" for k
      using dir3 that by (simp_all add: present_def tbl_of_def)
    have tbl3: "entry st3 (tbl_of st dir k) j = entry st (tbl_of st dir k) j"
      if "present st dir k" "k < 1024" "j < 1024" for k j
      using that Suc.prems mem by (intro entry_cong) (auto simp: clone_pre_def tbl_of_def)
    have flt: "filter (present st3 dir) [i + 1..<(i + 1) + n] = filter (present st dir) [i + 1..<(i + 1) + n]"
      using p3(1) Suc.prems by (intro filter_cong) (auto simp: clone_pre_def)
    have "clone_pre st3 dir new (i + 1) n"
      using Suc.prems True t(7,8,9) p3 flt unfolding clone_pre_def upt pm3 by auto
    from Suc.IH [OF this] obtain st' where st': "clone_loop st3 dir new (i + 1) n = Inr st'"
      "\<forall>a. frame_used (pg_pmm st3) (frame_of a) \<longrightarrow> frame_of a \<noteq> frame_of new \<longrightarrow> pg_mem st' a = pg_mem st3 a"
      "\<forall>k<1024. i + 1 \<le> k \<and> k < i + 1 + n \<and> present st3 dir k \<longrightarrow> cloned st3 dir st' new k"
      "\<forall>k<1024. \<not> (i + 1 \<le> k \<and> k < i + 1 + n \<and> present st3 dir k) \<longrightarrow> entry st' new k = entry st3 new k"
      by blast
    have run: "clone_loop st dir new i (Suc n) = Inr st'"
      using True t(1) st'(1) by (simp add: present_def st3_def st2_def v_def Let_def)
    have tn: "frame_of t \<noteq> frame_of new" using t(3) used(2) by auto
    have "entry st' t j = entry st1 t j" if "j < 1024" for j
      using that t(2,4) st'(2) tn mem3 by (intro entry_cong) (auto simp: pm3)
    moreover have "entry st' new i = v"
      using st'(4) i new3 by simp
    ultimately have ci: "cloned st dir st' new i"
      using t(2,3,5) unfolding cloned_def v_def by metis
    have ck: "cloned st dir st' new k" if "cloned st3 dir st' new k" "present st dir k" "k < 1024" for k
      using that t(9) dir3 p3(2) tbl3 unfolding cloned_def pm3 by metis
    have "cloned st dir st' new k" if "k < 1024" "i \<le> k \<and> k < i + Suc n \<and> present st dir k" for k
    proof (cases "k = i")
      case False
      then show ?thesis using that st'(3) p3(1) ck by auto
    qed (use ci in simp)
    moreover have "entry st' new k = entry st new k"
      if "k < 1024" "\<not> (i \<le> k \<and> k < i + Suc n \<and> present st dir k)" for k
    proof -
      have "k \<noteq> i" using that True by auto
      moreover have "\<not> (i + 1 \<le> k \<and> k < i + 1 + n \<and> present st3 dir k)" using that p3(1) by auto
      ultimately show ?thesis using st'(4) that(1) new3 new1 by auto
    qed
    moreover have "pg_mem st' a = pg_mem st a"
      if "frame_used (pg_pmm st) (frame_of a)" "frame_of a \<noteq> frame_of new" for a
      using that mem st'(2) t(9) by (simp add: pm3)
    ultimately show ?thesis using run by blast
  qed
qed auto

text \<open>A page is looked up alike where the directory entry is empty, or leads to a table with the same entries.\<close>

lemma lookup_same:
  assumes "is_aligned virt"
    and "present st dir (dir_index virt) \<Longrightarrow>
      is_aligned t \<and> entry st' new (dir_index virt) = t OR (entry st dir (dir_index virt) AND PG_FLAGS) \<and>
      (\<forall>j<1024. entry st' t j = entry st (tbl_of st dir (dir_index virt)) j)"
    and "\<not> present st dir (dir_index virt) \<Longrightarrow> entry st' new (dir_index virt) = 0"
  shows "pg_is_mapped st' new virt = pg_is_mapped st dir virt \<and>
    (pg_is_mapped st dir virt = Inr 1 \<longrightarrow> pg_virt_to_phys st' new virt = pg_virt_to_phys st dir virt)"
proof (cases "present st dir (dir_index virt)")
  case True
  let ?k = "dir_index virt"
  note t = assms(2) [OF True]
  have fr: "entry st' new ?k AND PG_FRAME = t" using t aligned_or_flags [of t] by simp
  have pr: "entry st' new ?k AND PG_PRESENT \<noteq> 0"
    using True t bit_mask_test [of "entry st' new ?k" 0] bit_mask_test [of "entry st dir ?k" 0]
    unfolding present_def by (auto simp: bit_simps frame_mask)
  show ?thesis
    using assms(1) True fr pr t index_less(2) ucast_present [OF pr] ucast_present [of "entry st dir ?k"]
    by (simp add: pg_is_mapped_def pg_virt_to_phys_def pg_tbl_exists_def Let_def present_def tbl_of_def)
next
  case False
  then show ?thesis
    using assms(1,3) by (simp add: pg_is_mapped_def pg_tbl_exists_def present_def Let_def)
qed

text \<open>The cleared directory in a new frame, ready for the tables.\<close>

lemma new_directory:
  assumes "is_aligned dir" and "pmm_inv (pg_pmm st)" and "frame_used (pg_pmm st) (frame_of dir)"
    and "\<forall>k<1024. present st dir k \<longrightarrow> frame_used (pg_pmm st) (frame_of (tbl_of st dir k))"
    and "length (filter (present st dir) [0..<1024]) < frames.n_free (pg_pmm st)"
  obtains new st1 where "pg_clone_page_dir st dir = rbind (clone_loop st1 dir new 0 1024) (\<lambda>st2. Inr (new, st2))"
    and "is_aligned new" and "\<not> frame_used (pg_pmm st) (frame_of new)" and "frame_of dir \<noteq> frame_of new"
    and "same_on_used st st1" and "\<forall>g. frame_used (pg_pmm st) g \<longrightarrow> frame_used (pg_pmm st1) g"
    and "\<forall>k<1024. entry st1 new k = 0" and "clone_pre st1 dir new 0 1024"
proof -
  have "0 < frames.n_free (pg_pmm st)" using assms(5) by simp
  then obtain f pm where f: "pg_frame_alloc st = Inr (of_nat (f * 4096), st\<lparr>pg_pmm := pm\<rparr>)"
      "\<not> frame_used (pg_pmm st) f" "is_aligned (of_nat (f * 4096))" "frame_of (of_nat (f * 4096)) = f"
      "pmm_inv pm" "\<forall>g. frame_used pm g \<longleftrightarrow> g = f \<or> frame_used (pg_pmm st) g"
      "frames.n_free (pg_pmm st) = Suc (frames.n_free pm)"
    by (rule pg_frame_alloc_ok [OF assms(2)])
  define new where "new = (of_nat (f * 4096) :: u32)"
  define st1 where "st1 = fill_entries (st\<lparr>pg_pmm := pm\<rparr>) new 0 0 1024"
  note fl = fill_entries_mem [OF f(3) [folded new_def], where i = 0 and n = 1024 and v = 0
      and st = "st\<lparr>pg_pmm := pm\<rparr>", simplified, folded st1_def]
  have new: "is_aligned new" "\<not> frame_used (pg_pmm st) (frame_of new)" "frame_of dir \<noteq> frame_of new"
    using f(2,3,4) assms(3) unfolding new_def by metis+
  have mem1: "pg_mem st1 a = pg_mem st a" if "frame_used (pg_pmm st) (frame_of a)" for a
    using fl(2) [of a] new(2) that by metis
  have "entry st1 dir k = entry st dir k" if "k < 1024" for k
    using that assms(1,3) mem1 by (intro entry_cong) auto
  then have p1: "present st1 dir k \<longleftrightarrow> present st dir k" "tbl_of st1 dir k = tbl_of st dir k" if "k < 1024" for k
    using that by (simp_all add: present_def tbl_of_def)
  have "filter (present st1 dir) [0..<1024] = filter (present st dir) [0..<1024]"
    using p1(1) by (intro filter_cong) auto
  then have "clone_pre st1 dir new 0 1024"
    using assms(3,4,5) f(4-7) p1 new(2) unfolding clone_pre_def fl(3) new_def by auto
  moreover have "pg_clone_page_dir st dir = rbind (clone_loop st1 dir new 0 1024) (\<lambda>st2. Inr (new, st2))"
    using f(1) by (simp add: pg_clone_page_dir_def st1_def new_def)
  ultimately show thesis
    using that [of st1 new] new mem1 fl(1,3) f(6) by (simp add: same_on_used_def)
qed


text \<open>A directory at \<open>0x1000\<close> with one table at \<open>0x2000\<close> that maps the page at 4 MiB to 8 MiB.\<close>

definition demo_pg :: pg_state where
  "demo_pg = \<lparr>pg_mem = (\<lambda>a. if a = 0x1004 then 0x2003 else if a = 0x2000 then 0x800003 else 0),
     pg_pmm = demo_pmm, pg_cur_dir = 0x1000, pg_cr0 = 0, pg_cr3 = 0x1000\<rparr>"

lemma demo_pg_present:
  assumes "k < 1024"
  shows "present demo_pg 0x1000 k \<longleftrightarrow> k = 1"
proof -
  have al: "is_aligned 0x1000" by (simp add: is_aligned_def)
  have "unat (entry_addr 0x1000 k) = 0x1000 + 4 * k"
    using unat_entry_addr [OF al assms] by simp
  then have "entry_addr 0x1000 k = 0x1004 \<longleftrightarrow> k = 1" and "entry_addr 0x1000 k \<noteq> 0x2000"
    using assms by (auto simp: word_unat_eq_iff)
  then show ?thesis by (simp add: present_def entry_def demo_pg_def)
qed


end
