(* ===== verification/Mmu.thy ===== *)
theory Mmu
  imports Paging Libk_String
begin

text \<open>
  The page tables as the processor reads them: what an address of the current address space means in
  physical memory, the functions of \<^verbatim>\<open>libk/string.c\<close> that write through it, and how \<^verbatim>\<open>pg_alloc\<close> changes it. The
  kernel's own memory is mapped to itself in every directory (\<^verbatim>\<open>pg_init\<close>), which is why the other theories
  work on one flat memory; what is loaded at the addresses of a user program is not.
\<close>

section \<open>Translation\<close>

text \<open>The walk of the processor from the directory in \<open>cr3\<close>, with paging on.\<close>

definition translate :: "pg_state \<Rightarrow> u32 \<Rightarrow> u32 option" where
  "translate st a =
     (let de = entry st (pg_cr3 st AND PG_FRAME) (dir_index a) in
      if de AND PG_PRESENT = 0 then None
      else let te = entry st (de AND PG_FRAME) (table_index a) in
        if te AND PG_PRESENT = 0 then None
        else Some ((te AND PG_FRAME) OR (a AND PG_FLAGS)))"

definition phys_of :: "pg_state \<Rightarrow> u32 \<Rightarrow> u32" where
  "phys_of st a = (case translate st a of None \<Rightarrow> 0 | Some p \<Rightarrow> p)"

definition mapped :: "pg_state \<Rightarrow> u32 \<Rightarrow> nat \<Rightarrow> bool" where
  "mapped st a n \<longleftrightarrow> list_all (\<lambda>i. translate st (a + of_nat i) \<noteq> None) [0..<n]"

text \<open>What the current address space holds, for physical memory \<open>m\<close>; only mapped addresses matter.\<close>

definition view :: "pg_state \<Rightarrow> mem \<Rightarrow> mem" where
  "view st m = (\<lambda>a. m (phys_of st a))"

section \<open>Copying and filling\<close>

fun vcopy_up :: "pg_state \<Rightarrow> mem \<Rightarrow> u32 \<Rightarrow> u32 \<Rightarrow> nat \<Rightarrow> mem" where
  "vcopy_up st m d s 0 = m"
| "vcopy_up st m d s (Suc n) = vcopy_up st (m(phys_of st d := m (phys_of st s))) (d + 1) (s + 1) n"

fun vfill :: "pg_state \<Rightarrow> mem \<Rightarrow> u32 \<Rightarrow> u8 \<Rightarrow> nat \<Rightarrow> mem" where
  "vfill st m p v 0 = m"
| "vfill st m p v (Suc n) = vfill st (m(phys_of st p := v)) (p + 1) v n"

text \<open>An access to a page that is not mapped ends the run, so the test may come before the loop.\<close>

definition vmemcpy :: "pg_state \<Rightarrow> mem \<Rightarrow> u32 \<Rightarrow> u32 \<Rightarrow> u32 \<Rightarrow> mem res" where
  "vmemcpy st m dest src n =
     (if mapped st src (unat n) \<and> mapped st dest (unat n) then Inr (vcopy_up st m dest src (unat n))
      else Inl Page_fault)"

definition vmemset :: "pg_state \<Rightarrow> mem \<Rightarrow> u32 \<Rightarrow> u8 \<Rightarrow> u32 \<Rightarrow> mem res" where
  "vmemset st m dest v n =
     (if mapped st dest (nat (sint n)) then Inr (vfill st m dest v (nat (sint n))) else Inl Page_fault)"

section \<open>Pages\<close>

lemma mapped_iff: "mapped st a n \<longleftrightarrow> (\<forall>i<n. translate st (a + of_nat i) \<noteq> None)"
  by (auto simp: mapped_def list_all_iff)

lemma phys_of_Some [simp]: "translate st a = Some p \<Longrightarrow> phys_of st a = p"
  by (simp add: phys_of_def)

lemma page_indices:
  assumes "is_aligned v" and "i < 4096"
  shows "unat (v + of_nat i) = unat v + i" and "dir_index (v + of_nat i) = dir_index v"
    and "table_index (v + of_nat i) = table_index v" and "(v + of_nat i) AND PG_FLAGS = of_nat i"
proof -
  obtain q where q: "unat v = 4096 * q" "q < 1048576" using assms(1) by (rule alignedE)
  show u: "unat (v + of_nat i) = unat v + i"
    using unat_add_of_nat [of v i] q assms(2) by simp
  have "(4096 * q + i) div 4096 = q" using assms(2) by simp
  then show "table_index (v + of_nat i) = table_index v"
    using u q by (simp add: table_index_div)
  have "(4096 * q + i) div 4194304 = (4096 * q + i) div 4096 div 1024"
    by (simp add: div_mult2_eq [symmetric])
  also have "\<dots> = 4096 * q div 4194304" using assms(2) by (simp add: div_mult2_eq [of _ 4096 1024, simplified])
  finally show "dir_index (v + of_nat i) = dir_index v"
    using u q by (simp add: dir_index_div)
  have "unat ((v + of_nat i) AND PG_FLAGS) = unat (v + of_nat i) mod 4096"
    unfolding frame_mask by (simp add: take_bit_eq_mask [symmetric] unsigned_take_bit_eq take_bit_eq_mod unat_mod)
  also have "\<dots> = unat (of_nat i :: u32)" using u q assms(2) by (simp add: unat_of_nat_u32)
  finally show "(v + of_nat i) AND PG_FLAGS = of_nat i" by (rule unsigned_word_eqI)
qed

lemma frame_or_offset:
  assumes "is_aligned f" and "i < 4096"
  shows "f OR of_nat i = f + of_nat i"
proof -
  have "of_nat i = of_nat i AND PG_FLAGS"
    using page_indices(4) [of 0 i] assms(2) by (simp add: is_aligned_def)
  then have "f AND of_nat i = (f AND mask 12) AND of_nat i"
    unfolding frame_mask by (metis and.assoc and.commute)
  then have "f AND of_nat i = 0" using assms(1) by (simp add: aligned_mask)
  then show ?thesis by (simp add: disjunctive_add_eq_or)
qed

lemma translate_offset:
  assumes "is_aligned v" and "i < 4096"
  shows "translate st (v + of_nat i) = map_option (\<lambda>f. f + of_nat i) (translate st v)"
proof -
  have z: "v AND PG_FLAGS = 0" using page_indices(4) [OF assms(1), of 0] by simp
  show ?thesis
    using page_indices(2,3,4) [OF assms] frame_or_offset [OF aligned_frame assms(2)]
    by (simp add: translate_def Let_def z)
qed

text \<open>A run of bytes inside one mapped page is a run of bytes of its frame.\<close>

lemma translate_page:
  assumes "is_aligned v" and "translate st v = Some f" and "i < 4096"
  shows "translate st (v + of_nat i) = Some (f + of_nat i)"
  using translate_offset [OF assms(1,3)] assms(2) by simp


lemma vcopy_up_linear:
  assumes "\<And>i. i < n \<Longrightarrow> phys_of st (d + of_nat i) = pd + of_nat i"
    and "\<And>i. i < n \<Longrightarrow> phys_of st (s + of_nat i) = ps + of_nat i"
  shows "vcopy_up st m d s n = copy_up m pd ps n"
  using assms
proof (induction n arbitrary: m d s pd ps)
  case (Suc n)
  have "vcopy_up st m' (d + 1) (s + 1) n = copy_up m' (pd + 1) (ps + 1) n" for m'
    using Suc.prems(1) [of "Suc _"] Suc.prems(2) [of "Suc _"] by (intro Suc.IH) (auto simp: ac_simps)
  then show ?case using Suc.prems(1) [of 0] Suc.prems(2) [of 0] by simp
qed simp

lemma vfill_linear:
  assumes "\<And>i. i < n \<Longrightarrow> phys_of st (p + of_nat i) = pp + of_nat i"
  shows "vfill st m p v n = fill m pp v n"
  using assms
proof (induction n arbitrary: m p pp)
  case (Suc n)
  have "vfill st m' (p + 1) v n = fill m' (pp + 1) v n" for m'
    using Suc.prems [of "Suc _"] by (intro Suc.IH) (auto simp: ac_simps)
  then show ?case using Suc.prems [of 0] by simp
qed simp

section \<open>The walks agree\<close>

lemma ucast_bit0: "(ucast (e AND PG_PRESENT) :: u8) = 0 \<longleftrightarrow> (e :: u32) AND PG_PRESENT = 0"
  using ucast_present [of e] by auto

lemma walk_page:
  assumes "is_aligned virt" and "is_aligned (pg_cr3 st)"
  shows "translate st virt = Some f \<longleftrightarrow>
    pg_is_mapped st (pg_cr3 st) virt = Inr 1 \<and> pg_virt_to_phys st (pg_cr3 st) virt = Inr f"
proof -
  have cr3: "pg_cr3 st AND PG_FRAME = pg_cr3 st"
    using aligned_or_flags [OF assms(2), of 0] by simp
  have z: "virt AND PG_FLAGS = 0" using page_indices(4) [OF assms(1), of 0] by simp
  then show ?thesis
    using assms(1)
    by (auto simp: translate_def Let_def cr3 z pg_is_mapped_def pg_tbl_exists_def pg_virt_to_phys_def ucast_bit0)
qed

text \<open>
  C13. What the kernel computes from the tables is what the processor does: a byte of a page is translated to the
  same byte of a frame exactly if \<^verbatim>\<open>pg_is_mapped\<close> answers 1 for the page and \<^verbatim>\<open>pg_virt_to_phys\<close> gives the frame.
\<close>

theorem page_walks_agree:
  assumes "is_aligned virt" and "is_aligned (pg_cr3 st)" and "i < 4096"
  shows "translate st (virt + of_nat i) = Some (f + of_nat i) \<longleftrightarrow>
    pg_is_mapped st (pg_cr3 st) virt = Inr 1 \<and> pg_virt_to_phys st (pg_cr3 st) virt = Inr f"
  using translate_offset [OF assms(1,3)] walk_page [OF assms(1,2)] by auto

theorem page_walks_agree_witness:
  "translate demo_pg (0x400000 + of_nat 5) = Some (0x800000 + of_nat 5) \<longleftrightarrow>
    pg_is_mapped demo_pg (pg_cr3 demo_pg) 0x400000 = Inr 1 \<and> pg_virt_to_phys demo_pg (pg_cr3 demo_pg) 0x400000 = Inr 0x800000"
  by (rule page_walks_agree) (simp_all add: is_aligned_def demo_pg_def)

section \<open>Allocating a page\<close>

lemma map_loop_regs:
  "map_loop st dir di tbl virt phys flags i n = Inr st' \<Longrightarrow> pg_cr3 st' = pg_cr3 st \<and> pg_cur_dir st' = pg_cur_dir st"
proof (induction n arbitrary: st i)
  case (Suc n)
  then show ?case by (auto simp: Let_def split: if_splits)
qed simp

text \<open>What a successful allocation says: an aligned frame that was free and is used now.\<close>

lemma translate_pmm [simp]: "translate (st\<lparr>pg_pmm := pm\<rparr>) a = translate st a"
  by (simp add: translate_def entry_def Let_def cong: if_cong)

lemma pg_frame_allocE:
  assumes "pmm_inv (pg_pmm st)" and "pg_frame_alloc st = Inr (a, st1)"
  obtains pm where "st1 = st\<lparr>pg_pmm := pm\<rparr>" and "is_aligned a" and "\<not> frame_used (pg_pmm st) (frame_of a)"
    and "pmm_inv pm" and "\<forall>g. frame_used pm g \<longleftrightarrow> g = frame_of a \<or> frame_used (pg_pmm st) g"
proof -
  have "0 < frames.n_free (pg_pmm st)"
  proof (rule ccontr)
    assume "\<not> 0 < frames.n_free (pg_pmm st)"
    then have "\<forall>f<frame_limit (pg_pmm st). frame_used (pg_pmm st) f" by (auto simp: frames.n_free_def)
    from frame_alloc_full [OF assms(1) this] assms(2) show False by (simp add: pg_frame_alloc_def)
  qed
  from pg_frame_alloc_ok [OF assms(1) this] obtain f pm
    where 1: "pg_frame_alloc st = Inr (of_nat (f * 4096), st\<lparr>pg_pmm := pm\<rparr>)" "\<not> frame_used (pg_pmm st) f"
      "is_aligned (of_nat (f * 4096))" "frame_of (of_nat (f * 4096)) = f" "pmm_inv pm"
      "\<forall>g. frame_used pm g \<longleftrightarrow> g = f \<or> frame_used (pg_pmm st) g"
    by metis
  have a: "a = of_nat (f * 4096)" and st1: "st1 = st\<lparr>pg_pmm := pm\<rparr>"
    using 1(1) assms(2) by (simp_all del: of_nat_mult)
  show thesis by (rule that [OF st1]) (use 1 in \<open>simp_all add: a del: of_nat_mult\<close>)
qed

text \<open>
  The page tables a call of \<^verbatim>\<open>pg_alloc\<close> works on: the directory in \<open>cr3\<close> is the current one, its frame is in use, and
  the table for the address, when there is one, has a frame of its own.
\<close>

definition alloc_ready :: "pg_state \<Rightarrow> u32 \<Rightarrow> bool" where
  "alloc_ready st virt \<longleftrightarrow> is_aligned (pg_cur_dir st) \<and> pg_cr3 st = pg_cur_dir st \<and> pmm_inv (pg_pmm st) \<and>
     frame_used (pg_pmm st) (frame_of (pg_cur_dir st)) \<and>
     (entry st (pg_cur_dir st) (dir_index virt) AND PG_PRESENT \<noteq> 0 \<longrightarrow>
      frame_of (entry st (pg_cur_dir st) (dir_index virt) AND PG_FRAME) \<noteq> frame_of (pg_cur_dir st))"

lemma alloc_readyD:
  assumes "alloc_ready st virt"
  shows "is_aligned (pg_cur_dir st)" and "pg_cr3 st = pg_cur_dir st" and "pmm_inv (pg_pmm st)"
    and "frame_used (pg_pmm st) (frame_of (pg_cur_dir st))"
  using assms by (simp_all add: alloc_ready_def)

lemma fill_entries_regs [simp]:
  "pg_cr3 (fill_entries st base v i n) = pg_cr3 st" "pg_cur_dir (fill_entries st base v i n) = pg_cur_dir st"
  by (induction n arbitrary: st i) simp_all

lemma map_pages_regs:
  assumes "pg_map_pages st dir virt phys num flags = Inr st'"
  shows "pg_cr3 st' = pg_cr3 st \<and> pg_cur_dir st' = pg_cur_dir st"
  using assms
  by (auto simp: pg_map_pages_def pg_mk_pgtbl_def pg_frame_alloc_def Let_def split: if_splits dest!: map_loop_regs)

lemma map_pages_table:
  assumes "alloc_ready st virt" and "flags AND PG_FRAME = 0"
    and "pg_map_pages st (pg_cur_dir st) virt phys 1 flags = Inr st'"
  obtains st1 where "pg_map_pages st1 (pg_cur_dir st) virt phys 1 flags = Inr st'"
    and "entry st1 (pg_cur_dir st) (dir_index virt) AND PG_PRESENT \<noteq> 0"
    and "frame_of (entry st1 (pg_cur_dir st) (dir_index virt) AND PG_FRAME) \<noteq> frame_of (pg_cur_dir st)"
    and "translate st virt = None \<Longrightarrow> translate st1 virt = None" and "pg_cr3 st1 = pg_cur_dir st"
proof (cases "entry st (pg_cur_dir st) (dir_index virt) AND PG_PRESENT = 0")
  case False
  with that [OF assms(3)] assms(1) show thesis by (simp add: alloc_ready_def)
next
  case True
  let ?dir = "pg_cur_dir st" and ?di = "dir_index virt"
  note rdy = alloc_readyD [OF assms(1)]
  have al: "is_aligned virt" "is_aligned phys" using assms(3) by (auto simp: pg_map_pages_def split: if_splits)
  have "(ucast (entry st ?dir ?di AND PG_PRESENT) :: u8) = 0" by (simp add: True)
  then obtain t st1 where mk: "pg_mk_pgtbl st ?dir ?di flags = Inr (t, st1)"
    and run: "map_loop st1 ?dir ?di (entry st1 ?dir ?di AND PG_FRAME) virt phys flags 0 1 = Inr st'"
    using assms(3) al by (auto simp: pg_map_pages_def pg_tbl_exists_def Let_def)
  obtain st0 where st0: "pg_frame_alloc st = Inr (t, st0)"
      "st1 = set_entry (fill_entries st0 t 0 0 1024) ?dir ?di (t OR PG_PRESENT OR flags)"
    using mk by (auto simp: pg_mk_pgtbl_def Let_def)
  obtain pm where t: "st0 = st\<lparr>pg_pmm := pm\<rparr>" "is_aligned t" "\<not> frame_used (pg_pmm st) (frame_of t)"
    by (rule pg_frame_allocE [OF rdy(3) st0(1)])
  have ne: "frame_of t \<noteq> frame_of ?dir" using t(3) rdy(4) by auto
  note fb = flag_bits [OF t(2) assms(2)]
  have de: "entry st1 ?dir ?di = t OR PG_PRESENT OR flags"
    by (simp add: st0(2) entry_def set_entry_def)
  have pr: "entry st1 ?dir ?di AND PG_PRESENT \<noteq> 0" and fr: "entry st1 ?dir ?di AND PG_FRAME = t"
    unfolding de using fb by auto
  have zero: "entry st1 t k = 0" if "k < 1024" for k
    using that t(2) ne rdy(1) unfolding st0(2)
    by (subst entry_set_other) (auto simp: index_less fill_entries_mem)
  have cr3: "pg_cr3 st1 = ?dir"
    using rdy(2) by (simp add: st0(2) t(1))
  have "translate st1 virt = None"
    using zero [OF index_less(2)] aligned_or_flags [OF rdy(1), of 0]
    by (simp add: translate_def Let_def cr3 fr)
  moreover have "pg_map_pages st1 ?dir virt phys 1 flags = Inr st'"
    using al run pr ucast_present [OF pr] by (simp add: pg_map_pages_def pg_tbl_exists_def Let_def)
  ultimately show thesis using that pr fr ne cr3 by simp
qed

text \<open>
  One page is allocated: its frame was free. An address that starts a directory entry is mapped to it; another page
  that is not mapped stays so.
\<close>

lemma pg_alloc_ok:
  assumes "alloc_ready st virt" and "pg_alloc st virt flags = Inr (f, st')" and "flags AND PG_FRAME = 0"
  shows "is_aligned virt" and "is_aligned f" and "\<not> frame_used (pg_pmm st) (frame_of f)"
    and "table_index virt = 0 \<Longrightarrow> translate st' virt = Some f"
    and "table_index virt \<noteq> 0 \<Longrightarrow> translate st virt = None \<Longrightarrow> translate st' virt = None"
proof -
  let ?dir = "pg_cur_dir st" and ?di = "dir_index virt"
  note rdy = alloc_readyD [OF assms(1)]
  obtain st0 where st0: "pg_frame_alloc st = Inr (f, st0)" "pg_map_pages st0 (pg_cur_dir st0) virt f 1 flags = Inr st'"
    using assms(2) by (auto simp: pg_alloc_def)
  obtain pm where pm: "st0 = st\<lparr>pg_pmm := pm\<rparr>" "is_aligned f" "\<not> frame_used (pg_pmm st) (frame_of f)"
      "pmm_inv pm" "\<forall>g. frame_used pm g \<longleftrightarrow> g = frame_of f \<or> frame_used (pg_pmm st) g"
    by (rule pg_frame_allocE [OF rdy(3) st0(1)])
  have cur: "pg_cur_dir st0 = ?dir" by (simp add: pm(1))
  have "alloc_ready st0 virt" using assms(1) pm(4,5) by (simp add: alloc_ready_def pm(1) entry_def)
  then obtain st1 where run: "pg_map_pages st1 ?dir virt f 1 flags = Inr st'"
    and pr: "entry st1 ?dir ?di AND PG_PRESENT \<noteq> 0"
    and ne: "frame_of (entry st1 ?dir ?di AND PG_FRAME) \<noteq> frame_of ?dir"
    and keep: "translate st0 virt = None \<Longrightarrow> translate st1 virt = None" and cr3: "pg_cr3 st1 = ?dir"
    using map_pages_table [OF _ assms(3) st0(2)] unfolding cur by blast
  show al: "is_aligned virt" "is_aligned f" "\<not> frame_used (pg_pmm st) (frame_of f)"
    using run pm(3) by (auto simp: pg_map_pages_def split: if_splits)
  let ?tbl = "entry st1 ?dir ?di AND PG_FRAME"
  obtain st2 where 2: "pg_map_pages st1 ?dir virt f 1 flags = Inr st2"
      "entry st2 ?dir ?di AND PG_FRAME = ?tbl" "entry st2 ?dir ?di AND PG_PRESENT \<noteq> 0"
      "\<forall>k<1024. entry st2 ?tbl k = (if k < unat 1
         then (f + of_nat k * 0x1000) OR PG_PRESENT OR flags else entry st1 ?tbl k)"
    by (rule pg_map_pages_run [OF rdy(1) al(1,2) assms(3) _ pr ne, where num = 1]) auto
  have "st2 = st'" using run 2(1) by simp
  note st' = 2(2-4) [unfolded this]
  have cr3': "pg_cr3 st' = ?dir" using map_pages_regs [OF run] cr3 by simp
  have d: "?dir AND PG_FRAME = ?dir" using aligned_or_flags [OF rdy(1), of 0] by simp
  have z: "virt AND PG_FLAGS = 0" using page_indices(4) [OF al(1), of 0] by simp
  note fb = flag_bits [OF al(2) assms(3)]
  show "translate st' virt = Some f" if "table_index virt = 0"
    using st' that fb by (simp add: translate_def Let_def cr3' d z)
  show "translate st' virt = None" if "table_index virt \<noteq> 0" "translate st virt = None"
  proof -
    have "translate st0 virt = None" using that(2) by (simp add: pm(1))
    from keep [OF this] show ?thesis
      using st' that(1) index_less(2) [of virt] pr
      by (simp add: translate_def Let_def cr3 cr3' d split: if_splits)
  qed
qed

end
