(* ===== verification/Data_Lists.thy ===== *)
theory Data_Lists
  imports Prelude
begin

text \<open>
  \<^verbatim>\<open>kernel/ds/list.c\<close>, \<^verbatim>\<open>kernel/ds/ordered_list.c\<close> and \<^verbatim>\<open>kernel/ds/comparator.h\<close>: growing arrays and
  ordered arrays of pointers. An array is the list of the cells of its memory block, so an access
  past the block is a fault; what lies beyond the used cells is garbage. The locale \<open>comparator\<close> is
  the contract of the comparison functions the ordered containers are given.
\<close>

section \<open>Growing arrays\<close>

record 'a dlist =
  dl_data :: "'a list"
  dl_used :: u32
  dl_size :: u32

text \<open>
  The allocator is taken to succeed: \<open>mem n\<close> are \<open>n\<close> cells of fresh memory. A reallocated block
  starts with the cells of the old one.
\<close>

definition list_init :: "(nat \<Rightarrow> 'a list) \<Rightarrow> u32 \<Rightarrow> 'a dlist" where
  "list_init mem n = \<lparr>dl_data = mem (unat (n * 4) div 4), dl_used = 0, dl_size = n\<rparr>"

definition make_list :: "(nat \<Rightarrow> 'a list) \<Rightarrow> u32 \<Rightarrow> 'a dlist" where
  "make_list mem n = list_init mem n"

definition list_realloc :: "(nat \<Rightarrow> 'a list) \<Rightarrow> 'a list \<Rightarrow> u32 \<Rightarrow> 'a list" where
  "list_realloc mem xs nbytes = (let n = unat nbytes div 4 in take n (xs @ mem (n - length xs)))"

definition list_push :: "(nat \<Rightarrow> 'a list) \<Rightarrow> 'a dlist \<Rightarrow> 'a \<Rightarrow> (u32 \<times> 'a dlist) res" where
  "list_push mem l x =
     (let l1 = (if dl_used l = dl_size l
                then let n = dl_size l * 2
                     in l\<lparr>dl_size := n, dl_data := list_realloc mem (dl_data l) (n * 4)\<rparr>
                else l)
      in rbind (put_at (dl_data l1) (unat (dl_used l1)) x) (\<lambda>d.
         let l2 = l1\<lparr>dl_data := d, dl_used := dl_used l1 + 1\<rparr>
         in Inr (dl_used l2 - 1, l2)))"

text \<open>The shifting loop: \<open>n\<close> cells to move, from cell \<open>i\<close> on.\<close>

fun list_shift :: "'a list \<Rightarrow> nat \<Rightarrow> nat \<Rightarrow> 'a list res" where
  "list_shift d i 0 = Inr d"
| "list_shift d i (Suc n) =
     rbind (get_at d (i + 1)) (\<lambda>x. rbind (put_at d i x) (\<lambda>d1. list_shift d1 (i + 1) n))"

definition list_delete :: "'a dlist \<Rightarrow> u32 \<Rightarrow> (u8 \<times> 'a dlist) res" where
  "list_delete l index =
     (if index > dl_used l then Inr (1, l)
      else rbind (list_shift (dl_data l) (unat index) (unat (dl_used l) - unat index)) (\<lambda>d.
        Inr (0, l\<lparr>dl_data := d, dl_used := dl_used l - 1\<rparr>)))"

text \<open>\<^term>\<open>None\<close> is the null pointer.\<close>

definition list_get :: "'a dlist \<Rightarrow> u32 \<Rightarrow> 'a option res" where
  "list_get l index =
     (if index > dl_used l then Inr None
      else rbind (get_at (dl_data l) (unat index)) (\<lambda>x. Inr (Some x)))"

section \<open>Growing arrays as lists\<close>

definition dl_inv :: "'a dlist \<Rightarrow> bool" where
  "dl_inv l \<longleftrightarrow> unat (dl_size l) < 2 ^ 28 \<and> length (dl_data l) = unat (dl_size l) \<and> 0 < dl_size l \<and>
     dl_used l \<le> dl_size l"

definition dl_elems :: "'a dlist \<Rightarrow> 'a list" where
  "dl_elems l = take (unat (dl_used l)) (dl_data l)"

lemma length_dl_elems: "dl_inv l \<Longrightarrow> length (dl_elems l) = unat (dl_used l)"
  by (simp add: dl_inv_def dl_elems_def word_le_nat_alt)

lemma list_push_ok:
  assumes inv: "dl_inv l" and room: "unat (dl_size l) < 2 ^ 27" and mem: "\<And>n. length (mem n) = n"
  shows "\<exists>l'. list_push mem l x = Inr (dl_used l, l') \<and> dl_elems l' = dl_elems l @ [x] \<and> dl_inv l'"
proof -
  define l1 where "l1 = (if dl_used l = dl_size l
    then l\<lparr>dl_size := dl_size l * 2, dl_data := list_realloc mem (dl_data l) (dl_size l * 2 * 4)\<rparr> else l)"
  let ?u = "unat (dl_used l)"
  have u: "?u \<le> unat (dl_size l)" using inv by (simp add: dl_inv_def word_le_nat_alt)
  have s2: "unat (dl_size l * 2) = unat (dl_size l) * 2" "unat (dl_size l * 2 * 4) = unat (dl_size l) * 8"
    using room by (simp_all add: unat_word_ariths)
  have 1: "dl_used l1 = dl_used l" "take ?u (dl_data l1) = dl_elems l"
      "?u < unat (dl_size l1)" "length (dl_data l1) = unat (dl_size l1)" "unat (dl_size l1) < 2 ^ 28"
    using inv u room s2 mem
    by (auto simp: l1_def dl_inv_def dl_elems_def list_realloc_def Let_def word_le_nat_alt word_less_nat_alt
      word_unat_eq_iff)
  have u1: "unat (dl_used l + 1) = ?u + 1"
    using 1(3,5) by (intro unat_Suc_less) simp
  let ?l = "l1\<lparr>dl_data := (dl_data l1)[?u := x], dl_used := dl_used l + 1\<rparr>"
  have "list_push mem l x = Inr (dl_used l, ?l)"
    unfolding list_push_def Let_def l1_def [symmetric] using 1 by simp
  moreover have "dl_elems ?l = dl_elems l @ [x]"
    using 1 u1 by (simp add: dl_elems_def take_Suc_conv_app_nth take_update_cancel)
  moreover have "dl_inv ?l"
    using 1 u1 by (auto simp: dl_inv_def word_le_nat_alt word_less_nat_alt)
  ultimately show ?thesis by blast
qed

lemma list_get_ok: "dl_inv l \<Longrightarrow> unat i < length (dl_elems l) \<Longrightarrow> list_get l i = Inr (Some (dl_elems l ! unat i))"
  by (auto simp: list_get_def dl_inv_def dl_elems_def word_le_nat_alt word_less_nat_alt)

lemma list_shift_ok:
  "i + n < length d \<Longrightarrow> list_shift d i n = Inr (take i d @ take n (drop (i + 1) d) @ drop (i + n) d)"
proof (induction d i n rule: list_shift.induct)
  case (2 d i n)
  have "list_shift d i (Suc n) = list_shift (d[i := d ! (i + 1)]) (i + 1) n"
    using 2 by simp
  also have "\<dots> = Inr (take (i + 1) (d[i := d ! (i + 1)]) @ take n (drop (i + 2) d) @ drop (i + Suc n) d)"
    using 2 by simp
  also have "take (i + 1) (d[i := d ! (i + 1)]) = take i d @ [d ! (i + 1)]"
    using 2 by (simp add: take_Suc_conv_app_nth)
  finally have "list_shift d i (Suc n) =
      Inr (take i d @ (d ! (i + 1) # take n (drop (i + 2) d)) @ drop (i + Suc n) d)" by simp
  moreover have "d ! (i + 1) # take n (drop (i + 2) d) = take (Suc n) (drop (i + 1) d)"
    using 2 by (subst Cons_nth_drop_Suc [of "i + 1" d, symmetric]) auto
  ultimately show ?case by (simp only:)
qed simp

lemma list_delete_ok:
  assumes inv: "dl_inv l" and i: "unat i < length (dl_elems l)" and room: "dl_used l < dl_size l"
  shows "\<exists>l'. list_delete l i = Inr (0, l') \<and> dl_inv l' \<and>
    dl_elems l' = take (unat i) (dl_elems l) @ drop (unat i + 1) (dl_elems l)"
proof -
  let ?u = "unat (dl_used l)"
  let ?d = "dl_data l"
  have u: "unat i < ?u" "?u < length ?d" using inv i room length_dl_elems [OF inv]
    by (auto simp: dl_inv_def word_less_nat_alt)
  have s: "list_shift ?d (unat i) (?u - unat i) =
      Inr (take (unat i) ?d @ take (?u - unat i) (drop (unat i + 1) ?d) @ drop ?u ?d)"
    using u list_shift_ok [of "unat i" "?u - unat i" ?d] by simp
  let ?l = "l\<lparr>dl_data := take (unat i) ?d @ take (?u - unat i) (drop (unat i + 1) ?d) @ drop ?u ?d,
    dl_used := dl_used l - 1\<rparr>"
  have "0 < ?u" using u by simp
  then have u1: "unat (dl_used l - 1) = ?u - 1"
    by (metis One_nat_def Suc_leI unat_1 unat_sub word_le_nat_alt)
  have "list_delete l i = Inr (0, ?l)"
    using s u by (simp add: list_delete_def word_less_nat_alt)
  moreover have "dl_inv ?l"
    using inv u u1 by (auto simp: dl_inv_def word_le_nat_alt)
  moreover have "dl_elems ?l = take (unat i) (dl_elems l) @ drop (unat i + 1) (dl_elems l)"
    using u u1 by (intro nth_equalityI) (auto simp: dl_elems_def nth_append)
  ultimately show ?thesis by blast
qed

section \<open>Comparators\<close>

text \<open>The result is a signed byte; only 0, 1 and -1 are ever tested for.\<close>

definition default_comparator :: "u32 \<Rightarrow> u32 \<Rightarrow> int" where
  "default_comparator x y = (if x = y then 0 else if x > y then 1 else - 1)"

locale comparator =
  fixes cmp :: "'a \<Rightarrow> 'a \<Rightarrow> int"
  assumes eq0: "cmp x y = 0 \<longleftrightarrow> x = y"
    and cases3: "cmp x y = 0 \<or> cmp x y = 1 \<or> cmp x y = - 1"
    and flip: "cmp x y = 1 \<longleftrightarrow> cmp y x = - 1"
    and trans1: "cmp x y = 1 \<Longrightarrow> cmp y z = 1 \<Longrightarrow> cmp x z = 1"
begin

definition le :: "'a \<Rightarrow> 'a \<Rightarrow> bool" where
  "le x y \<longleftrightarrow> cmp x y \<noteq> 1"

lemma le_refl: "le x x"
  using eq0 [of x x] by (simp add: le_def)

lemma not_le: "\<not> le x y \<Longrightarrow> le y x"
  using flip [of x y] by (simp add: le_def)

lemma le_trans: "le x y \<Longrightarrow> le y z \<Longrightarrow> le x z"
  using eq0 cases3 flip trans1 unfolding le_def by metis

end

interpretation addr_cmp: comparator default_comparator
  by unfold_locales (auto simp: default_comparator_def split: if_splits)

section \<open>Ordered arrays\<close>

record 'a olist =
  ol_items :: "'a list"
  ol_size :: u32
  ol_max_size :: u32

text \<open>\<open>null\<close> is the null pointer that \<^verbatim>\<open>memset\<close> leaves in the cells.\<close>

definition ol_create :: "'a \<Rightarrow> u32 \<Rightarrow> 'a olist" where
  "ol_create null max_size =
     \<lparr>ol_items = replicate (unat (max_size * 4) div 4) null, ol_size = 0, ol_max_size = max_size\<rparr>"

definition ol_place_at :: "'a \<Rightarrow> u32 \<Rightarrow> 'a olist" where
  "ol_place_at null max_size =
     \<lparr>ol_items = replicate (unat (max_size * 4) div 4) null, ol_size = 0, ol_max_size = max_size\<rparr>"

text \<open>
  The search reads the cell before it tests the index. \<open>n\<close> is the number of cells left to look at:
  with none left one more cell is still read.
\<close>

fun ol_scan :: "('a \<Rightarrow> 'a \<Rightarrow> int) \<Rightarrow> 'a \<Rightarrow> 'a list \<Rightarrow> nat \<Rightarrow> nat \<Rightarrow> nat res" where
  "ol_scan cmp x d i 0 = rbind (get_at d i) (\<lambda>y. Inr i)"
| "ol_scan cmp x d i (Suc n) =
     rbind (get_at d i) (\<lambda>y. if cmp x y = 1 then ol_scan cmp x d (i + 1) n else Inr i)"

text \<open>The rest of the cells moves up by one; \<open>tmp\<close> is the cell that was overwritten.\<close>

fun ol_shift :: "'a list \<Rightarrow> 'a \<Rightarrow> nat \<Rightarrow> nat \<Rightarrow> 'a list res" where
  "ol_shift d tmp i 0 = Inr d"
| "ol_shift d tmp i (Suc n) =
     rbind (get_at d (i + 1)) (\<lambda>tmp'. rbind (put_at d (i + 1) tmp) (\<lambda>d1. ol_shift d1 tmp' (i + 1) n))"

definition ol_insert :: "'a olist \<Rightarrow> 'a \<Rightarrow> ('a \<Rightarrow> 'a \<Rightarrow> int) \<Rightarrow> 'a olist res" where
  "ol_insert ol x cmp =
     (let n = unat (ol_size ol); d = ol_items ol in
      rbind (ol_scan cmp x d 0 n) (\<lambda>i.
        if i = n then
          rbind (put_at d i x) (\<lambda>d1. Inr (ol\<lparr>ol_items := d1, ol_size := ol_size ol + 1\<rparr>))
        else
          rbind (get_at d i) (\<lambda>tmp. rbind (put_at d i x) (\<lambda>d1.
          rbind (ol_shift d1 tmp i (n - i)) (\<lambda>d2.
          Inr (ol\<lparr>ol_items := d2, ol_size := ol_size ol + 1\<rparr>))))))"

definition ol_find :: "'a olist \<Rightarrow> u32 \<Rightarrow> 'a option res" where
  "ol_find ol index =
     (if index \<ge> ol_size ol then Inr None
      else rbind (get_at (ol_items ol) (unat index)) (\<lambda>x. Inr (Some x)))"

definition ol_remove :: "'a olist \<Rightarrow> u32 \<Rightarrow> 'a olist res" where
  "ol_remove ol index =
     rbind (list_shift (ol_items ol) (unat index) (unat (ol_size ol) - unat index)) (\<lambda>d.
     Inr (ol\<lparr>ol_items := d, ol_size := ol_size ol - 1\<rparr>))"

definition ol_elems :: "'a olist \<Rightarrow> 'a list" where
  "ol_elems ol = take (unat (ol_size ol)) (ol_items ol)"

lemma ol_shift_ok:
  "i + n < length d \<Longrightarrow> ol_shift d tmp i n = Inr (take (i + 1) d @ take n (tmp # drop (i + 1) d) @
     drop (i + n + 1) d)"
proof (induction d tmp i n rule: ol_shift.induct)
  case (2 d tmp i n)
  have "ol_shift d tmp i (Suc n) = ol_shift (d[i + 1 := tmp]) (d ! (i + 1)) (i + 1) n"
    using 2 by simp
  also have "\<dots> = Inr (take (i + 2) (d[i + 1 := tmp]) @ take n (d ! (i + 1) # drop (i + 2) d) @
      drop (i + Suc n + 1) d)"
    using 2 by simp
  also have "take (i + 2) (d[i + 1 := tmp]) = take (i + 1) d @ [tmp]"
    using 2 by (simp add: take_Suc_conv_app_nth)
  also have "d ! (i + 1) # drop (i + 2) d = drop (i + 1) d"
    using 2 by (subst Cons_nth_drop_Suc [of "i + 1" d, symmetric]) auto
  finally show ?case by simp
qed (simp add: append_take_drop_id)

context comparator
begin

lemma scan_ok:
  assumes "i + n < length d"
  shows "\<exists>k. ol_scan cmp x d i n = Inr k \<and> i \<le> k \<and> k \<le> i + n \<and>
    (\<forall>j. i \<le> j \<and> j < k \<longrightarrow> \<not> le x (d ! j)) \<and> (k < i + n \<longrightarrow> le x (d ! k))"
  using assms
proof (induction n arbitrary: i)
  case (Suc n)
  show ?case
  proof (cases "cmp x (d ! i) = 1")
    case True
    obtain k where "ol_scan cmp x d (i + 1) n = Inr k" "i + 1 \<le> k" "k \<le> i + 1 + n"
      "\<forall>j. i + 1 \<le> j \<and> j < k \<longrightarrow> \<not> le x (d ! j)" "k < i + 1 + n \<longrightarrow> le x (d ! k)"
      using Suc.IH [of "i + 1"] Suc.prems by auto
    then show ?thesis
      using True Suc.prems by (intro exI [of _ k]) (auto simp: le_def le_Suc_eq Suc_le_eq elim: le_neq_implies_less)
  next
    case False
    then show ?thesis using Suc.prems by (intro exI [of _ i]) (auto simp: le_def)
  qed
qed auto

lemma insert_ok:
  assumes room: "unat (ol_size ol) < length (ol_items ol)" and wrap: "unat (ol_size ol) + 1 < 2 ^ 32"
    and sorted: "sorted_wrt le (ol_elems ol)"
  shows "\<exists>ol' k. ol_insert ol x cmp = Inr ol' \<and> ol_elems ol' = take k (ol_elems ol) @ x # drop k (ol_elems ol) \<and>
    sorted_wrt le (ol_elems ol') \<and> k \<le> length (ol_elems ol)"
proof -
  let ?n = "unat (ol_size ol)" and ?d = "ol_items ol" and ?e = "ol_elems ol"
  have n1: "unat (ol_size ol + 1) = ?n + 1" using wrap by (intro unat_Suc_less) simp
  have e: "?e ! j = ?d ! j" if "j < ?n" for j using that by (simp add: ol_elems_def)
  have len: "length ?e = ?n" using room by (simp add: ol_elems_def)
  obtain k where k: "ol_scan cmp x ?d 0 ?n = Inr k" "k \<le> ?n" "\<forall>j<k. \<not> le x (?d ! j)"
      "k < ?n \<longrightarrow> le x (?d ! k)"
    using scan_ok [of 0 ?n ?d x] room by auto
  have less: "le y x" if y: "y \<in> set (take k ?e)" for y
  proof -
    obtain j where "j < length (take k ?e)" "y = take k ?e ! j"
      using y unfolding in_set_conv_nth by blast
    then have "j < k" "y = ?e ! j" by simp_all
    then show ?thesis using k(2,3) e not_le by force
  qed
  have more: "le x y" if y: "y \<in> set (drop k ?e)" for y
  proof -
    obtain j where "j < length (drop k ?e)" "y = drop k ?e ! j"
      using y unfolding in_set_conv_nth by blast
    then have j: "k + j < ?n" "y = ?e ! (k + j)" using len k(2) by simp_all
    then have xk: "le x (?e ! k)" using k(4) e by simp
    have "le (?e ! k) y"
    proof (cases j)
      case (Suc j')
      then show ?thesis using sorted j len by (simp add: sorted_wrt_iff_nth_less)
    qed (use j le_refl in simp)
    then show ?thesis using xk le_trans by blast
  qed
  have "sorted_wrt le (take k ?e @ drop k ?e)" using sorted by simp
  then have srt: "sorted_wrt le (take k ?e @ x # drop k ?e)"
    unfolding sorted_wrt_append using less more by (auto intro: le_trans)
  have "\<exists>ol'. ol_insert ol x cmp = Inr ol' \<and> ol_elems ol' = take k ?e @ x # drop k ?e"
  proof (cases "k = ?n")
    case True
    then show ?thesis
      using k(1) room n1 by (simp add: ol_insert_def ol_elems_def Let_def take_Suc_conv_app_nth take_update_cancel)
  next
    case False
    then have kn: "k < ?n" using k(2) by simp
    have "ol_shift (?d[k := x]) (?d ! k) k (?n - k) = Inr (take (k + 1) (?d[k := x]) @
        take (?n - k) (?d ! k # drop (k + 1) (?d[k := x])) @ drop (k + (?n - k) + 1) (?d[k := x]))"
      using kn room by (intro ol_shift_ok) simp
    also have "take (k + 1) (?d[k := x]) = take k ?d @ [x]"
      using kn room by (simp add: take_Suc_conv_app_nth)
    also have "?d ! k # drop (k + 1) (?d[k := x]) = drop k ?d"
      using kn room by (simp add: Cons_nth_drop_Suc)
    finally have "ol_insert ol x cmp = Inr (ol\<lparr>ol_items := (take k ?d @ [x]) @ take (?n - k) (drop k ?d) @
        drop (k + (?n - k) + 1) (?d[k := x]), ol_size := ol_size ol + 1\<rparr>)"
      using k(1) kn room by (simp add: ol_insert_def Let_def)
    then show ?thesis
      using kn room n1 by (simp add: ol_elems_def drop_take Suc_diff_le)
  qed
  then show ?thesis using srt k(2) len by metis
qed

end

section \<open>Properties\<close>

text \<open>
  On a growing array of fewer than 2^27 cells, pushing appends and returns the index where
  the element then is; deleting an index below the count, with a spare cell at the end, removes
  exactly that element and shifts the later ones down.
\<close>

theorem list_push_get_delete:
  assumes "dl_inv l" and "unat (dl_size l) < 2 ^ 27" and "\<And>n. length (mem n) = n"
  shows "\<exists>l'. list_push mem l x = Inr (dl_used l, l') \<and> dl_inv l' \<and> dl_elems l' = dl_elems l @ [x] \<and>
    list_get l' (dl_used l) = Inr (Some x) \<and>
    (dl_used l' < dl_size l' \<longrightarrow> (\<forall>i. unat i < length (dl_elems l') \<longrightarrow>
       (\<exists>l''. list_delete l' i = Inr (0, l'') \<and> dl_inv l'' \<and>
          dl_elems l'' = take (unat i) (dl_elems l') @ drop (unat i + 1) (dl_elems l'))))"
proof -
  obtain l' where l': "list_push mem l x = Inr (dl_used l, l')" "dl_elems l' = dl_elems l @ [x]" "dl_inv l'"
    using list_push_ok [OF assms] by blast
  moreover have "dl_elems l' ! unat (dl_used l) = x"
    unfolding l'(2) length_dl_elems [OF assms(1), symmetric] by simp
  ultimately have "list_get l' (dl_used l) = Inr (Some x)"
    using list_get_ok [OF l'(3), of "dl_used l"] length_dl_elems [OF assms(1)] by simp
  then show ?thesis
    using l' list_delete_ok [OF l'(3)] by blast
qed

theorem list_push_get_delete_witness:
  "let l = \<lparr>dl_data = [10, 11, 0, 0 :: u32], dl_used = 2, dl_size = 4\<rparr> in
   \<exists>l'. list_push (\<lambda>n. replicate n 0) l 12 = Inr (2, l') \<and> dl_inv l' \<and> dl_elems l' = dl_elems l @ [12] \<and>
    list_get l' 2 = Inr (Some 12) \<and>
    (dl_used l' < dl_size l' \<longrightarrow> (\<forall>i. unat i < length (dl_elems l') \<longrightarrow>
       (\<exists>l''. list_delete l' i = Inr (0, l'') \<and> dl_inv l'' \<and>
          dl_elems l'' = take (unat i) (dl_elems l') @ drop (unat i + 1) (dl_elems l'))))"
  using list_push_get_delete [of "\<lparr>dl_data = [10, 11, 0, 0 :: u32], dl_used = 2, dl_size = 4\<rparr>"
    "\<lambda>n. replicate n 0" 12] by (simp add: dl_inv_def Let_def)

text \<open>
  The bound tests accept the index one past the last element: deleting it drops the last element,
  and on an empty list makes the count wrap to the largest word.
\<close>

lemma list_delete_past_end: "list_delete l (dl_used l) = Inr (0, l\<lparr>dl_used := dl_used l - 1\<rparr>)"
  by (simp add: list_delete_def)

text \<open>
  C15. Inserting with the default comparator into a sorted ordered array that has a spare cell
  keeps it sorted and adds exactly the new item.
\<close>

theorem ol_insert_sorted:
  assumes "unat (ol_size ol) < length (ol_items ol)" and "unat (ol_size ol) + 1 < 2 ^ 32"
    and "sorted_wrt (\<le>) (ol_elems ol)"
  shows "\<exists>ol' k. ol_insert ol x default_comparator = Inr ol' \<and>
    ol_elems ol' = take k (ol_elems ol) @ x # drop k (ol_elems ol) \<and> sorted_wrt (\<le>) (ol_elems ol')"
proof -
  have "addr_cmp.le = (\<le>)"
    by (intro ext) (auto simp: addr_cmp.le_def default_comparator_def)
  then show ?thesis
    using addr_cmp.insert_ok [OF assms(1,2), of x] assms(3) by auto
qed

theorem ol_insert_sorted_witness:
  "let ol = \<lparr>ol_items = [3, 9, 0, 0 :: u32], ol_size = 2, ol_max_size = 4\<rparr> in
   \<exists>ol' k. ol_insert ol 5 default_comparator = Inr ol' \<and>
    ol_elems ol' = take k (ol_elems ol) @ 5 # drop k (ol_elems ol) \<and> sorted_wrt (\<le>) (ol_elems ol')"
  unfolding Let_def by (rule ol_insert_sorted) (simp_all add: ol_elems_def)

text \<open>A full ordered array is read past its end by an insertion of a larger item.\<close>

lemma ol_insert_full:
  assumes "unat (ol_size ol) = length (ol_items ol)" and "\<forall>y\<in>set (ol_items ol). y < x"
  shows "ol_insert ol x default_comparator = Inl Wild_access"
proof -
  have "ol_scan default_comparator x d i n = Inl Wild_access"
    if "i + n = length d" "\<forall>y\<in>set d. y < x" for d i n
    using that
  proof (induction n arbitrary: i)
    case (Suc n)
    then have "d ! i < x" by (auto intro: nth_mem)
    then have "default_comparator x (d ! i) = 1" by (auto simp: default_comparator_def)
    then show ?case using Suc by simp
  qed (simp add: get_at_wild)
  then show ?thesis using assms by (simp add: ol_insert_def)
qed

end
