(* ===== verification/Data_Bst.thy ===== *)
theory Data_Bst
  imports Data_Lists Pmm "HOL-Library.Tree"
begin

text \<open>
  \<^verbatim>\<open>kernel/ds/BST.c\<close>: binary search trees of pointers, as nodes in a typed store whose memory comes
  from the placement allocator. \<open>bst_at\<close> relates a pointer into the store to a tree of the library.
\<close>

section \<open>The code\<close>

record 'k bst_node =
  bn_left :: u32
  bn_right :: u32
  bn_key :: 'k

record 'k bst_state =
  bs_nodes :: "u32 \<Rightarrow> 'k bst_node option"
  bs_placement :: u32

text \<open>A new leaf of the size of a node, 12 bytes.\<close>

definition new_leaf :: "'k bst_state \<Rightarrow> 'k \<Rightarrow> u32 \<times> 'k bst_state" where
  "new_leaf st k =
     (let (p, p') = pmalloc (bs_placement st) 12
      in (p, \<lparr>bs_nodes = (bs_nodes st)(p \<mapsto> \<lparr>bn_left = 0, bn_right = 0, bn_key = k\<rparr>), bs_placement = p'\<rparr>))"

definition set_node :: "'k bst_state \<Rightarrow> u32 \<Rightarrow> 'k bst_node \<Rightarrow> 'k bst_state" where
  "set_node st p n = st\<lparr>bs_nodes := (bs_nodes st)(p \<mapsto> n)\<rparr>"

text \<open>With a null root the new node is only assigned to the parameter: the caller does not see it.\<close>

partial_function (option) BST_add ::
    "('k \<Rightarrow> 'k \<Rightarrow> int) \<Rightarrow> 'k bst_state \<Rightarrow> u32 \<Rightarrow> 'k \<Rightarrow> 'k bst_state res option" where
  "BST_add cmp st root key =
     (if root = 0 then Some (Inr (snd (new_leaf st key)))
      else case deref (bs_nodes st) root of Inl e \<Rightarrow> Some (Inl e) | Inr n \<Rightarrow>
        (if cmp key (bn_key n) = 1 then
           (if bn_right n \<noteq> 0 then BST_add cmp st (bn_right n) key
            else Some (Inr (let (p, st1) = new_leaf st key in set_node st1 root (n\<lparr>bn_right := p\<rparr>))))
         else if cmp key (bn_key n) = - 1 then
           (if bn_left n \<noteq> 0 then BST_add cmp st (bn_left n) key
            else Some (Inr (let (p, st1) = new_leaf st key in set_node st1 root (n\<lparr>bn_left := p\<rparr>))))
         else Some (Inr st)))"

partial_function (option) BST_find ::
    "('k \<Rightarrow> 'k \<Rightarrow> int) \<Rightarrow> (u32 \<Rightarrow> 'k bst_node option) \<Rightarrow> u32 \<Rightarrow> 'k \<Rightarrow> u32 res option" where
  "BST_find cmp ns root key =
     (if root = 0 then Some (Inr 0)
      else case deref ns root of Inl e \<Rightarrow> Some (Inl e) | Inr n \<Rightarrow>
        (if cmp key (bn_key n) = 1 then
           (if bn_right n \<noteq> 0 then BST_find cmp ns (bn_right n) key else Some (Inr 0))
         else if cmp key (bn_key n) = - 1 then
           (if bn_left n \<noteq> 0 then BST_find cmp ns (bn_left n) key else Some (Inr 0))
         else Some (Inr root)))"

partial_function (option) leftmost :: "(u32 \<Rightarrow> 'k bst_node option) \<Rightarrow> u32 \<Rightarrow> 'k bst_node res option" where
  "leftmost ns p = (case deref ns p of Inl e \<Rightarrow> Some (Inl e)
     | Inr n \<Rightarrow> if bn_left n \<noteq> 0 then leftmost ns (bn_left n) else Some (Inr n))"

text \<open>The result is the pointer that replaces the root.\<close>

partial_function (option) BST_remove ::
    "('k \<Rightarrow> 'k \<Rightarrow> int) \<Rightarrow> 'k bst_state \<Rightarrow> u32 \<Rightarrow> 'k \<Rightarrow> (u32 \<times> 'k bst_state) res option" where
  "BST_remove cmp st root key =
     (if root = 0 then Some (Inr (root, st))
      else case deref (bs_nodes st) root of Inl e \<Rightarrow> Some (Inl e) | Inr n \<Rightarrow>
        (if cmp key (bn_key n) = 1 then
           (if bn_right n \<noteq> 0 then
              Option.bind (BST_remove cmp st (bn_right n) key) (\<lambda>r. Some (
                rbind r (\<lambda>(p, st1). rbind (deref (bs_nodes st1) root) (\<lambda>n1.
                  Inr (root, set_node st1 root (n1\<lparr>bn_right := p\<rparr>))))))
            else Some (Inr (root, st)))
         else if cmp key (bn_key n) = - 1 then
           (if bn_left n \<noteq> 0 then
              Option.bind (BST_remove cmp st (bn_left n) key) (\<lambda>r. Some (
                rbind r (\<lambda>(p, st1). rbind (deref (bs_nodes st1) root) (\<lambda>n1.
                  Inr (root, set_node st1 root (n1\<lparr>bn_left := p\<rparr>))))))
            else Some (Inr (root, st)))
         else if bn_right n \<noteq> 0 \<and> bn_left n \<noteq> 0 then
           Option.bind (leftmost (bs_nodes st) (bn_right n)) (\<lambda>r. case r of Inl e \<Rightarrow> Some (Inl e) | Inr s \<Rightarrow>
             (let st1 = set_node st root (n\<lparr>bn_key := bn_key s\<rparr>) in
              Option.bind (BST_remove cmp st1 (bn_right n) key) (\<lambda>r. Some (
                rbind r (\<lambda>(p, st2). rbind (deref (bs_nodes st2) root) (\<lambda>n1.
                  Inr (root, set_node st2 root (n1\<lparr>bn_right := p\<rparr>))))))))
         else if bn_right n \<noteq> 0 then Some (Inr (bn_left n, st))
         else Some (Inr (bn_right n, st))))"

section \<open>Trees in the store\<close>

text \<open>The nodes of the tree are pairs of the pointer and the key.\<close>

fun bst_at :: "(u32 \<Rightarrow> 'k bst_node option) \<Rightarrow> u32 \<Rightarrow> (u32 \<times> 'k) tree \<Rightarrow> bool" where
  "bst_at ns p Leaf \<longleftrightarrow> p = 0"
| "bst_at ns p (Node l (q, k) r) \<longleftrightarrow> p = q \<and> p \<noteq> 0 \<and>
     (\<exists>n. ns p = Some n \<and> bn_key n = k \<and> bst_at ns (bn_left n) l \<and> bst_at ns (bn_right n) r)"

definition keys :: "(u32 \<times> 'k) tree \<Rightarrow> 'k list" where
  "keys t = map snd (inorder t)"

lemma keys_simps [simp]: "keys Leaf = []" "keys (Node l (q, k) r) = keys l @ k # keys r"
  by (simp_all add: keys_def)

lemma bst_at_0: "bst_at ns p t \<Longrightarrow> p = 0 \<longleftrightarrow> t = Leaf"
  by (cases t) auto

lemma bst_at_frame: "bst_at ns p t \<Longrightarrow> q \<notin> fst ` set_tree t \<Longrightarrow> bst_at (ns(q \<mapsto> x)) p t"
  by (induction ns p t rule: bst_at.induct) auto

context comparator
begin

text \<open>Search order: the comparator puts larger keys to the right.\<close>

definition ordered :: "(u32 \<times> 'a) tree \<Rightarrow> bool" where
  "ordered t \<longleftrightarrow> sorted_wrt (\<lambda>x y. cmp y x = 1) (keys t)"

lemma find_ok:
  "bst_at ns p t \<Longrightarrow> ordered t \<Longrightarrow>
     \<exists>q. BST_find cmp ns p key = Some (Inr q) \<and>
       (if key \<in> set (keys t) then (q, key) \<in> set_tree t else q = 0)"
proof (induction ns p t rule: bst_at.induct)
  case (2 ns p l q k r)
  then obtain n where n: "ns p = Some n" "bn_key n = k" "bst_at ns (bn_left n) l"
      "bst_at ns (bn_right n) r" "p = q" "p \<noteq> 0"
    by auto
  have o: "ordered l" "ordered r" "\<forall>x\<in>set (keys l). cmp k x = 1" "\<forall>x\<in>set (keys r). cmp x k = 1"
    using 2(4) by (auto simp: ordered_def sorted_wrt_append)
  have in_l: "key \<notin> set (keys l)" if "cmp key k = 1"
    using that o(3) trans1 [of key k key] eq0 [of key key] by auto
  have in_r: "key \<notin> set (keys r)" if "cmp key k = - 1"
    using that o(4) flip [of k key] trans1 [of key k key] eq0 [of key key] by auto
  have unf: "BST_find cmp ns p key = (if cmp key k = 1 then
        (if bn_right n \<noteq> 0 then BST_find cmp ns (bn_right n) key else Some (Inr 0))
      else if cmp key k = - 1 then
        (if bn_left n \<noteq> 0 then BST_find cmp ns (bn_left n) key else Some (Inr 0))
      else Some (Inr p))"
    using n by (subst BST_find.simps) simp
  consider (gt) "cmp key k = 1" | (lt) "cmp key k = - 1" | (eq) "cmp key k = 0" using cases3 by blast
  then show ?case
  proof cases
    case gt
    then have "key \<noteq> k" using eq0 [of key k] by auto
    then show ?thesis
      using unf gt 2(2) [OF n(4) o(2)] bst_at_0 [OF n(4)] in_l by (cases "bn_right n = 0") auto
  next
    case lt
    then have "key \<noteq> k" using eq0 [of key k] by auto
    then show ?thesis
      using unf lt 2(1) [OF n(3) o(1)] bst_at_0 [OF n(3)] in_r by (cases "bn_left n = 0") auto
  next
    case eq
    then have "BST_find cmp ns p key = Some (Inr p)" using unf by simp
    moreover have "key = k" using eq eq0 by blast
    ultimately show ?thesis using n(5) by auto
  qed
qed (simp add: BST_find.simps ordered_def)

text \<open>
  What an insertion into a subtree guarantees: the pointers are the old ones and possibly the new
  one, no other node of the store is written.
\<close>

definition add_post :: "'a bst_state \<Rightarrow> u32 \<Rightarrow> (u32 \<times> 'a) tree \<Rightarrow> 'a \<Rightarrow> 'a bst_state \<Rightarrow> (u32 \<times> 'a) tree \<Rightarrow> bool" where
  "add_post st p t key st' t' \<longleftrightarrow> bst_at (bs_nodes st') p t' \<and> ordered t' \<and>
     set (keys t') = insert key (set (keys t)) \<and> distinct (map fst (inorder t')) \<and>
     fst ` set_tree t' \<subseteq> insert (bs_placement st) (fst ` set_tree t) \<and>
     (\<forall>q. q \<notin> insert (bs_placement st) (fst ` set_tree t) \<longrightarrow> bs_nodes st' q = bs_nodes st q)"

lemma bst_at_cong: "bst_at ns p t \<Longrightarrow> \<forall>q\<in>fst ` set_tree t. ns' q = ns q \<Longrightarrow> bst_at ns' p t"
  by (induction ns p t rule: bst_at.induct) auto

lemma new_leaf_at:
  assumes "new_leaf st key = (p, st1)" and "bs_placement st \<noteq> 0"
  shows "p = bs_placement st" and "bst_at (bs_nodes st1) p (Node Leaf (p, key) Leaf)"
    and "\<And>q. q \<noteq> p \<Longrightarrow> bs_nodes st1 q = bs_nodes st q"
  using assms by (auto simp: new_leaf_def pmalloc_def)

text \<open>Putting a changed right or left subtree below the root.\<close>

lemma sub_insert:
  assumes "X \<subseteq> insert f R"
  shows "p \<notin> R \<Longrightarrow> f \<noteq> p \<Longrightarrow> p \<notin> X" and "L \<inter> R = {} \<Longrightarrow> f \<notin> L \<Longrightarrow> L \<inter> X = {}"
    and "x \<in> L \<Longrightarrow> L \<inter> R = {} \<Longrightarrow> f \<notin> L \<Longrightarrow> x \<notin> insert f R"
  using assms by blast+

lemma add_post_right:
  assumes at: "ns = bs_nodes st" "ns p = Some n" "p \<noteq> 0" "bst_at ns (bn_left n) l" "bn_key n = k"
    and dis: "distinct (map fst (inorder (Node l (p, k) r)))" and fresh: "bs_placement st \<notin> fst ` set_tree (Node l (p, k) r)"
    and o: "ordered (Node l (p, k) r)" and gt: "cmp key k = 1"
    and r': "add_post st q r key st1 r'" and st': "bs_nodes st' = (bs_nodes st1)(p \<mapsto> n\<lparr>bn_right := q\<rparr>)"
  shows "add_post st p (Node l (p, k) r) key st' (Node l (p, k) r')"
proof -
  have d: "p \<notin> fst ` set_tree r" "p \<notin> fst ` set_tree l" "fst ` set_tree l \<inter> fst ` set_tree r = {}"
      "bs_placement st \<noteq> p" "bs_placement st \<notin> fst ` set_tree l"
    using dis fresh by auto
  have sub: "fst ` set_tree r' \<subseteq> insert (bs_placement st) (fst ` set_tree r)"
    using r' by (simp add: add_post_def)
  have pr': "p \<notin> fst ` set_tree r'" and lr': "fst ` set_tree l \<inter> fst ` set_tree r' = {}"
    by (rule sub_insert(1) [OF sub d(1,4)], rule sub_insert(2) [OF sub d(3,5)])
  have "bst_at (bs_nodes st') q r'"
    using r' pr' bst_at_frame unfolding add_post_def st' by metis
  moreover have "bst_at (bs_nodes st') (bn_left n) l"
  proof (rule bst_at_cong [OF at(4)], rule ballI)
    fix x assume x: "x \<in> fst ` set_tree l"
    then have "x \<noteq> p" using d(2) by metis
    moreover have "x \<notin> insert (bs_placement st) (fst ` set_tree r)"
      by (rule sub_insert(3) [OF sub x d(3,5)])
    ultimately show "bs_nodes st' x = ns x" using at(1) r' st' by (simp add: add_post_def)
  qed
  moreover have "ordered (Node l (p, k) r')"
    using o r' gt trans1 by (auto simp: ordered_def add_post_def sorted_wrt_append)
  moreover have "distinct (map fst (inorder (Node l (p, k) r')))"
    using dis r' pr' lr' by (simp add: add_post_def)
  moreover have "set (keys (Node l (p, k) r')) = insert key (set (keys (Node l (p, k) r)))"
    using r' by (auto simp: add_post_def)
  moreover have "fst ` set_tree (Node l (p, k) r') \<subseteq> insert (bs_placement st) (fst ` set_tree (Node l (p, k) r))"
    unfolding tree.set image_insert image_Un using sub by auto
  moreover have "bs_nodes st' x = bs_nodes st x"
    if "x \<notin> insert (bs_placement st) (fst ` set_tree (Node l (p, k) r))" for x
    using that r' st' by (auto simp: add_post_def)
  ultimately show ?thesis
    using at(3,5) st' unfolding add_post_def by simp
qed

lemma add_post_left:
  assumes at: "ns = bs_nodes st" "ns p = Some n" "p \<noteq> 0" "bst_at ns (bn_right n) r" "bn_key n = k"
    and dis: "distinct (map fst (inorder (Node l (p, k) r)))" and fresh: "bs_placement st \<notin> fst ` set_tree (Node l (p, k) r)"
    and o: "ordered (Node l (p, k) r)" and lt: "cmp key k = - 1"
    and l': "add_post st q l key st1 l'" and st': "bs_nodes st' = (bs_nodes st1)(p \<mapsto> n\<lparr>bn_left := q\<rparr>)"
  shows "add_post st p (Node l (p, k) r) key st' (Node l' (p, k) r)"
proof -
  have d: "p \<notin> fst ` set_tree r" "p \<notin> fst ` set_tree l" "fst ` set_tree l \<inter> fst ` set_tree r = {}"
      "bs_placement st \<noteq> p" "bs_placement st \<notin> fst ` set_tree r"
    using dis fresh by auto
  have sub: "fst ` set_tree l' \<subseteq> insert (bs_placement st) (fst ` set_tree l)"
    using l' by (simp add: add_post_def)
  have pl': "p \<notin> fst ` set_tree l'" and lr': "fst ` set_tree r \<inter> fst ` set_tree l' = {}"
    by (rule sub_insert(1) [OF sub d(2,4)], rule sub_insert(2) [OF sub _ d(5)], rule trans [OF Int_commute d(3)])
  have "bst_at (bs_nodes st') q l'"
    using l' pl' bst_at_frame unfolding add_post_def st' by metis
  moreover have "bst_at (bs_nodes st') (bn_right n) r"
  proof (rule bst_at_cong [OF at(4)], rule ballI)
    fix x assume x: "x \<in> fst ` set_tree r"
    then have "x \<noteq> p" using d(1) by metis
    moreover have "x \<notin> insert (bs_placement st) (fst ` set_tree l)"
      by (rule sub_insert(3) [OF sub x _ d(5)], rule trans [OF Int_commute d(3)])
    ultimately show "bs_nodes st' x = ns x" using at(1) l' st' by (simp add: add_post_def)
  qed
  moreover have "ordered (Node l' (p, k) r)"
    using o l' lt flip [of k key] trans1 by (auto simp: ordered_def add_post_def sorted_wrt_append)
  moreover have "distinct (map fst (inorder (Node l' (p, k) r)))"
    using dis l' pl' lr' by (simp add: add_post_def Int_commute)
  moreover have "set (keys (Node l' (p, k) r)) = insert key (set (keys (Node l (p, k) r)))"
    using l' by (auto simp: add_post_def)
  moreover have "fst ` set_tree (Node l' (p, k) r) \<subseteq> insert (bs_placement st) (fst ` set_tree (Node l (p, k) r))"
    unfolding tree.set image_insert image_Un using sub by auto
  moreover have "bs_nodes st' x = bs_nodes st x"
    if "x \<notin> insert (bs_placement st) (fst ` set_tree (Node l (p, k) r))" for x
    using that l' st' by (auto simp: add_post_def)
  ultimately show ?thesis
    using at(3,5) st' unfolding add_post_def by simp
qed

text \<open>The new leaf itself, below a null pointer.\<close>

lemma add_post_leaf:
  assumes "new_leaf st key = (q, st1)" and "bs_placement st \<noteq> 0"
  shows "add_post st q Leaf key st1 (Node Leaf (q, key) Leaf)"
  using new_leaf_at [OF assms] by (auto simp: add_post_def ordered_def)

lemma add_ok:
  assumes "bst_at (bs_nodes st) p t" and "p \<noteq> 0" and "ordered t" and "distinct (map fst (inorder t))"
    and "bs_placement st \<notin> fst ` set_tree t" and fresh: "bs_placement st \<noteq> 0"
  shows "\<exists>st' t'. BST_add cmp st p key = Some (Inr st') \<and> add_post st p t key st' t'"
  using assms(1-5)
proof (induction "bs_nodes st" p t rule: bst_at.induct)
  case (2 p l q k r)
  then obtain n where n: "bs_nodes st p = Some n" "bn_key n = k" "bst_at (bs_nodes st) (bn_left n) l"
      "bst_at (bs_nodes st) (bn_right n) r" "p = q" "p \<noteq> 0"
    by auto
  have o: "ordered l" "ordered r" using 2(5) by (auto simp: ordered_def sorted_wrt_append)
  have d: "distinct (map fst (inorder l))" "distinct (map fst (inorder r))"
      "bs_placement st \<notin> fst ` set_tree l" "bs_placement st \<notin> fst ` set_tree r" "p \<noteq> bs_placement st"
    using 2(6,7) n(5) by auto
  have unf: "BST_add cmp st p key =
      (if cmp key k = 1 then
         (if bn_right n \<noteq> 0 then BST_add cmp st (bn_right n) key
          else Some (Inr (let (q, st1) = new_leaf st key in set_node st1 p (n\<lparr>bn_right := q\<rparr>))))
       else if cmp key k = - 1 then
         (if bn_left n \<noteq> 0 then BST_add cmp st (bn_left n) key
          else Some (Inr (let (q, st1) = new_leaf st key in set_node st1 p (n\<lparr>bn_left := q\<rparr>))))
       else Some (Inr st))"
    using n by (subst BST_add.simps) simp
  obtain q' st1 where leaf: "new_leaf st key = (q', st1)" by (cases "new_leaf st key")
  note pr = add_post_right [OF refl n(1,6,3,2) 2(6) [folded n(5)] 2(7) [folded n(5)] 2(5) [folded n(5)]]
  note pl = add_post_left [OF refl n(1,6,4,2) 2(6) [folded n(5)] 2(7) [folded n(5)] 2(5) [folded n(5)]]
  have keep: "bs_nodes st' p = Some n" if "add_post st x t0 key st' t'" "p \<notin> fst ` set_tree t0" for x t0 st' t'
    using that d(5) n(1) by (auto simp: add_post_def)
  have pn: "p \<notin> fst ` set_tree l" "p \<notin> fst ` set_tree r" using 2(6) n(5) by auto
  consider (gt) "cmp key k = 1" | (lt) "cmp key k = - 1" | (eq) "cmp key k = 0" using cases3 by blast
  then show ?case
  proof cases
    case gt
    show ?thesis
    proof (cases "bn_right n = 0")
      case True
      then have "r = Leaf" using bst_at_0 [OF n(4)] by simp
      then show ?thesis
        using unf gt True leaf pr [OF gt, of q' st1 "Node Leaf (q', key) Leaf" "set_node st1 p (n\<lparr>bn_right := q'\<rparr>)"]
          add_post_leaf [OF leaf fresh] n(5) by (auto simp: set_node_def)
    next
      case False
      obtain st' r' where r': "BST_add cmp st (bn_right n) key = Some (Inr st')"
          "add_post st (bn_right n) r key st' r'"
        using 2(2) [OF n(4) False o(2) d(2,4)] by blast
      have "bs_nodes st' = (bs_nodes st')(p \<mapsto> n\<lparr>bn_right := bn_right n\<rparr>)"
        using keep [OF r'(2) pn(2)] by auto
      then show ?thesis
        using unf gt False r' pr [OF gt r'(2)] n(5) by auto
    qed
  next
    case lt
    show ?thesis
    proof (cases "bn_left n = 0")
      case True
      then have "l = Leaf" using bst_at_0 [OF n(3)] by simp
      then show ?thesis
        using unf lt True leaf pl [OF lt, of q' st1 "Node Leaf (q', key) Leaf" "set_node st1 p (n\<lparr>bn_left := q'\<rparr>)"]
          add_post_leaf [OF leaf fresh] n(5) by (auto simp: set_node_def)
    next
      case False
      obtain st' l' where l': "BST_add cmp st (bn_left n) key = Some (Inr st')"
          "add_post st (bn_left n) l key st' l'"
        using 2(1) [OF n(3) False o(1) d(1,3)] by blast
      have "bs_nodes st' = (bs_nodes st')(p \<mapsto> n\<lparr>bn_left := bn_left n\<rparr>)"
        using keep [OF l'(2) pn(1)] by auto
      then show ?thesis
        using unf lt False l' pl [OF lt l'(2)] n(5) by auto
    qed
  next
    case eq
    then have "key = k" using eq0 by blast
    moreover have "BST_add cmp st p key = Some (Inr st)" using unf eq by simp
    moreover have "add_post st p (Node l (q, k) r) k st (Node l (q, k) r)"
      using 2(3,5,6) by (auto simp: add_post_def)
    ultimately show ?thesis by blast
  qed
qed simp

end

section \<open>Properties\<close>

lemma addr_ordered: "addr_cmp.ordered t \<longleftrightarrow> sorted_wrt (<) (keys t)"
proof -
  have "(\<lambda>x y. default_comparator y x = 1) = (<)"
    by (intro ext) (auto simp: default_comparator_def)
  then show ?thesis by (simp add: addr_cmp.ordered_def)
qed

text \<open>
  C16. Adding a key to a nonempty search tree returns a search tree with exactly one more key, and
  looking up any key afterwards returns a node with that key when it is the new or an old one, and
  the null pointer otherwise.
\<close>

theorem BST_add_find:
  assumes "bst_at (bs_nodes st) p t" and "p \<noteq> 0" and "sorted_wrt (<) (keys t)"
    and "distinct (map fst (inorder t))" and "bs_placement st \<notin> fst ` set_tree t" and "bs_placement st \<noteq> 0"
  shows "\<exists>st' t'. BST_add default_comparator st p key = Some (Inr st') \<and> bst_at (bs_nodes st') p t' \<and>
    sorted_wrt (<) (keys t') \<and> set (keys t') = insert key (set (keys t)) \<and>
    (\<forall>x. \<exists>q. BST_find default_comparator (bs_nodes st') p x = Some (Inr q) \<and>
      (if x = key \<or> x \<in> set (keys t) then (q, x) \<in> set_tree t' else q = 0))"
proof -
  obtain st' t' where st': "BST_add default_comparator st p key = Some (Inr st')"
      "addr_cmp.add_post st p t key st' t'"
    using addr_cmp.add_ok [OF assms(1,2) _ assms(4-6)] assms(3) addr_ordered by blast
  then have t': "bst_at (bs_nodes st') p t'" "addr_cmp.ordered t'" "set (keys t') = insert key (set (keys t))"
    by (simp_all add: addr_cmp.add_post_def)
  show ?thesis
    using st'(1) t' addr_cmp.find_ok [OF t'(1,2)] addr_ordered by (intro exI [of _ st'] exI [of _ t']) auto
qed

definition demo_bst :: "u32 bst_state" where
  "demo_bst = \<lparr>bs_nodes = (\<lambda>_. None)(0x100 \<mapsto> \<lparr>bn_left = 0, bn_right = 0x110, bn_key = 5\<rparr>,
     0x110 \<mapsto> \<lparr>bn_left = 0, bn_right = 0, bn_key = 9\<rparr>), bs_placement = 0x200\<rparr>"

theorem BST_add_find_witness:
  "\<exists>st' t'. BST_add default_comparator demo_bst 0x100 7 = Some (Inr st') \<and> bst_at (bs_nodes st') 0x100 t' \<and>
    sorted_wrt (<) (keys t') \<and>
    set (keys t') = insert 7 (set (keys (Node Leaf (0x100, 5) (Node Leaf (0x110, 9) Leaf)))) \<and>
    (\<forall>x. \<exists>q. BST_find default_comparator (bs_nodes st') 0x100 x = Some (Inr q) \<and>
      (if x = 7 \<or> x \<in> set (keys (Node Leaf (0x100, 5) (Node Leaf (0x110, 9) Leaf)))
       then (q, x) \<in> set_tree t' else q = 0))"
  by (rule BST_add_find) (simp_all add: demo_bst_def)

text \<open>
  Adding to an empty tree allocates a node that nothing points to. Removing the key of a node
  that has only a right subtree returns the null left pointer in its place: the subtree is lost.
\<close>

lemma BST_add_empty: "BST_add cmp st 0 key = Some (Inr (snd (new_leaf st key)))"
  by (subst BST_add.simps) simp

lemma BST_remove_loses_right:
  assumes "bst_at (bs_nodes st) p (Node Leaf (p, key) r)" and "r \<noteq> Leaf"
  shows "BST_remove default_comparator st p key = Some (Inr (0, st))"
  using assms bst_at_0 by (subst BST_remove.simps) (auto simp: default_comparator_def)

end
