(* ===== verification/Scheduler.thy ===== *)
theory Scheduler
  imports Data_Lists
begin

text \<open>
  \<^verbatim>\<open>kernel/multitasking/task.c\<close> and \<^verbatim>\<open>scheduler.c\<close>, with the two assembly routines their stacks are laid
  out for (\<^verbatim>\<open>mt_switch_task\<close> and the tail of the interrupt handlers). The task control blocks are a
  typed store, the two lists of tasks run through their next and previous pointers. What task
  creation takes from other components (memory, the standard descriptors, directories) is in the
  record \<open>task_res\<close>.
\<close>

section \<open>State\<close>

abbreviation (input) TS_SUS :: u8 where "TS_SUS \<equiv> 0"
abbreviation (input) TS_RDY :: u8 where "TS_RDY \<equiv> 1"
abbreviation (input) TS_RUN :: u8 where "TS_RUN \<equiv> 2"
abbreviation (input) TS_FIN :: u8 where "TS_FIN \<equiv> 3"

record task =
  t_esp :: u32
  t_pid :: u32
  t_uid :: u32
  t_esp0 :: u32
  t_cr3 :: u32
  t_allocated_stack :: u32
  t_stack_size :: u32
  t_time_slice :: u32
  t_time_remaining :: u32
  t_ppid :: u32
  t_next :: u32
  t_prev :: u32
  t_fds :: "u32 dlist"
  t_cwd :: u32
  t_state :: u8
  t_name :: string

record sched =
  sc_enabled :: u8
  sc_tasks :: u32
  sc_tasks_count :: u32
  sc_cur :: u32
  sc_fg :: u32
  sc_terminated :: u32
  sc_store :: "u32 \<Rightarrow> task option"
  sc_next_pid :: u32
  sc_tss_esp0 :: u32
  sc_cr3 :: u32

definition upd_task :: "sched \<Rightarrow> u32 \<Rightarrow> (task \<Rightarrow> task) \<Rightarrow> sched res" where
  "upd_task s p f = rbind (deref (sc_store s) p) (\<lambda>t. Inr (s\<lparr>sc_store := (sc_store s)(p \<mapsto> f t)\<rparr>))"

definition mt_is_initialized :: "sched \<Rightarrow> u8" where
  "mt_is_initialized s = sc_enabled s"

definition mt_set_fg_task :: "sched \<Rightarrow> u32 \<Rightarrow> sched" where
  "mt_set_fg_task s t = s\<lparr>sc_fg := t\<rparr>"

definition mt_get_fg_task :: "sched \<Rightarrow> u32" where
  "mt_get_fg_task s = sc_fg s"

definition mt_get_current_task :: "sched \<Rightarrow> u32" where
  "mt_get_current_task s = sc_cur s"

definition mt_panic :: "sched \<Rightarrow> sched" where
  "mt_panic s = s\<lparr>sc_enabled := 0\<rparr>"

section \<open>The list of tasks\<close>

partial_function (option) last_task :: "(u32 \<Rightarrow> task option) \<Rightarrow> u32 \<Rightarrow> u32 res option" where
  "last_task st p = (case deref st p of Inl e \<Rightarrow> Some (Inl e)
     | Inr t \<Rightarrow> if t_next t \<noteq> 0 then last_task st (t_next t) else Some (Inr p))"

definition mt_push_task :: "sched \<Rightarrow> u32 \<Rightarrow> sched res" where
  "mt_push_task s new_task =
     (if sc_tasks s = 0 then Inr (s\<lparr>sc_tasks := new_task\<rparr>)
      else rbind (returned (last_task (sc_store s) (sc_tasks s))) (\<lambda>t.
           rbind (upd_task s t (\<lambda>x. x\<lparr>t_next := new_task\<rparr>)) (\<lambda>s1.
           upd_task s1 new_task (\<lambda>x. x\<lparr>t_prev := t\<rparr>))))"

partial_function (option) find_pid :: "(u32 \<Rightarrow> task option) \<Rightarrow> u32 \<Rightarrow> u32 \<Rightarrow> u32 res option" where
  "find_pid st p pid =
     (if p = 0 then Some (Inr 0)
      else case deref st p of Inl e \<Rightarrow> Some (Inl e)
        | Inr t \<Rightarrow> if t_pid t \<noteq> pid then find_pid st (t_next t) pid else Some (Inr p))"

definition mt_get_task_by_pid :: "sched \<Rightarrow> u32 \<Rightarrow> u32 res" where
  "mt_get_task_by_pid s pid = returned (find_pid (sc_store s) (sc_tasks s) pid)"

section \<open>Creation\<close>

abbreviation (input) MAX_PID :: u32 where "MAX_PID \<equiv> 0xFFFF"
abbreviation (input) DEFAULT_TIME_SLICE :: u32 where "DEFAULT_TIME_SLICE \<equiv> 1"
abbreviation (input) DEFAULT_STACK_SIZE :: u32 where "DEFAULT_STACK_SIZE \<equiv> 0x4000"

partial_function (option) free_pid :: "sched \<Rightarrow> u32 \<Rightarrow> u32 res option" where
  "free_pid s pid = (case mt_get_task_by_pid s pid of Inl e \<Rightarrow> Some (Inl e)
     | Inr t \<Rightarrow> if t \<noteq> 0 then free_pid s (pid + 1) else Some (Inr pid))"

definition gen_pid :: "sched \<Rightarrow> (u32 \<times> sched) res" where
  "gen_pid s =
     rbind (if sc_next_pid s > MAX_PID then returned (free_pid s 0) else Inr (sc_next_pid s)) (\<lambda>pid.
     Inr (pid, s\<lparr>sc_next_pid := pid + 1\<rparr>))"

text \<open>The stack is built downwards in double words.\<close>

type_synonym stack = "(u32 \<Rightarrow> u32) \<times> u32"

definition push :: "u32 \<Rightarrow> stack \<Rightarrow> stack" where
  "push v ms = (let sp = snd ms - 4 in ((fst ms)(sp := v), sp))"

definition skip_words :: "nat \<Rightarrow> stack \<Rightarrow> stack" where
  "skip_words n ms = (fst ms, snd ms - 4 * of_nat n)"

text \<open>\<open>iret\<close> is the address of the interrupt return path \<^verbatim>\<open>irq_common_handler_pop_and_iret\<close>.\<close>

definition ktask_stack :: "(u32 \<Rightarrow> u32) \<Rightarrow> u32 \<Rightarrow> u32 \<Rightarrow> u32 \<Rightarrow> u32 \<Rightarrow> stack" where
  "ktask_stack m tos entry args iret =
     fold (\<lambda>v. push v) [0, 0, 0, 0, 0, 0, 0, 0x200]
       (push iret (fold (\<lambda>v. push v) [0x10, 0x10, 0x10, 0x10]
         (skip_words 7 (skip_words 2
           (fold (\<lambda>v. push v) [args, 0, 0x200, 0x8, entry] (m, tos))))))"

record task_res =
  tr_ptr :: u32
  tr_stack :: u32
  tr_fds :: "u32 dlist"
  tr_root :: u32
  tr_ker_cr3 :: u32
  tr_iret :: u32
  tr_garbage :: task

text \<open>
  The fields that the code does not set keep what the memory held (\<open>tr_garbage\<close>); the null pointer
  is returned when the parent does not exist. The stack memory \<open>m\<close> is threaded through.
\<close>

definition ktask_create ::
    "task_res \<Rightarrow> (u32 \<Rightarrow> u32) \<Rightarrow> sched \<Rightarrow> string \<Rightarrow> u32 \<Rightarrow> u32 \<Rightarrow> u32 \<Rightarrow> (u32 \<times> (u32 \<Rightarrow> u32) \<times> sched) res" where
  "ktask_create res m s name ppid entry args =
     rbind (gen_pid s) (\<lambda>(pid, s1).
     rbind (mt_get_task_by_pid s1 ppid) (\<lambda>parent.
       if pid \<noteq> 0 \<and> parent = 0 then Inr (0, m, s1)
       else
         let (m1, sp) = ktask_stack m (tr_stack res + DEFAULT_STACK_SIZE) entry args (tr_iret res) in
         rbind (if parent \<noteq> 0 then rbind (deref (sc_store s1) parent) (\<lambda>p. Inr (t_cwd p)) else Inr (tr_root res)) (\<lambda>cwd.
         let t = (tr_garbage res)\<lparr>t_name := name, t_pid := pid, t_ppid := ppid, t_state := TS_RDY,
                   t_stack_size := DEFAULT_STACK_SIZE, t_esp0 := tr_stack res, t_next := 0, t_esp := sp,
                   t_allocated_stack := tr_stack res, t_cr3 := tr_ker_cr3 res,
                   t_time_slice := DEFAULT_TIME_SLICE, t_time_remaining := DEFAULT_TIME_SLICE,
                   t_fds := tr_fds res, t_cwd := cwd\<rparr>
         in Inr (tr_ptr res, m1, s1\<lparr>sc_store := (sc_store s1)(tr_ptr res \<mapsto> t)\<rparr>))))"

text \<open>
  \<open>node\<close> is the file the path leads to with its permissions, \<open>exec\<close> the address of \<^verbatim>\<open>utask_exec\<close>,
  \<open>user_dir\<close> the page directory that is cloned for the task.
\<close>

definition utask_create ::
    "task_res \<Rightarrow> (u32 \<Rightarrow> u32) \<Rightarrow> sched \<Rightarrow> string \<Rightarrow> u32 \<Rightarrow> (u32 \<times> u32) option \<Rightarrow> u32 \<Rightarrow> u32 \<Rightarrow>
     (u32 \<times> (u32 \<Rightarrow> u32) \<times> sched) res" where
  "utask_create res m s name ppid node exec user_dir =
     (case node of
        None \<Rightarrow> Inr (0, m, s)
      | Some (addr, perms) \<Rightarrow>
          if perms AND 1 \<noteq> 0 then Inr (0, m, s)
          else rbind (ktask_create res m s name ppid exec addr) (\<lambda>(t, m1, s1).
               rbind (upd_task s1 t (\<lambda>x. x\<lparr>t_cr3 := user_dir\<rparr>)) (\<lambda>s2. Inr (t, m1, s2))))"

definition task_destroy :: "sched \<Rightarrow> u32 \<Rightarrow> sched res" where
  "task_destroy s t = rbind (deref (sc_store s) t) (\<lambda>_. Inr (s\<lparr>sc_store := (sc_store s)(t := None)\<rparr>))"

definition mt_spawn_ktask ::
    "task_res \<Rightarrow> (u32 \<Rightarrow> u32) \<Rightarrow> sched \<Rightarrow> string \<Rightarrow> u32 \<Rightarrow> u32 \<Rightarrow> u32 \<Rightarrow> (u32 \<times> (u32 \<Rightarrow> u32) \<times> sched) res" where
  "mt_spawn_ktask res m s name ppid entry args =
     rbind (ktask_create res m s name ppid entry args) (\<lambda>(t, m1, s1).
     rbind (mt_push_task s1 t) (\<lambda>s2.
     rbind (deref (sc_store s2) t) (\<lambda>x. Inr (t_pid x, m1, s2))))"

definition mt_spawn_utask ::
    "task_res \<Rightarrow> (u32 \<Rightarrow> u32) \<Rightarrow> sched \<Rightarrow> string \<Rightarrow> u32 \<Rightarrow> (u32 \<times> u32) option \<Rightarrow> u32 \<Rightarrow> u32 \<Rightarrow>
     (u32 \<times> (u32 \<Rightarrow> u32) \<times> sched) res" where
  "mt_spawn_utask res m s name ppid node exec user_dir =
     rbind (utask_create res m s name ppid node exec user_dir) (\<lambda>(t, m1, s1).
       if t = 0 then Inr (0, m1, s1)
       else rbind (mt_push_task s1 t) (\<lambda>s2.
            rbind (deref (sc_store s2) t) (\<lambda>x. Inr (t_pid x, m1, s2))))"

text \<open>The three tasks the scheduler starts with.\<close>

definition mt_init :: "task_res \<Rightarrow> task_res \<Rightarrow> task_res \<Rightarrow> (u32 \<Rightarrow> u32) \<Rightarrow> sched \<Rightarrow> u32 \<Rightarrow> u32 \<Rightarrow>
    ((u32 \<Rightarrow> u32) \<times> sched) res" where
  "mt_init r1 r2 r3 m s ker_idle cleaner =
     rbind (ktask_create r1 m s ''kernel_idle'' 0 ker_idle 0) (\<lambda>(t1, m1, s1).
     rbind (mt_push_task s1 t1) (\<lambda>s2.
     rbind (ktask_create r2 m1 s2 ''test'' 0 ker_idle 0) (\<lambda>(t2, m2, s3).
     rbind (mt_push_task s3 t2) (\<lambda>s4.
     rbind (ktask_create r3 m2 s4 ''cleaner'' 0 cleaner 0) (\<lambda>(t3, m3, s5).
     rbind (mt_push_task s5 t3) (\<lambda>s6.
     Inr (m3, s6\<lparr>sc_cur := sc_tasks s6, sc_fg := 0, sc_enabled := 1\<rparr>)))))))"

section \<open>Scheduling\<close>

partial_function (option) next_unfinished :: "(u32 \<Rightarrow> task option) \<Rightarrow> u32 \<Rightarrow> u32 \<Rightarrow> u32 res option" where
  "next_unfinished st tasks p =
     (if p = 0 then Some (Inr tasks)
      else case deref st p of Inl e \<Rightarrow> Some (Inl e)
        | Inr t \<Rightarrow> if t_state t \<noteq> TS_FIN then Some (Inr p) else next_unfinished st tasks (t_next t))"

definition mt_pick_next_task :: "sched \<Rightarrow> u32 res" where
  "mt_pick_next_task s =
     rbind (deref (sc_store s) (sc_cur s)) (\<lambda>c.
       if t_next c = 0 then Inr (sc_tasks s)
       else rbind (deref (sc_store s) (t_next c)) (\<lambda>n.
         if t_state n \<noteq> TS_FIN then Inr (t_next c)
         else returned (next_unfinished (sc_store s) (sc_tasks s) (t_next n))))"

text \<open>
  \<^verbatim>\<open>mt_switch_task\<close>: the stack pointer of the processor is saved in the current task and the one of
  the next task is loaded; the result is the new stack pointer.
\<close>

definition mt_switch_task :: "sched \<Rightarrow> u32 \<Rightarrow> u32 \<Rightarrow> (u32 \<times> sched) res" where
  "mt_switch_task s esp next_task =
     rbind (upd_task s (sc_cur s) (\<lambda>t. t\<lparr>t_esp := esp\<rparr>)) (\<lambda>s1.
     rbind (deref (sc_store s1) next_task) (\<lambda>t. Inr (t_esp t, s1\<lparr>sc_cur := next_task\<rparr>)))"

definition mt_schedule :: "sched \<Rightarrow> u32 \<Rightarrow> (u32 \<times> sched) res" where
  "mt_schedule s esp =
     (if mt_is_initialized s = 0 \<or> sc_tasks_count s = 1 then Inr (esp, s)
      else
        rbind (upd_task s (sc_cur s) (\<lambda>t. t\<lparr>t_time_remaining := t_time_remaining t - 1\<rparr>)) (\<lambda>s1.
        rbind (deref (sc_store s1) (sc_cur s1)) (\<lambda>c.
          if t_state c = TS_RUN \<and> t_time_remaining c > 0 then Inr (esp, s1)
          else
            rbind (upd_task s1 (sc_cur s1) (\<lambda>t. t\<lparr>t_time_remaining := t_time_slice t\<rparr>)) (\<lambda>s2.
            rbind (mt_pick_next_task s2) (\<lambda>nt.
            rbind (deref (sc_store s2) nt) (\<lambda>n.
              let s3 = s2\<lparr>sc_tss_esp0 := t_allocated_stack n + DEFAULT_STACK_SIZE,
                          sc_cr3 := (if t_cr3 c \<noteq> t_cr3 n then t_cr3 n else sc_cr3 s2)\<rparr> in
              rbind (upd_task s3 nt (\<lambda>t. t\<lparr>t_state := TS_RUN\<rparr>)) (\<lambda>s4.
              rbind (deref (sc_store s4) (sc_cur s4)) (\<lambda>c4.
              rbind (if t_state c4 \<noteq> TS_FIN then upd_task s4 (sc_cur s4) (\<lambda>t. t\<lparr>t_state := TS_SUS\<rparr>) else Inr s4)
                (\<lambda>s5. mt_switch_task s5 esp nt)))))))))"

section \<open>Termination\<close>

text \<open>The part of \<^verbatim>\<open>mt_task_terminate\<close> before its loop: the task moves to the terminated list.\<close>

definition move_terminated :: "sched \<Rightarrow> u32 \<Rightarrow> sched res" where
  "move_terminated s p =
     rbind (deref (sc_store s) p) (\<lambda>t.
     rbind (if t_prev t \<noteq> 0 then upd_task s (t_prev t) (\<lambda>x. x\<lparr>t_next := t_next t\<rparr>) else Inr s) (\<lambda>s1.
     rbind (deref (sc_store s1) p) (\<lambda>t1.
     rbind (if t_next t1 \<noteq> 0 then upd_task s1 (t_next t1) (\<lambda>x. x\<lparr>t_prev := t_prev t1\<rparr>) else Inr s1) (\<lambda>s2.
       if sc_terminated s2 = 0 then
         rbind (upd_task s2 p (\<lambda>x. x\<lparr>t_next := 0, t_prev := 0\<rparr>)) (\<lambda>s3. Inr (s3\<lparr>sc_terminated := p\<rparr>))
       else
         rbind (upd_task s2 p (\<lambda>x. x\<lparr>t_next := sc_terminated s2\<rparr>)) (\<lambda>s3.
         rbind (upd_task s3 (sc_terminated s3) (\<lambda>x. x\<lparr>t_prev := p\<rparr>)) (\<lambda>s4.
         Inr (s4\<lparr>sc_terminated := p\<rparr>)))))))"

text \<open>
  The procedure and its loop call each other: \<open>Terminate t\<close> is a call for the task \<open>t\<close>, \<open>Children i pid\<close>
  the loop at the task \<open>i\<close> looking for the children of \<open>pid\<close>.
\<close>

datatype term_call = Terminate u32 | Children u32 u32

partial_function (option) terminate_run :: "sched \<Rightarrow> term_call \<Rightarrow> sched res option" where
  "terminate_run s c = (case c of
     Terminate p \<Rightarrow>
       (case deref (sc_store s) p of Inl e \<Rightarrow> Some (Inl e) | Inr t \<Rightarrow>
          if t_pid t = 0 then Some (Inr s)
          else case move_terminated s p of Inl e \<Rightarrow> Some (Inl e)
            | Inr s1 \<Rightarrow> terminate_run s1 (Children (sc_tasks s1) (t_pid t)))
   | Children i pid \<Rightarrow>
       (if i = 0 then Some (Inr s)
        else case deref (sc_store s) i of Inl e \<Rightarrow> Some (Inl e) | Inr t \<Rightarrow>
          Option.bind (if t_ppid t = pid then terminate_run s (Terminate i) else Some (Inr s)) (\<lambda>r.
            case r of Inl e \<Rightarrow> Some (Inl e) | Inr s1 \<Rightarrow>
              (case deref (sc_store s1) i of Inl e \<Rightarrow> Some (Inl e)
               | Inr t1 \<Rightarrow> terminate_run s1 (Children (t_next t1) pid)))))"

definition mt_task_terminate :: "sched \<Rightarrow> u32 \<Rightarrow> sched res" where
  "mt_task_terminate s t = returned (terminate_run s (Terminate t))"

definition mt_task_terminate_pid :: "sched \<Rightarrow> u32 \<Rightarrow> sched res" where
  "mt_task_terminate_pid s pid =
     rbind (mt_get_task_by_pid s pid) (\<lambda>t. if t = 0 then Inr s else mt_task_terminate s t)"

definition mt_task_self_terminate :: "sched \<Rightarrow> sched res" where
  "mt_task_self_terminate s = mt_task_terminate s (sc_cur s)"

text \<open>One round of the cleaner task.\<close>

partial_function (option) destroy_all :: "sched \<Rightarrow> u32 \<Rightarrow> sched res option" where
  "destroy_all s p =
     (if p = 0 then Some (Inr s)
      else case deref (sc_store s) p of Inl e \<Rightarrow> Some (Inl e)
        | Inr t \<Rightarrow> (case task_destroy s p of Inl e \<Rightarrow> Some (Inl e) | Inr s1 \<Rightarrow> destroy_all s1 (t_next t)))"

definition cleaner_round :: "sched \<Rightarrow> sched res" where
  "cleaner_round s =
     (if sc_terminated s = 0 then Inr s
      else rbind (returned (destroy_all s (sc_terminated s))) (\<lambda>s1. Inr (s1\<lparr>sc_terminated := 0\<rparr>)))"

section \<open>Starting a task\<close>

text \<open>
  The processor's registers as the two assembly routines restore them: the end of
  \<^verbatim>\<open>mt_switch_task\<close>, and the interrupt return from \<^verbatim>\<open>irq_common_handler_pop_and_iret\<close> on.
\<close>

record cpu =
  c_eip :: u32
  c_esp :: u32
  c_eflags :: u32
  c_cs :: u32
  c_segments :: "u32 list"
  c_general :: "u32 list"

definition switch_restore :: "(u32 \<Rightarrow> u32) \<Rightarrow> u32 \<Rightarrow> cpu \<Rightarrow> cpu" where
  "switch_restore m sp c =
     c\<lparr>c_eflags := m sp, c_general := map (\<lambda>k. m (sp + 4 * of_nat k)) [1..<8], c_eip := m (sp + 32),
       c_esp := sp + 36\<rparr>"

definition irq_return :: "(u32 \<Rightarrow> u32) \<Rightarrow> cpu \<Rightarrow> cpu" where
  "irq_return m c =
     (let sp = c_esp c in
      c\<lparr>c_segments := map (\<lambda>k. m (sp + 4 * of_nat k)) [0..<4],
        c_general := map (\<lambda>k. m (sp + 4 * of_nat k)) [4..<11],
        c_eip := m (sp + 52), c_cs := m (sp + 56), c_eflags := m (sp + 60), c_esp := sp + 64\<rparr>)"

text \<open>
  The stack that \<^verbatim>\<open>ktask_create\<close> builds makes the first switch to the task return through the
  interrupt path to the task's entry point, in the kernel code and data segments, with
  interrupts enabled, a null return address on top of the stack and the argument above it.
\<close>

theorem ktask_starts_at_entry:
  "let (m', sp) = ktask_stack m tos entry args iret;
       c1 = switch_restore m' sp c; c2 = irq_return m' c1
   in c_eip c1 = iret \<and> c_eip c2 = entry \<and> c_cs c2 = 0x8 \<and> c_segments c2 = [0x10, 0x10, 0x10, 0x10] \<and>
      c_eflags c2 = 0x200 \<and> m' (c_esp c2) = 0 \<and> m' (c_esp c2 + 4) = args"
  by (simp add: ktask_stack_def push_def skip_words_def switch_restore_def irq_return_def Let_def upt_rec)

section \<open>Round robin\<close>

text \<open>
  The tasks \<open>ts\<close> are linked in this order, none is marked finished, every one has the default time
  slice, and the one at \<open>i\<close> is running.
\<close>

definition next_in :: "u32 list \<Rightarrow> nat \<Rightarrow> u32" where
  "next_in ts k = (if k + 1 < length ts then ts ! (k + 1) else 0)"

definition fair_task :: "u32 \<Rightarrow> task \<Rightarrow> bool" where
  "fair_task nx t \<longleftrightarrow> t_next t = nx \<and> t_state t \<noteq> TS_FIN \<and> t_time_slice t = DEFAULT_TIME_SLICE \<and>
     t_time_remaining t = DEFAULT_TIME_SLICE"

definition round_inv :: "sched \<Rightarrow> u32 list \<Rightarrow> nat \<Rightarrow> bool" where
  "round_inv s ts i \<longleftrightarrow> sc_enabled s \<noteq> 0 \<and> sc_tasks_count s \<noteq> 1 \<and> distinct ts \<and> 0 \<notin> set ts \<and>
     i < length ts \<and> sc_tasks s = ts ! 0 \<and> sc_cur s = ts ! i \<and>
     (\<forall>k<length ts. \<exists>t. sc_store s (ts ! k) = Some t \<and> fair_task (next_in ts k) t)"

lemma round_inv_task:
  assumes "round_inv s ts i" and "k < length ts"
  obtains t where "sc_store s (ts ! k) = Some t" and "fair_task (next_in ts k) t" and "ts ! k \<noteq> 0"
  using assms unfolding round_inv_def by (metis nth_mem)

lemma pick_next_round:
  assumes inv: "round_inv s ts i"
  shows "mt_pick_next_task s = Inr (ts ! ((i + 1) mod length ts))"
proof -
  have i: "i < length ts" "sc_cur s = ts ! i" "sc_tasks s = ts ! 0" using inv by (auto simp: round_inv_def)
  obtain t where t: "sc_store s (ts ! i) = Some t" "fair_task (next_in ts i) t" "ts ! i \<noteq> 0"
    using round_inv_task [OF inv i(1)] .
  show ?thesis
  proof (cases "i + 1 < length ts")
    case True
    obtain t' where "sc_store s (ts ! (i + 1)) = Some t'" "fair_task (next_in ts (i + 1)) t'" "ts ! (i + 1) \<noteq> 0"
      using round_inv_task [OF inv True] .
    then show ?thesis
      using t i True by (simp add: mt_pick_next_task_def fair_task_def next_in_def)
  next
    case False
    then have "(i + 1) mod length ts = 0" using i(1) by (metis Suc_eq_plus1 Suc_lessI mod_self)
    then show ?thesis
      using t i False by (simp add: mt_pick_next_task_def fair_task_def next_in_def)
  qed
qed

lemma round_schedule:
  assumes inv: "round_inv s ts i"
  shows "\<exists>s' esp'. mt_schedule s esp = Inr (esp', s') \<and> round_inv s' ts ((i + 1) mod length ts) \<and>
    (\<exists>t. sc_store s' (ts ! i) = Some t \<and> t_esp t = esp)"
proof -
  define j where "j = (i + 1) mod length ts"
  have i: "i < length ts" "sc_cur s = ts ! i" "sc_tasks s = ts ! 0" "sc_enabled s \<noteq> 0"
      "sc_tasks_count s \<noteq> 1" "distinct ts"
    using inv by (auto simp: round_inv_def)
  have j: "j < length ts" unfolding j_def using i(1) by (intro mod_less_divisor) linarith
  obtain t where t: "sc_store s (ts ! i) = Some t" "fair_task (next_in ts i) t" "ts ! i \<noteq> 0"
    using round_inv_task [OF inv i(1)] .
  define s1 where "s1 = s\<lparr>sc_store := (sc_store s)(ts ! i \<mapsto> t\<lparr>t_time_remaining := 0\<rparr>)\<rparr>"
  define s2 where "s2 = s\<lparr>sc_store := (sc_store s)(ts ! i \<mapsto> t\<lparr>t_time_remaining := DEFAULT_TIME_SLICE\<rparr>)\<rparr>"
  have "s2 = s"
    using t by (simp add: s2_def fair_task_def fun_upd_idem)
  then have pick: "mt_pick_next_task s2 = Inr (ts ! j)" using pick_next_round [OF inv, folded j_def] by simp
  have tick: "upd_task s (sc_cur s) (\<lambda>t. t\<lparr>t_time_remaining := t_time_remaining t - 1\<rparr>) = Inr s1"
    using t i by (simp add: upd_task_def s1_def fair_task_def)
  have reset: "upd_task s1 (sc_cur s1) (\<lambda>t. t\<lparr>t_time_remaining := t_time_slice t\<rparr>) = Inr s"
    using t i \<open>s2 = s\<close> by (simp add: upd_task_def s1_def s2_def fair_task_def)
  obtain n where n: "sc_store s (ts ! j) = Some n" "fair_task (next_in ts j) n" "ts ! j \<noteq> 0"
    using round_inv_task [OF inv j] .
  define s3 where "s3 = s\<lparr>sc_tss_esp0 := t_allocated_stack n + DEFAULT_STACK_SIZE,
      sc_cr3 := (if t_cr3 t \<noteq> t_cr3 n then t_cr3 n else sc_cr3 s)\<rparr>"
  define c4 where "c4 = (if ts ! j = ts ! i then n\<lparr>t_state := TS_RUN\<rparr> else t)"
  define s6 where "s6 = s3\<lparr>sc_store := (sc_store s)(ts ! j \<mapsto> n\<lparr>t_state := TS_RUN\<rparr>,
      ts ! i \<mapsto> c4\<lparr>t_state := TS_SUS, t_esp := esp\<rparr>), sc_cur := ts ! j\<rparr>"
  have c4: "t_state c4 \<noteq> TS_FIN" "fair_task (next_in ts i) c4"
    using t(2) n(2) \<open>s2 = s\<close> t(1) n(1) by (auto simp: c4_def fair_task_def)
  define s4 where "s4 = s3\<lparr>sc_store := (sc_store s)(ts ! j \<mapsto> n\<lparr>t_state := TS_RUN\<rparr>)\<rparr>"
  define s5 where "s5 = s3\<lparr>sc_store := (sc_store s4)(ts ! i \<mapsto> c4\<lparr>t_state := TS_SUS\<rparr>)\<rparr>"
  have u4: "upd_task s3 (ts ! j) (\<lambda>t. t\<lparr>t_state := TS_RUN\<rparr>) = Inr s4"
    using n by (simp add: upd_task_def s3_def s4_def)
  have d4: "deref (sc_store s4) (sc_cur s4) = Inr c4"
    using t i n by (simp add: s4_def s3_def c4_def)
  have u5: "upd_task s4 (sc_cur s4) (\<lambda>t. t\<lparr>t_state := TS_SUS\<rparr>) = Inr s5"
    using d4 t(3) i(2) by (simp add: upd_task_def s5_def s4_def s3_def)
  obtain esp' where sw: "mt_switch_task s5 esp (ts ! j) = Inr (esp', s6)"
  proof -
    have "\<exists>x. deref ((sc_store s)(ts ! j \<mapsto> n\<lparr>t_state := TS_RUN\<rparr>, ts ! i \<mapsto> c4\<lparr>t_state := TS_SUS, t_esp := esp\<rparr>))
        (ts ! j) = Inr x"
      using n(3) by simp
    then show thesis
      using that t(3) i(2) by (auto simp: mt_switch_task_def upd_task_def s5_def s4_def s3_def s6_def)
  qed
  have d1: "deref (sc_store s1) (sc_cur s1) = Inr (t\<lparr>t_time_remaining := 0\<rparr>)"
    using t(3) i(2) by (simp add: s1_def)
  have s3': "s\<lparr>sc_tss_esp0 := t_allocated_stack n + DEFAULT_STACK_SIZE,
      sc_cr3 := (if t_cr3 (t\<lparr>t_time_remaining := 0\<rparr>) \<noteq> t_cr3 n then t_cr3 n else sc_cr3 s)\<rparr> = s3"
    by (simp add: s3_def)
  have dn: "deref (sc_store s) (ts ! j) = Inr n" using n by simp
  have run: "mt_schedule s esp = Inr (esp', s6)"
    unfolding mt_schedule_def Let_def mt_is_initialized_def
    using i(4,5) c4(1) pick [unfolded \<open>s2 = s\<close>]
    by (simp add: tick d1 reset dn s3' [simplified] u4 d4 u5 sw)
  have "\<exists>u. sc_store s6 (ts ! k) = Some u \<and> fair_task (next_in ts k) u" if k: "k < length ts" for k
  proof -
    obtain u where u: "sc_store s (ts ! k) = Some u" "fair_task (next_in ts k) u"
      using round_inv_task [OF inv k] by metis
    have "ts ! k = ts ! i \<longleftrightarrow> k = i" and "ts ! k = ts ! j \<longleftrightarrow> k = j"
      using i(1,6) j k by (simp_all add: nth_eq_iff_index_eq)
    then show ?thesis
      using u c4(2) n(2) by (auto simp: s6_def fair_task_def)
  qed
  then have "round_inv s6 ts j"
    using inv j unfolding round_inv_def by (simp add: s6_def s3_def)
  then show ?thesis
    unfolding j_def [symmetric] using run by (intro exI [of _ s6] exI [of _ esp']) (simp add: s6_def)
qed

text \<open>One timer tick after the other, with the stack pointer of the processor at each.\<close>

fun schedules :: "sched \<Rightarrow> u32 list \<Rightarrow> sched res" where
  "schedules s [] = Inr s"
| "schedules s (esp # esps) = rbind (mt_schedule s esp) (\<lambda>(_, s1). schedules s1 esps)"

text \<open>
  Starting from any task of the list, after \<open>n\<close> timer ticks the task \<open>n\<close> places further round
  the list is running: within one round every task runs, in the order of the list.
\<close>

theorem schedule_round_robin:
  assumes "round_inv s ts i"
  shows "\<exists>s'. schedules s esps = Inr s' \<and> round_inv s' ts ((i + length esps) mod length ts) \<and>
    sc_cur s' = ts ! ((i + length esps) mod length ts)"
proof -
  have "\<exists>s'. schedules s esps = Inr s' \<and> round_inv s' ts ((i + length esps) mod length ts)"
    using assms
  proof (induction esps arbitrary: s i)
    case Nil
    then show ?case by (auto simp: round_inv_def)
  next
    case (Cons esp esps)
    obtain s1 esp' where s1: "mt_schedule s esp = Inr (esp', s1)" "round_inv s1 ts ((i + 1) mod length ts)"
      using round_schedule [OF Cons.prems] by blast
    from Cons.IH [OF s1(2)] s1(1) show ?case by (simp add: mod_simps)
  qed
  then show ?thesis by (auto simp: round_inv_def)
qed

definition demo_task :: "u32 \<Rightarrow> u32 \<Rightarrow> u32 \<Rightarrow> task" where
  "demo_task pid nx pv = \<lparr>t_esp = 0x9000, t_pid = pid, t_uid = 0, t_esp0 = 0, t_cr3 = 0, t_allocated_stack = 0,
     t_stack_size = 0x4000, t_time_slice = 1, t_time_remaining = 1, t_ppid = 0, t_next = nx, t_prev = pv,
     t_fds = \<lparr>dl_data = [], dl_used = 0, dl_size = 0\<rparr>, t_cwd = 0, t_state = 1, t_name = ''t''\<rparr>"

definition demo_sched :: sched where
  "demo_sched = \<lparr>sc_enabled = 1, sc_tasks = 0x100, sc_tasks_count = 0, sc_cur = 0x100, sc_fg = 0,
     sc_terminated = 0, sc_store = (\<lambda>_. None)(0x100 \<mapsto> demo_task 0 0x200 0, 0x200 \<mapsto> demo_task 1 0x300 0x100,
     0x300 \<mapsto> demo_task 2 0 0x200), sc_next_pid = 3, sc_tss_esp0 = 0, sc_cr3 = 0\<rparr>"

lemma demo_sched_round: "round_inv demo_sched [0x100, 0x200, 0x300] 0"
  by (auto simp: round_inv_def demo_sched_def demo_task_def fair_task_def next_in_def nth_Cons less_Suc_eq
    split: nat.splits)

theorem schedule_round_robin_witness:
  "\<exists>s'. schedules demo_sched [1, 2, 3, 4] = Inr s' \<and>
    round_inv s' [0x100, 0x200, 0x300] ((0 + length [1, 2, 3, 4 :: u32]) mod length [0x100, 0x200, 0x300 :: u32]) \<and>
    sc_cur s' = [0x100, 0x200, 0x300] ! ((0 + length [1, 2, 3, 4 :: u32]) mod length [0x100, 0x200, 0x300 :: u32])"
  by (rule schedule_round_robin [OF demo_sched_round])

section \<open>Terminating a task\<close>

text \<open>\<open>tseg st pr ps nx\<close>: the tasks \<open>ps\<close> are linked both ways, from \<open>pr\<close> to \<open>nx\<close>.\<close>

fun tseg :: "(u32 \<Rightarrow> task option) \<Rightarrow> u32 \<Rightarrow> u32 list \<Rightarrow> u32 \<Rightarrow> bool" where
  "tseg st pr [] nx \<longleftrightarrow> True"
| "tseg st pr (p # ps) nx \<longleftrightarrow> p \<noteq> 0 \<and>
     (\<exists>t. st p = Some t \<and> t_next t = hd (ps @ [nx]) \<and> t_prev t = pr) \<and> tseg st p ps nx"

lemma tseg_append: "tseg st pr (xs @ ys) nx \<longleftrightarrow> tseg st pr xs (hd (ys @ [nx])) \<and> tseg st (last (pr # xs)) ys nx"
proof (induction xs arbitrary: pr)
  case (Cons x xs)
  have "hd ((xs @ ys) @ [nx]) = hd (xs @ [hd (ys @ [nx])])" by (cases xs) auto
  then show ?case using Cons by simp
qed simp

lemma tseg_frame [simp]: "p \<notin> set ps \<Longrightarrow> tseg (st(p \<mapsto> x)) pr ps nx \<longleftrightarrow> tseg st pr ps nx"
  by (induction st pr ps nx rule: tseg.induct) auto

text \<open>The terminated tasks are only linked forwards.\<close>

fun nseg :: "(u32 \<Rightarrow> task option) \<Rightarrow> u32 list \<Rightarrow> bool" where
  "nseg st [] \<longleftrightarrow> True"
| "nseg st (p # ps) \<longleftrightarrow> p \<noteq> 0 \<and> (\<exists>t. st p = Some t \<and> t_next t = hd (ps @ [0])) \<and> nseg st ps"

lemma nseg_frame [simp]: "p \<notin> set ps \<Longrightarrow> nseg (st(p \<mapsto> x)) ps \<longleftrightarrow> nseg st ps"
  by (induction ps) auto

lemma nseg_set_prev: "nseg st ps \<Longrightarrow> st p = Some t \<Longrightarrow> nseg (st(p \<mapsto> t\<lparr>t_prev := v\<rparr>)) ps"
  by (induction ps) auto

definition same_ids :: "sched \<Rightarrow> sched \<Rightarrow> bool" where
  "same_ids s s' \<longleftrightarrow> (\<forall>r t. sc_store s r = Some t \<longrightarrow>
     (\<exists>t'. sc_store s' r = Some t' \<and> t_pid t' = t_pid t \<and> t_ppid t' = t_ppid t))"

lemma same_ids_upd:
  assumes "same_ids s (s\<lparr>sc_store := st\<rparr>)" and "st r = Some x" and "t_pid y = t_pid x" and "t_ppid y = t_ppid x"
  shows "same_ids s (s\<lparr>sc_store := st(r \<mapsto> y)\<rparr>)"
  unfolding same_ids_def
proof (intro allI impI)
  fix q t assume "sc_store s q = Some t"
  then obtain t' where "st q = Some t'" "t_pid t' = t_pid t" "t_ppid t' = t_ppid t"
    using assms(1) by (auto simp: same_ids_def)
  then show "\<exists>t'. sc_store (s\<lparr>sc_store := st(r \<mapsto> y)\<rparr>) q = Some t' \<and> t_pid t' = t_pid t \<and> t_ppid t' = t_ppid t"
    using assms(2-4) by (cases "q = r") auto
qed

lemma same_ids_term [simp]: "same_ids s (s'\<lparr>sc_terminated := p\<rparr>) \<longleftrightarrow> same_ids s s'"
  by (simp add: same_ids_def)

lemma move_terminated_ok:
  assumes tasks: "tseg (sc_store s) pr (xs @ p # ys) 0" and "xs \<noteq> []" and d: "distinct (xs @ p # ys @ us)"
    and us: "nseg (sc_store s) us" "sc_terminated s = hd (us @ [0])"
  shows "\<exists>s'. move_terminated s p = Inr s' \<and> tseg (sc_store s') pr (xs @ ys) 0 \<and>
    nseg (sc_store s') (p # us) \<and> sc_terminated s' = p \<and> sc_tasks s' = sc_tasks s \<and> same_ids s s'"
proof -
  obtain zs q where xs: "xs = zs @ [q]" using assms(2) by (metis rev_exhaust)
  obtain t where t: "sc_store s p = Some t" "t_next t = hd (ys @ [0])" "t_prev t = q" "p \<noteq> 0"
    using tasks by (auto simp: tseg_append xs)
  obtain tq where q: "sc_store s q = Some tq" "t_next tq = p" "t_prev tq = last (pr # zs)" "q \<noteq> 0"
    using tasks by (auto simp: tseg_append xs)
  have zy: "tseg (sc_store s) pr zs q" "tseg (sc_store s) p ys 0"
    using tasks by (simp_all add: tseg_append xs)
  have ne: "p \<noteq> q" "p \<notin> set zs" "p \<notin> set ys" "p \<notin> set us" "q \<notin> set zs" "q \<notin> set ys" "q \<notin> set us"
      "set ys \<inter> set us = {}" "set zs \<inter> set us = {}" "set zs \<inter> set ys = {}" "distinct ys" "distinct us"
    using d xs by auto
  let ?st1 = "(sc_store s)(q \<mapsto> tq\<lparr>t_next := hd (ys @ [0])\<rparr>)"
  obtain st2 where st2: "(if hd (ys @ [0]) \<noteq> 0 then upd_task (s\<lparr>sc_store := ?st1\<rparr>) (hd (ys @ [0])) (\<lambda>x. x\<lparr>t_prev := q\<rparr>)
        else Inr (s\<lparr>sc_store := ?st1\<rparr>)) = Inr (s\<lparr>sc_store := st2\<rparr>)"
      "tseg st2 pr (xs @ ys) 0" "nseg st2 us" "st2 p = Some t" "same_ids s (s\<lparr>sc_store := st2\<rparr>)"
  proof (cases ys)
    case Nil
    then show thesis
      using that [of ?st1] zy q t us ne by (auto simp: tseg_append xs same_ids_def)
  next
    case (Cons y ys')
    obtain ty where y: "sc_store s y = Some ty" "y \<noteq> 0" "t_next ty = hd (ys' @ [0])" "tseg (sc_store s) y ys' 0"
      using zy(2) Cons by auto
    have ney: "y \<noteq> q" "y \<noteq> p" "y \<notin> set zs" "y \<notin> set us" "y \<notin> set ys'" using ne Cons by auto
    show thesis
      using that [of "?st1(y \<mapsto> ty\<lparr>t_prev := q\<rparr>)"] Cons y ney zy q t us ne
      by (auto simp: tseg_append xs same_ids_def upd_task_def)
  qed
  have run: "move_terminated s p = (if sc_terminated s = 0 then
         rbind (upd_task (s\<lparr>sc_store := st2\<rparr>) p (\<lambda>x. x\<lparr>t_next := 0, t_prev := 0\<rparr>)) (\<lambda>s3. Inr (s3\<lparr>sc_terminated := p\<rparr>))
       else
         rbind (upd_task (s\<lparr>sc_store := st2\<rparr>) p (\<lambda>x. x\<lparr>t_next := sc_terminated s\<rparr>)) (\<lambda>s3.
         rbind (upd_task s3 (sc_terminated s3) (\<lambda>x. x\<lparr>t_prev := p\<rparr>)) (\<lambda>s4.
         Inr (s4\<lparr>sc_terminated := p\<rparr>))))"
  proof -
    have a: "upd_task s (t_prev t) (\<lambda>x. x\<lparr>t_next := t_next t\<rparr>) = Inr (s\<lparr>sc_store := ?st1\<rparr>)"
      using t q by (simp add: upd_task_def)
    have b: "(if t_next t \<noteq> 0 then upd_task (s\<lparr>sc_store := ?st1\<rparr>) (t_next t) (\<lambda>x. x\<lparr>t_prev := t_prev t\<rparr>)
        else Inr (s\<lparr>sc_store := ?st1\<rparr>)) = Inr (s\<lparr>sc_store := st2\<rparr>)"
      using st2(1) by (simp only: t(2,3))
    have pz: "t_prev t \<noteq> 0" using t q by simp
    show ?thesis
      unfolding move_terminated_def using t(1,4) ne(1) pz by (simp add: a b)
  qed
  have pxy: "p \<notin> set (xs @ ys)" using ne xs by auto
  show ?thesis
  proof (cases us)
    case Nil
    let ?s = "s\<lparr>sc_store := st2(p \<mapsto> t\<lparr>t_next := 0, t_prev := 0\<rparr>), sc_terminated := p\<rparr>"
    have "move_terminated s p = Inr ?s"
      using run us(2) Nil st2(4) t(4) by (simp add: upd_task_def)
    then show ?thesis
      using st2 pxy t(1,4) Nil same_ids_upd [OF st2(5,4)] by (intro exI [of _ ?s]) simp
  next
    case (Cons u us')
    obtain tu where u: "st2 u = Some tu" "u \<noteq> 0" using st2(3) Cons by auto
    have neu: "u \<noteq> p" "u \<notin> set (xs @ ys)" using ne Cons xs by auto
    let ?st3 = "st2(p \<mapsto> t\<lparr>t_next := u\<rparr>)"
    let ?s = "s\<lparr>sc_store := ?st3(u \<mapsto> tu\<lparr>t_prev := p\<rparr>), sc_terminated := p\<rparr>"
    have "move_terminated s p = Inr ?s"
      using run us(2) Cons st2(4) t(4) u neu by (simp add: upd_task_def)
    moreover have "nseg (?st3(u \<mapsto> tu\<lparr>t_prev := p\<rparr>)) us"
      using st2(3) ne(4) u(1) neu(1) by (intro nseg_set_prev) auto
    moreover have "same_ids s ?s"
      using same_ids_upd [OF same_ids_upd [OF st2(5,4), of "t\<lparr>t_next := u\<rparr>"], of u tu] u(1) neu(1) by simp
    ultimately show ?thesis
      using st2(2) pxy t(1,4) Cons neu u ne(4) by (intro exI [of _ ?s]) simp
  qed
qed

lemma children_none:
  "tseg (sc_store s) pr ps 0 \<Longrightarrow> \<forall>r\<in>set ps. \<forall>t. sc_store s r = Some t \<longrightarrow> t_ppid t \<noteq> pid \<Longrightarrow>
     terminate_run s (Children (hd (ps @ [0])) pid) = Some (Inr s)"
proof (induction ps arbitrary: pr)
  case Nil
  then show ?case by (subst terminate_run.simps) simp
next
  case (Cons p ps)
  then show ?case by (subst terminate_run.simps) auto
qed

text \<open>
  C18. Terminating a task other than the first that has no child takes exactly this task out of the
  list of tasks, whose links stay consistent, and puts it in front of the terminated ones.
\<close>

theorem mt_task_terminate_unlinks:
  assumes "tseg (sc_store s) pr (xs @ p # ys) 0" and "xs \<noteq> []" and "distinct (xs @ p # ys @ us)"
    and "nseg (sc_store s) us" and "sc_terminated s = hd (us @ [0])" and "sc_tasks s = hd xs"
    and "sc_store s p = Some t" and "t_pid t \<noteq> 0"
    and "\<forall>r\<in>set (xs @ ys). \<forall>u. sc_store s r = Some u \<longrightarrow> t_ppid u \<noteq> t_pid t"
  shows "\<exists>s'. mt_task_terminate s p = Inr s' \<and> sc_tasks s' = sc_tasks s \<and> tseg (sc_store s') pr (xs @ ys) 0 \<and>
    sc_terminated s' = p \<and> nseg (sc_store s') (p # us)"
proof -
  obtain s' where s': "move_terminated s p = Inr s'" "tseg (sc_store s') pr (xs @ ys) 0"
      "nseg (sc_store s') (p # us)" "sc_terminated s' = p" "sc_tasks s' = sc_tasks s" "same_ids s s'"
    using move_terminated_ok [OF assms(1-5)] by blast
  have "u = u \<and> t_ppid u \<noteq> t_pid t" if "r \<in> set (xs @ ys)" "sc_store s' r = Some u" for r u
  proof -
    have "\<exists>v. sc_store s r = Some v"
      using assms(1) that(1) by (auto simp: tseg_append dest!: split_list)
    then show ?thesis using s'(6) assms(9) that by (fastforce simp: same_ids_def)
  qed
  then have "terminate_run s' (Children (hd ((xs @ ys) @ [0])) (t_pid t)) = Some (Inr s')"
    using children_none [OF s'(2), of "t_pid t"] by blast
  moreover have "hd ((xs @ ys) @ [0]) = sc_tasks s'" using assms(2,6) s'(5) by simp
  moreover have "p \<noteq> 0" using assms(1) by (simp add: tseg_append)
  ultimately have "terminate_run s (Terminate p) = Some (Inr s')"
    using assms(7,8) s'(1) by (subst terminate_run.simps) simp
  then show ?thesis using s' by (simp add: mt_task_terminate_def)
qed

theorem mt_task_terminate_unlinks_witness:
  "\<exists>s'. mt_task_terminate demo_sched 0x200 = Inr s' \<and> sc_tasks s' = sc_tasks demo_sched \<and>
    tseg (sc_store s') 0 ([0x100] @ [0x300]) 0 \<and> sc_terminated s' = 0x200 \<and> nseg (sc_store s') [0x200]"
  by (rule mt_task_terminate_unlinks [where us = "[]" and t = "demo_task 1 0x300 0x100"]) (simp_all add: demo_sched_def demo_task_def)

text \<open>
  No task is ever marked finished, so after it has terminated with other terminated tasks waiting
  for the cleaner, the current task is followed by one of these: it runs again.
\<close>

lemma pick_terminated:
  assumes "nseg (sc_store s) (sc_cur s # u # us)" and "sc_store s u = Some t" and "t_state t \<noteq> TS_FIN"
  shows "mt_pick_next_task s = Inr u"
  using assms by (auto simp: mt_pick_next_task_def)

end
