(* ===== verification/Vfs.thy ===== *)
theory Vfs
  imports Libk_String
begin

text \<open>
  \<^verbatim>\<open>kernel/fs/vfs.c\<close> and \<^verbatim>\<open>devfs.c\<close>: the tree of file system nodes. Nodes and the file objects they
  own are typed stores; names and paths are lists of characters, split with the token function
  that \<open>Libk_String\<close> proves \<^verbatim>\<open>strtok\<close> to compute. File operations are code addresses, with \<open>ops\<close> giving
  what the code at an address does.
\<close>

section \<open>State\<close>

record vnode =
  vn_name :: string
  vn_parent :: u32
  vn_childs :: u32
  vn_file :: u32
  vn_next :: u32
  vn_prev :: u32

record vfile =
  vf_name :: string
  vf_type :: u8
  vf_permissions :: u16
  vf_uid :: u32
  vf_gid :: u32
  vf_inode :: u32
  vf_size :: u32
  vf_fs :: u32
  vf_read :: u32
  vf_write :: u32
  vf_open :: u32
  vf_close :: u32
  vf_readdir :: u32
  vf_finddir :: u32
  vf_ptr :: u32

record vfs =
  vs_root :: u32
  vs_nodes :: "u32 \<Rightarrow> vnode option"
  vs_files :: "u32 \<Rightarrow> vfile option"
  vs_fresh :: u32

abbreviation (input) VFS_FILE :: u8 where "VFS_FILE \<equiv> 0"
abbreviation (input) VFS_DIR :: u8 where "VFS_DIR \<equiv> 1"
abbreviation (input) VFS_CDEV :: u8 where "VFS_CDEV \<equiv> 2"
abbreviation (input) VFS_BDEV :: u8 where "VFS_BDEV \<equiv> 3"
abbreviation (input) VFS_PIPE :: u8 where "VFS_PIPE \<equiv> 5"
abbreviation (input) VFS_MTPT :: u8 where "VFS_MTPT \<equiv> 6"
abbreviation (input) VFS_SYMLNK :: u8 where "VFS_SYMLNK \<equiv> 4"
abbreviation (input) VFS_SOCKET :: u8 where "VFS_SOCKET \<equiv> 7"

abbreviation (input) VFS_PERMISSIONS_OTHER_X :: u16 where "VFS_PERMISSIONS_OTHER_X \<equiv> 0x001"
abbreviation (input) VFS_PERMISSIONS_OTHER_W :: u16 where "VFS_PERMISSIONS_OTHER_W \<equiv> 0x002"
abbreviation (input) VFS_PERMISSIONS_OTHER_R :: u16 where "VFS_PERMISSIONS_OTHER_R \<equiv> 0x004"
abbreviation (input) VFS_PERMISSIONS_GROUP_X :: u16 where "VFS_PERMISSIONS_GROUP_X \<equiv> 0x008"
abbreviation (input) VFS_PERMISSIONS_GROUP_W :: u16 where "VFS_PERMISSIONS_GROUP_W \<equiv> 0x010"
abbreviation (input) VFS_PERMISSIONS_GROUP_R :: u16 where "VFS_PERMISSIONS_GROUP_R \<equiv> 0x020"
abbreviation (input) VFS_PERMISSIONS_USER_X :: u16 where "VFS_PERMISSIONS_USER_X \<equiv> 0x040"
abbreviation (input) VFS_PERMISSIONS_USER_W :: u16 where "VFS_PERMISSIONS_USER_W \<equiv> 0x080"
abbreviation (input) VFS_PERMISSIONS_USER_R :: u16 where "VFS_PERMISSIONS_USER_R \<equiv> 0x100"

definition upd_vnode :: "vfs \<Rightarrow> u32 \<Rightarrow> (vnode \<Rightarrow> vnode) \<Rightarrow> vfs res" where
  "upd_vnode s p f = rbind (deref (vs_nodes s) p) (\<lambda>n. Inr (s\<lparr>vs_nodes := (vs_nodes s)(p \<mapsto> f n)\<rparr>))"

definition upd_vfile :: "vfs \<Rightarrow> u32 \<Rightarrow> (vfile \<Rightarrow> vfile) \<Rightarrow> vfs res" where
  "upd_vfile s p f = rbind (deref (vs_files s) p) (\<lambda>n. Inr (s\<lparr>vs_files := (vs_files s)(p \<mapsto> f n)\<rparr>))"

definition node_file :: "vfs \<Rightarrow> u32 \<Rightarrow> vfile res" where
  "node_file s p = rbind (deref (vs_nodes s) p) (\<lambda>n. deref (vs_files s) (vn_file n))"

definition upd_node_file :: "vfs \<Rightarrow> u32 \<Rightarrow> (vfile \<Rightarrow> vfile) \<Rightarrow> vfs res" where
  "upd_node_file s p f = rbind (deref (vs_nodes s) p) (\<lambda>n. upd_vfile s (vn_file n) f)"

section \<open>File operations\<close>

definition vfs_read :: "(u32 \<Rightarrow> vfile \<Rightarrow> u32 \<Rightarrow> u32 \<Rightarrow> (u32 \<times> 'a) res) \<Rightarrow> 'a \<Rightarrow> vfile \<Rightarrow> u32 \<Rightarrow> u32 \<Rightarrow> (u32 \<times> 'a) res" where
  "vfs_read ops s file offset n = (if vf_read file \<noteq> 0 then ops (vf_read file) file offset n else Inr (0, s))"

definition vfs_write :: "(u32 \<Rightarrow> vfile \<Rightarrow> u32 \<Rightarrow> u32 \<Rightarrow> (u32 \<times> 'a) res) \<Rightarrow> 'a \<Rightarrow> vfile \<Rightarrow> u32 \<Rightarrow> u32 \<Rightarrow> (u32 \<times> 'a) res" where
  "vfs_write ops s file offset n = (if vf_write file \<noteq> 0 then ops (vf_write file) file offset n else Inr (0, s))"

definition vfs_open :: "(u32 \<Rightarrow> vfile \<Rightarrow> (u8 \<times> 'a) res) \<Rightarrow> 'a \<Rightarrow> vfile \<Rightarrow> (u8 \<times> 'a) res" where
  "vfs_open ops s file = (if vf_open file \<noteq> 0 then ops (vf_open file) file else Inr (0, s))"

definition vfs_close :: "(u32 \<Rightarrow> vfile \<Rightarrow> (u8 \<times> 'a) res) \<Rightarrow> 'a \<Rightarrow> vfile \<Rightarrow> (u8 \<times> 'a) res" where
  "vfs_close ops s file = (if vf_close file \<noteq> 0 then ops (vf_close file) file else Inr (0, s))"

definition vfs_readdir :: "(u32 \<Rightarrow> vfile \<Rightarrow> u32 \<Rightarrow> u32) \<Rightarrow> vfile \<Rightarrow> u32 \<Rightarrow> u32" where
  "vfs_readdir ops file index = (if vf_readdir file \<noteq> 0 then ops (vf_readdir file) file index else 0)"

definition vfs_finddir :: "(u32 \<Rightarrow> vfile \<Rightarrow> string \<Rightarrow> u32) \<Rightarrow> vfile \<Rightarrow> string \<Rightarrow> u32" where
  "vfs_finddir ops file name = (if vf_finddir file \<noteq> 0 then ops (vf_finddir file) file name else 0)"

section \<open>Nodes\<close>

text \<open>
  The heap hands out memory in ascending order: the node (24 bytes), its name (256) and its file
  object (56). \<open>memset(node, 0, sizeof(node))\<close> clears only the first 4 bytes, so all other fields keep
  what the memory held: \<open>gn\<close> and \<open>gf\<close>.
\<close>

definition vfs_create_node :: "vnode \<Rightarrow> vfile \<Rightarrow> vfs \<Rightarrow> string \<Rightarrow> u8 \<Rightarrow> u32 \<times> vfs" where
  "vfs_create_node gn gf s name type =
     (let p = vs_fresh s; f = p + 280;
          perms0 = (if type = VFS_DIR then 0x4000 OR VFS_PERMISSIONS_USER_X OR VFS_PERMISSIONS_GROUP_X OR VFS_PERMISSIONS_OTHER_X else 0);
          perms = perms0 OR VFS_PERMISSIONS_USER_R OR VFS_PERMISSIONS_USER_W OR VFS_PERMISSIONS_GROUP_R OR VFS_PERMISSIONS_OTHER_R
      in (p, s\<lparr>vs_fresh := p + 336,
               vs_nodes := (vs_nodes s)(p \<mapsto> gn\<lparr>vn_name := name, vn_file := f, vn_childs := 0, vn_next := 0\<rparr>),
               vs_files := (vs_files s)(f \<mapsto> gf\<lparr>vf_name := name, vf_type := type, vf_permissions := perms\<rparr>)\<rparr>))"

partial_function (option) last_child :: "(u32 \<Rightarrow> vnode option) \<Rightarrow> u32 \<Rightarrow> u32 res option" where
  "last_child ns p = (case deref ns p of Inl e \<Rightarrow> Some (Inl e)
     | Inr n \<Rightarrow> if vn_next n \<noteq> 0 then last_child ns (vn_next n) else Some (Inr p))"

definition vfs_add_child :: "vnode \<Rightarrow> vfile \<Rightarrow> vfs \<Rightarrow> u32 \<Rightarrow> string \<Rightarrow> u8 \<Rightarrow> (u32 \<times> vfs) res" where
  "vfs_add_child gn gf s parent name type =
     (if parent = 0 then Inr (0, s)
      else
        rbind (deref (vs_nodes s) parent) (\<lambda>n.
          if vn_childs n = 0 then
            (let (c, s1) = vfs_create_node gn gf s name type in
             rbind (upd_vnode s1 parent (\<lambda>x. x\<lparr>vn_childs := c\<rparr>)) (\<lambda>s2.
             rbind (upd_vnode s2 c (\<lambda>x. x\<lparr>vn_parent := parent\<rparr>)) (\<lambda>s3. Inr (c, s3))))
          else
            rbind (returned (last_child (vs_nodes s) (vn_childs n))) (\<lambda>l.
              let (c, s1) = vfs_create_node gn gf s name type in
              rbind (upd_vnode s1 l (\<lambda>x. x\<lparr>vn_next := c\<rparr>)) (\<lambda>s2.
              rbind (upd_vnode s2 c (\<lambda>x. x\<lparr>vn_parent := parent, vn_prev := l\<rparr>)) (\<lambda>s3. Inr (c, s3))))))"

fun nth_child :: "(u32 \<Rightarrow> vnode option) \<Rightarrow> u32 \<Rightarrow> nat \<Rightarrow> u32 res" where
  "nth_child ns p 0 = Inr p"
| "nth_child ns p (Suc i) =
     rbind (deref ns p) (\<lambda>n. if vn_next n = 0 then Inr 0 else nth_child ns (vn_next n) i)"

definition vfs_get_child :: "vfs \<Rightarrow> u32 \<Rightarrow> u32 \<Rightarrow> u32 res" where
  "vfs_get_child s parent index =
     rbind (deref (vs_nodes s) parent) (\<lambda>n.
       if vn_childs n = 0 then Inr 0
       else rbind (nth_child (vs_nodes s) (vn_childs n) (unat index)) (\<lambda>c.
            rbind (deref (vs_nodes s) c) (\<lambda>cn.
              if vn_name cn = ''.'' then Inr (vn_parent cn)
              else if vn_name cn = ''..'' then
                rbind (deref (vs_nodes s) (vn_parent cn)) (\<lambda>pn. Inr (vn_parent pn))
              else Inr c)))"

partial_function (option) search_child :: "(u32 \<Rightarrow> vnode option) \<Rightarrow> u32 \<Rightarrow> string \<Rightarrow> u32 res option" where
  "search_child ns p name = (case deref ns p of Inl e \<Rightarrow> Some (Inl e)
     | Inr n \<Rightarrow> if vn_name n \<noteq> name \<and> vn_next n \<noteq> 0 then search_child ns (vn_next n) name
              else Some (Inr (if vn_name n \<noteq> name then 0 else p)))"

definition vfs_get_child_by_name :: "vfs \<Rightarrow> u32 \<Rightarrow> string \<Rightarrow> u32 res" where
  "vfs_get_child_by_name s parent name =
     (if name = ''.'' then Inr parent
      else if name = ''..'' then rbind (deref (vs_nodes s) parent) (\<lambda>n. Inr (vn_parent n))
      else rbind (deref (vs_nodes s) parent) (\<lambda>n.
        if vn_childs n = 0 then Inr 0 else returned (search_child (vs_nodes s) (vn_childs n) name)))"

text \<open>Releasing a node and its children: the procedures call each other.\<close>

datatype free_call = Free_node u32 | Free_children u32 | Free_siblings u32

definition release_node :: "vfs \<Rightarrow> u32 \<Rightarrow> vfs res" where
  "release_node s p = rbind (deref (vs_nodes s) p) (\<lambda>n. Inr (s\<lparr>vs_nodes := (vs_nodes s)(p := None)\<rparr>))"

definition release_file :: "vfs \<Rightarrow> u32 \<Rightarrow> vfs res" where
  "release_file s p = rbind (deref (vs_nodes s) p) (\<lambda>n. Inr (s\<lparr>vs_files := (vs_files s)(vn_file n := None)\<rparr>))"

partial_function (option) free_run :: "vfs \<Rightarrow> free_call \<Rightarrow> vfs res option" where
  "free_run s c = (case c of
     Free_node p \<Rightarrow>
       (case release_file s p of Inl e \<Rightarrow> Some (Inl e) | Inr s1 \<Rightarrow>
          Option.bind (free_run s1 (Free_children p)) (\<lambda>r.
            case r of Inl e \<Rightarrow> Some (Inl e) | Inr s2 \<Rightarrow> Some (release_node s2 p)))
   | Free_children p \<Rightarrow>
       (case deref (vs_nodes s) p of Inl e \<Rightarrow> Some (Inl e) | Inr n \<Rightarrow>
          Option.bind (free_run s (Free_siblings (vn_childs n))) (\<lambda>r.
            case r of Inl e \<Rightarrow> Some (Inl e) | Inr s1 \<Rightarrow> Some (upd_vnode s1 p (\<lambda>x. x\<lparr>vn_childs := 0\<rparr>))))
   | Free_siblings p \<Rightarrow>
       (if p = 0 then Some (Inr s)
        else Option.bind (free_run s (Free_node p)) (\<lambda>r.
          case r of Inl e \<Rightarrow> Some (Inl e) | Inr s1 \<Rightarrow>
            (case deref (vs_nodes s1) p of Inl e \<Rightarrow> Some (Inl e)
             | Inr n \<Rightarrow> free_run s1 (Free_siblings (vn_next n))))))"

definition vfs_free_child_nodes :: "vfs \<Rightarrow> u32 \<Rightarrow> vfs res" where
  "vfs_free_child_nodes s p = returned (free_run s (Free_children p))"

definition vfs_free_node :: "vfs \<Rightarrow> u32 \<Rightarrow> vfs res" where
  "vfs_free_node s p = returned (free_run s (Free_node p))"

section \<open>Paths\<close>

definition vfs_get_root :: "vfs \<Rightarrow> u32" where
  "vfs_get_root s = vs_root s"

fun walk :: "vfs \<Rightarrow> u32 \<Rightarrow> string list \<Rightarrow> u32 res" where
  "walk s node [] = Inr node"
| "walk s node (tok # toks) =
     rbind (vfs_get_child_by_name s node tok) (\<lambda>c. if c = 0 then Inr 0 else walk s c toks)"

definition vfs_node_from_path :: "vfs \<Rightarrow> u32 \<Rightarrow> string \<Rightarrow> u32 res" where
  "vfs_node_from_path s root path =
     walk s (if path \<noteq> [] \<and> hd path = CHR ''/'' then vfs_get_root s else root) (tokens ''/'' path)"

text \<open>One step up: the parent's name is put in front.\<close>

definition prepend :: "string \<Rightarrow> string \<Rightarrow> string" where
  "prepend name path = name @ (if name \<noteq> ''/'' then ''/'' else []) @ path"

partial_function (option) abs_loop :: "(u32 \<Rightarrow> vnode option) \<Rightarrow> u32 \<Rightarrow> string \<Rightarrow> string res option" where
  "abs_loop ns p path = (case deref ns p of Inl e \<Rightarrow> Some (Inl e) | Inr n \<Rightarrow>
     (if vn_parent n \<noteq> p then
        (case deref ns (vn_parent n) of Inl e \<Rightarrow> Some (Inl e)
         | Inr pn \<Rightarrow> abs_loop ns (vn_parent n) (prepend (vn_name pn) path))
      else Some (Inr path)))"

text \<open>\<^term>\<open>None\<close> is the null pointer.\<close>

definition vfs_abs_path_to :: "vfs \<Rightarrow> u32 \<Rightarrow> string option res" where
  "vfs_abs_path_to s p =
     (if p = 0 then Inr None
      else rbind (deref (vs_nodes s) p) (\<lambda>n.
           rbind (returned (abs_loop (vs_nodes s) p (vn_name n))) (\<lambda>path. Inr (Some path))))"

text \<open>
  Only the first token is split off at slashes; the following \<^verbatim>\<open>strtok(NULL, " ")\<close> calls split the rest
  at blanks. \<open>bkp\<close> is the node before the current one.
\<close>

definition make_tokens :: "string \<Rightarrow> string list" where
  "make_tokens path = (case tokens ''/'' path of [] \<Rightarrow> []
     | t # _ \<Rightarrow> t # tokens '' '' (drop 1 (dropWhile (\<lambda>c. c \<noteq> CHR ''/'') (dropWhile (\<lambda>c. c = CHR ''/'') path))))"

fun make_walk :: "vnode \<Rightarrow> vfile \<Rightarrow> vfs \<Rightarrow> u32 \<Rightarrow> u32 \<Rightarrow> u8 \<Rightarrow> string list \<Rightarrow> (u32 \<times> vfs) res" where
  "make_walk gn gf s node bkp type [] = Inr (node, s)"
| "make_walk gn gf s node bkp type (tok # toks) =
     rbind (vfs_get_child_by_name s node tok) (\<lambda>c.
     rbind (if c = 0 then vfs_add_child gn gf s bkp tok type else Inr (c, s)) (\<lambda>(c1, s1).
     make_walk gn gf s1 c1 c1 type toks))"

definition vfs_make_node :: "vnode \<Rightarrow> vfile \<Rightarrow> vfs \<Rightarrow> u32 \<Rightarrow> string \<Rightarrow> u8 \<Rightarrow> u32 \<Rightarrow> (u32 \<times> vfs) res" where
  "vfs_make_node gn gf s root path type inode =
     rbind (make_walk gn gf s root root type (make_tokens path)) (\<lambda>(p, s1).
     rbind (upd_node_file s1 p (\<lambda>f. f\<lparr>vf_type := type, vf_inode := inode\<rparr>)) (\<lambda>s2.
     rbind (if type = VFS_FILE then vfs_free_child_nodes s2 p else Inr s2) (\<lambda>s3. Inr (p, s3))))"

definition vfs_is_dir :: "vfs \<Rightarrow> u32 \<Rightarrow> bool res" where
  "vfs_is_dir s p = rbind (node_file s p) (\<lambda>f. Inr (vf_type f = VFS_DIR))"

definition vfs_is_mtpt :: "vfs \<Rightarrow> u32 \<Rightarrow> bool res" where
  "vfs_is_mtpt s p = rbind (node_file s p) (\<lambda>f. Inr (vf_type f = VFS_MTPT))"

definition vfs_drwxrwxrwx :: "u16 \<Rightarrow> string" where
  "vfs_drwxrwxrwx p =
     [if p AND 0x4000 \<noteq> 0 then CHR ''d'' else CHR ''-'',
      if p AND VFS_PERMISSIONS_USER_R \<noteq> 0 then CHR ''r'' else CHR ''-'',
      if p AND VFS_PERMISSIONS_USER_W \<noteq> 0 then CHR ''w'' else CHR ''-'',
      if p AND VFS_PERMISSIONS_USER_X \<noteq> 0 then CHR ''x'' else CHR ''-'',
      if p AND VFS_PERMISSIONS_GROUP_R \<noteq> 0 then CHR ''r'' else CHR ''-'',
      if p AND VFS_PERMISSIONS_GROUP_W \<noteq> 0 then CHR ''w'' else CHR ''-'',
      if p AND VFS_PERMISSIONS_GROUP_X \<noteq> 0 then CHR ''x'' else CHR ''-'',
      if p AND VFS_PERMISSIONS_OTHER_R \<noteq> 0 then CHR ''r'' else CHR ''-'',
      if p AND VFS_PERMISSIONS_OTHER_W \<noteq> 0 then CHR ''w'' else CHR ''-'',
      if p AND VFS_PERMISSIONS_OTHER_X \<noteq> 0 then CHR ''x'' else CHR ''-'']"

text \<open>The tree the kernel starts with.\<close>

definition add_to :: "vnode \<Rightarrow> vfile \<Rightarrow> u32 \<Rightarrow> (string \<times> u8) list \<Rightarrow> vfs \<Rightarrow> vfs res" where
  "add_to gn gf parent cs s =
     foldl (\<lambda>r (name, type). rbind r (\<lambda>s1. rbind (vfs_add_child gn gf s1 parent name type) (\<lambda>(_, s2). Inr s2))) (Inr s) cs"

definition vfs_dummy :: "vnode \<Rightarrow> vfile \<Rightarrow> vfs \<Rightarrow> vfs res" where
  "vfs_dummy gn gf s =
     (let (r, s1) = vfs_create_node gn gf s ''/'' VFS_DIR in
      rbind (upd_vnode (s1\<lparr>vs_root := r\<rparr>) r (\<lambda>x. x\<lparr>vn_parent := r\<rparr>)) (\<lambda>s2.
      rbind (add_to gn gf r [(''bin'', VFS_DIR), (''etc'', VFS_DIR), (''mnt'', VFS_DIR)] s2) (\<lambda>s3.
      rbind (vfs_add_child gn gf s3 r ''home'' VFS_DIR) (\<lambda>(home, s4).
      rbind (add_to gn gf r [(''dev'', VFS_DIR), (''tmp'', VFS_DIR)] s4) (\<lambda>s5.
      rbind (vfs_add_child gn gf s5 home ''yuun'' VFS_DIR) (\<lambda>(ys, s6).
      add_to gn gf ys [(''document.txt'', VFS_FILE), (''program.c'', VFS_FILE)] s6))))))"

section \<open>Devices\<close>

record devfs_node =
  dv_name :: string
  dv_type :: u8
  dv_open :: u32
  dv_read :: u32
  dv_write :: u32
  dv_close :: u32
  dv_specific :: u32

text \<open>\<open>root\<close> is the global \<^verbatim>\<open>devfs_root\<close>; the result is the code with the new root or state.\<close>

definition devfs_init :: "vfs \<Rightarrow> u32 \<Rightarrow> string \<Rightarrow> (u8 \<times> u32) res" where
  "devfs_init s root path =
     (if root \<noteq> 0 then Inr (1, root)
      else rbind (vfs_node_from_path s (vfs_get_root s) path) (\<lambda>r. Inr (0, r)))"

definition devfs_register_dev :: "vnode \<Rightarrow> vfile \<Rightarrow> vfs \<Rightarrow> u32 \<Rightarrow> devfs_node \<Rightarrow> (u8 \<times> vfs) res" where
  "devfs_register_dev gn gf s root dev =
     (if root = 0 then Inr (1, s)
      else if dv_type dev \<noteq> VFS_CDEV \<and> dv_type dev \<noteq> VFS_BDEV then Inr (2, s)
      else
        rbind (vfs_add_child gn gf s root (dv_name dev) (dv_type dev)) (\<lambda>(p, s1).
        rbind (upd_node_file s1 p (\<lambda>f. f\<lparr>vf_open := dv_open dev, vf_read := dv_read dev,
          vf_write := dv_write dev, vf_close := dv_close dev, vf_inode := dv_specific dev\<rparr>)) (\<lambda>s2.
        Inr (0, s2))))"

section \<open>Well-formed trees\<close>

text \<open>\<open>sibling ns p q\<close>: following the next pointers from \<open>p\<close> leads to \<open>q\<close>.\<close>

inductive sibling :: "(u32 \<Rightarrow> vnode option) \<Rightarrow> u32 \<Rightarrow> u32 \<Rightarrow> bool" for ns where
  sibling_refl: "sibling ns p p"
| sibling_step: "ns p = Some n \<Longrightarrow> vn_next n \<noteq> 0 \<Longrightarrow> sibling ns (vn_next n) q \<Longrightarrow> sibling ns p q"

inductive_cases sibling_cases: "sibling ns p q"

definition valid_name :: "string \<Rightarrow> bool" where
  "valid_name n \<longleftrightarrow> n \<noteq> [] \<and> CHR ''/'' \<notin> set n \<and> n \<noteq> ''.'' \<and> n \<noteq> ''..''"

text \<open>
  The root is its own parent and is called \<^verbatim>\<open>/\<close>; every child of a node is another node that
  has this node as its parent and is not the root.
\<close>

definition vfs_wf :: "vfs \<Rightarrow> bool" where
  "vfs_wf s \<longleftrightarrow> vs_root s \<noteq> 0 \<and>
     (\<exists>r. vs_nodes s (vs_root s) = Some r \<and> vn_name r = ''/'' \<and> vn_parent r = vs_root s) \<and>
     (\<forall>p n c cn. vs_nodes s p = Some n \<longrightarrow> vn_childs n \<noteq> 0 \<longrightarrow> sibling (vs_nodes s) (vn_childs n) c \<longrightarrow>
        vs_nodes s c = Some cn \<longrightarrow> vn_parent cn = p \<and> c \<noteq> p)"

text \<open>Well-formedness does not depend on the files of the nodes.\<close>

lemma sibling_upd_file: "sibling (ns(p \<mapsto> n\<lparr>vn_file := f\<rparr>)) a b \<Longrightarrow> ns p = Some n \<Longrightarrow> sibling ns a b"
proof (induction rule: sibling.induct)
  case (sibling_step a m b)
  then show ?case by (cases "a = p") (auto intro: sibling.sibling_step)
qed (rule sibling_refl)

lemma vfs_wf_upd_file:
  assumes "vfs_wf s" and "vs_nodes s p = Some n"
  shows "vfs_wf (s\<lparr>vs_nodes := (vs_nodes s)(p \<mapsto> n\<lparr>vn_file := f\<rparr>), vs_files := fs\<rparr>)"
  using assms sibling_upd_file [where ns = "vs_nodes s" and p = p and n = n and f = f, OF _ assms(2)] unfolding vfs_wf_def by (auto split: if_splits) metis+

lemma search_child_sound:
  assumes "search_child ns p name = Some r"
  shows "\<forall>c. r = Inr c \<longrightarrow> c \<noteq> 0 \<longrightarrow> sibling ns p c \<and> (\<exists>cn. ns c = Some cn \<and> vn_name cn = name)"
proof (rule search_child.raw_induct [where P = "\<lambda>ns p name r. \<forall>c. r = Inr c \<longrightarrow> c \<noteq> 0 \<longrightarrow>
    sibling ns p c \<and> (\<exists>cn. ns c = Some cn \<and> vn_name cn = name)", OF _ assms], goal_cases)
  case (1 f ns p name r)
  then show ?case
    by (auto split: sum.splits if_splits intro: sibling_refl sibling_step)
qed

lemma by_name_child:
  assumes "vfs_wf s" and "valid_name name" and "vfs_get_child_by_name s p name = Inr c" and "c \<noteq> 0"
  obtains cn where "vs_nodes s c = Some cn" and "vn_name cn = name" and "vn_parent cn = p" and "c \<noteq> p"
proof -
  obtain n where n: "vs_nodes s p = Some n" "vn_childs n \<noteq> 0"
      "returned (search_child (vs_nodes s) (vn_childs n) name) = Inr c"
    using assms(2-4) by (auto simp: vfs_get_child_by_name_def valid_name_def split: if_splits)
  then have sc: "search_child (vs_nodes s) (vn_childs n) name = Some (Inr c)"
    by (simp add: returned_def split: option.splits)
  obtain cn where "sibling (vs_nodes s) (vn_childs n) c" "vs_nodes s c = Some cn" "vn_name cn = name"
    using search_child_sound [OF sc] assms(4) by auto
  then show thesis using that n assms(1) by (auto simp: vfs_wf_def)
qed

lemma walk_snoc:
  "walk s r (xs @ [x]) = Inr c \<Longrightarrow> c \<noteq> 0 \<Longrightarrow> r \<noteq> 0 \<Longrightarrow>
     \<exists>p. walk s r xs = Inr p \<and> p \<noteq> 0 \<and> vfs_get_child_by_name s p x = Inr c"
  by (induction xs arbitrary: r) (auto split: if_splits)

section \<open>Absolute paths\<close>

fun join :: "string list \<Rightarrow> string" where
  "join [] = []"
| "join [x] = x"
| "join (x # xs) = x @ CHR ''/'' # join xs"

definition prefix_of :: "string list \<Rightarrow> string" where
  "prefix_of ns = (if ns = [] then [] else CHR ''/'' # concat (map (\<lambda>x. x @ ''/'') (butlast ns)))"

lemma join_prefix: "ns \<noteq> [] \<Longrightarrow> CHR ''/'' # join ns = prefix_of ns @ last ns"
  by (induction ns rule: join.induct) (auto simp: prefix_of_def)

lemma tokens_join: "\<forall>x\<in>set ns. valid_name x \<Longrightarrow> tokens ''/'' (join ns) = ns"
proof (induction ns rule: join.induct)
  case 1
  then show ?case by (simp add: tokens_Nil)
next
  case (2 x)
  then have v: "x \<noteq> []" "CHR ''/'' \<notin> set x" by (auto simp: valid_name_def)
  have 1: "dropWhile (\<lambda>c. c \<in> set ''/'') x = x" using v by (cases x) auto
  have 2: "takeWhile (\<lambda>c. c \<notin> set ''/'') x = x" using v(2) by (auto simp: takeWhile_eq_all_conv)
  have 3: "dropWhile (\<lambda>c. c \<notin> set ''/'') x = []" using v(2) by auto
  show ?case
    unfolding join.simps tokens_Cons [OF 1 v(1)] 2 3 by (simp add: tokens_Nil)
next
  case (3 x y zs)
  let ?r = "join (y # zs)"
  have x: "x \<noteq> []" "CHR ''/'' \<notin> set x" using 3 by (auto simp: valid_name_def)
  then have 1: "dropWhile (\<lambda>c. c \<in> set ''/'') (x @ CHR ''/'' # ?r) = x @ CHR ''/'' # ?r"
    by (cases x) auto
  have 2: "takeWhile (\<lambda>c. c \<notin> set ''/'') (x @ CHR ''/'' # ?r) = x"
      "dropWhile (\<lambda>c. c \<notin> set ''/'') (x @ CHR ''/'' # ?r) = CHR ''/'' # ?r"
    using x(2) by (simp_all add: takeWhile_append dropWhile_append)
  show ?case
    using tokens_Cons [OF 1] 2 x(1) 3 by (simp add: tokens_drop_delim)
qed

lemma abs_loop_walk:
  assumes "vfs_wf s" and "walk s (vs_root s) ns = Inr p" and "p \<noteq> 0" and "\<forall>n\<in>set ns. valid_name n"
  shows "\<exists>pn. vs_nodes s p = Some pn \<and> vn_name pn = (if ns = [] then ''/'' else last ns) \<and>
    abs_loop (vs_nodes s) p path = Some (Inr (prefix_of ns @ path))"
  using assms(2-4)
proof (induction ns arbitrary: p path rule: rev_induct)
  case Nil
  then show ?case
    using assms(1) by (subst abs_loop.simps) (auto simp: vfs_wf_def prefix_of_def)
next
  case (snoc n ns)
  obtain q where q: "walk s (vs_root s) ns = Inr q" "q \<noteq> 0" "vfs_get_child_by_name s q n = Inr p"
    using walk_snoc [OF snoc.prems(1,2)] assms(1) by (auto simp: vfs_wf_def)
  obtain pn where pn: "vs_nodes s p = Some pn" "vn_name pn = n" "vn_parent pn = q" "p \<noteq> q"
    using by_name_child [OF assms(1) _ q(3) snoc.prems(2)] snoc.prems(3) by auto
  have v: "\<forall>n\<in>set ns. valid_name n" using snoc.prems(3) by simp
  obtain qn where qn: "vs_nodes s q = Some qn" "vn_name qn = (if ns = [] then ''/'' else last ns)"
    using snoc.IH [OF q(1,2) v] by blast
  have "abs_loop (vs_nodes s) p path = abs_loop (vs_nodes s) q (prepend (vn_name qn) path)"
    using pn qn(1) q(2) snoc.prems(2) by (subst abs_loop.simps) auto
  also have "\<dots> = Some (Inr (prefix_of ns @ prepend (vn_name qn) path))"
    using snoc.IH [OF q(1,2) v] by blast
  also have "prefix_of ns @ prepend (vn_name qn) path = prefix_of (ns @ [n]) @ path"
  proof (cases ns rule: rev_cases)
    case (snoc ms m)
    then have "valid_name m" using v by simp
    then have "m \<noteq> ''/''" by (auto simp: valid_name_def)
    then show ?thesis using qn(2) snoc by (simp add: prefix_of_def prepend_def butlast_append)
  qed (simp add: qn prefix_of_def prepend_def)
  finally show ?case using pn by simp
qed

lemma abs_path_to_walk:
  assumes "vfs_wf s" and "walk s (vs_root s) ns = Inr p" and "p \<noteq> 0" and "\<forall>n\<in>set ns. valid_name n"
  shows "vfs_abs_path_to s p = Inr (Some (CHR ''/'' # join ns))"
proof -
  obtain pn where pn: "vs_nodes s p = Some pn" "vn_name pn = (if ns = [] then ''/'' else last ns)"
    using abs_loop_walk [OF assms] by blast
  have "prefix_of ns @ vn_name pn = CHR ''/'' # join ns"
    using pn(2) join_prefix [of ns] by (cases "ns = []") (auto simp: prefix_of_def)
  then show ?thesis
    using abs_loop_walk [OF assms, of "vn_name pn"] pn(1) assms(3) by (auto simp: vfs_abs_path_to_def)
qed

lemma node_from_joined:
  "walk s (vs_root s) ns = Inr p \<Longrightarrow> \<forall>n\<in>set ns. valid_name n \<Longrightarrow> vfs_node_from_path s cwd (CHR ''/'' # join ns) = Inr p"
  by (simp add: vfs_node_from_path_def vfs_get_root_def tokens_drop_delim tokens_join)

section \<open>Properties\<close>

text \<open>
  C19. In a well-formed tree, the absolute path of the node that a sequence of valid names leads to
  from the root is these names, separated by slashes, and looking this path up from any directory
  gives the node back.
\<close>

theorem vfs_path_roundtrip:
  assumes "vfs_wf s" and "walk s (vs_root s) ns = Inr p" and "p \<noteq> 0" and "\<forall>n\<in>set ns. valid_name n"
  shows "vfs_abs_path_to s p = Inr (Some (CHR ''/'' # join ns)) \<and>
    vfs_node_from_path s cwd (CHR ''/'' # join ns) = Inr p"
  using abs_path_to_walk [OF assms] node_from_joined [OF assms(2,4)] by simp

definition demo_vnode :: "string \<Rightarrow> u32 \<Rightarrow> u32 \<Rightarrow> u32 \<Rightarrow> vnode" where
  "demo_vnode name parent childs nxt = \<lparr>vn_name = name, vn_parent = parent, vn_childs = childs, vn_file = 0,
     vn_next = nxt, vn_prev = 0\<rparr>"

definition demo_vfs :: vfs where
  "demo_vfs = \<lparr>vs_root = 16, vs_nodes = (\<lambda>_. None)(16 \<mapsto> demo_vnode ''/'' 16 32 0, 32 \<mapsto> demo_vnode ''dev'' 16 48 64,
     48 \<mapsto> demo_vnode ''con'' 32 0 0, 64 \<mapsto> demo_vnode ''tmp'' 16 0 0), vs_files = (\<lambda>_. None), vs_fresh = 128\<rparr>"

lemma demo_node: "vs_nodes demo_vfs p =
    (if p = 64 then Some (demo_vnode ''tmp'' 16 0 0) else if p = 48 then Some (demo_vnode ''con'' 32 0 0)
     else if p = 32 then Some (demo_vnode ''dev'' 16 48 64) else if p = 16 then Some (demo_vnode ''/'' 16 32 0)
     else None)"
  by (simp add: demo_vfs_def)

lemma demo_sibling:
  "sibling (vs_nodes demo_vfs) 64 c \<Longrightarrow> c = 64" "sibling (vs_nodes demo_vfs) 48 c \<Longrightarrow> c = 48"
  "sibling (vs_nodes demo_vfs) 32 c \<Longrightarrow> c = 32 \<or> c = 64"
proof -
  have 64: "sibling (vs_nodes demo_vfs) 64 c \<Longrightarrow> c = 64" for c
    by (erule sibling_cases) (simp_all add: demo_node demo_vnode_def)
  then show "sibling (vs_nodes demo_vfs) 64 c \<Longrightarrow> c = 64" .
  show "sibling (vs_nodes demo_vfs) 48 c \<Longrightarrow> c = 48"
    by (erule sibling_cases) (simp_all add: demo_node demo_vnode_def)
  show "sibling (vs_nodes demo_vfs) 32 c \<Longrightarrow> c = 32 \<or> c = 64"
    by (erule sibling_cases) (auto simp: demo_node demo_vnode_def dest: 64)
qed

lemma demo_vfs_wf: "vfs_wf demo_vfs"
proof -
  have root: "vs_root demo_vfs = 16" by (simp add: demo_vfs_def)
  have "vn_parent cn = p \<and> c \<noteq> p" if "vs_nodes demo_vfs p = Some n" "vn_childs n \<noteq> 0"
      "sibling (vs_nodes demo_vfs) (vn_childs n) c" "vs_nodes demo_vfs c = Some cn" for p n c cn
    using that by (auto simp: demo_node demo_vnode_def split: if_splits dest!: demo_sibling)
  then show ?thesis
    unfolding vfs_wf_def by (auto simp: root demo_node demo_vnode_def)
qed

theorem vfs_path_roundtrip_witness:
  "vfs_abs_path_to demo_vfs 48 = Inr (Some (CHR ''/'' # join [''dev'', ''con''])) \<and>
    vfs_node_from_path demo_vfs 64 (CHR ''/'' # join [''dev'', ''con'']) = Inr 48"
proof (rule vfs_path_roundtrip [OF demo_vfs_wf])
  show "walk demo_vfs (vs_root demo_vfs) [''dev'', ''con''] = Inr 48"
    by (simp add: demo_vfs_def vfs_get_child_by_name_def search_child.simps demo_vnode_def)
qed (simp_all add: valid_name_def)

text \<open>
  Releasing the children of a node reads the next pointer of a child after its release: with at
  least one child it never completes.
\<close>

lemma free_node_gone: "free_run s (Free_node p) = Some (Inr s1) \<Longrightarrow> vs_nodes s1 p = None"
  by (subst (asm) free_run.simps)
    (auto simp: release_node_def split: sum.splits bind_splits)

lemma free_siblings_faults:
  assumes "free_run s (Free_siblings c) = Some (Inr s2)"
  shows "c = 0"
proof (rule ccontr)
  assume "c \<noteq> 0"
  then obtain s1 n where "free_run s (Free_node c) = Some (Inr s1)" "deref (vs_nodes s1) c = Inr n"
    using assms by (subst (asm) free_run.simps) (auto simp del: deref_eq_Inr split: sum.splits bind_splits)
  then show False using free_node_gone [of s c s1] by simp
qed

lemma vfs_free_child_nodes_faults:
  assumes "deref (vs_nodes s) p = Inr n" and "vn_childs n \<noteq> 0"
  shows "\<exists>e. vfs_free_child_nodes s p = Inl e"
proof (cases "free_run s (Free_siblings (vn_childs n))")
  case None
  then show ?thesis
    using assms by (simp add: vfs_free_child_nodes_def) (subst free_run.simps, simp)
next
  case (Some r)
  then obtain e where "r = Inl e" using free_siblings_faults [of s "vn_childs n"] assms(2) by (cases r) auto
  then show ?thesis
    using assms Some by (simp add: vfs_free_child_nodes_def) (subst free_run.simps, simp)
qed

end
