(* ===== verification/Vfs_Tree.thy ===== *)
theory Vfs_Tree
  imports Vfs
begin

text \<open>
  How the tree of \<^verbatim>\<open>kernel/fs/vfs.c\<close> is built: the children of a node are a linked list (\<open>linked\<close>), a tree is in
  order when every list ends and leads back to its parent (\<open>tree_ok\<close>), \<^verbatim>\<open>vfs_add_child\<close> appends to one list and
  keeps this, and lookups by name find what was added.
\<close>

section \<open>Lists of children\<close>

fun linked :: "(u32 \<Rightarrow> vnode option) \<Rightarrow> u32 \<Rightarrow> u32 list \<Rightarrow> bool" where
  "linked ns p [] \<longleftrightarrow> p = 0"
| "linked ns p (c # cs) \<longleftrightarrow> p = c \<and> c \<noteq> 0 \<and> (\<exists>n. ns c = Some n \<and> linked ns (vn_next n) cs)"

lemma linked_node: "linked ns p cs \<Longrightarrow> c \<in> set cs \<Longrightarrow> c \<noteq> 0 \<and> (\<exists>n. ns c = Some n)"
  by (induction cs arbitrary: p) auto

lemma linked_0 [simp]: "linked ns 0 cs \<longleftrightarrow> cs = []"
  by (cases cs) auto

lemma linked_unique: "linked ns p cs \<Longrightarrow> linked ns p ds \<Longrightarrow> ds = cs"
proof (induction cs arbitrary: p ds)
  case (Cons c cs)
  then show ?case by (cases ds) auto
qed (cases ds; simp)

text \<open>A list depends on the next pointers of its nodes only.\<close>

lemma linked_cong:
  "linked ns p cs \<Longrightarrow> (\<And>c n. c \<in> set cs \<Longrightarrow> ns c = Some n \<Longrightarrow> \<exists>n'. ns' c = Some n' \<and> vn_next n' = vn_next n) \<Longrightarrow>
    linked ns' p cs"
proof (induction cs arbitrary: p)
  case (Cons c cs)
  then obtain n where n: "p = c" "c \<noteq> 0" "ns c = Some n" "linked ns (vn_next n) cs" by auto
  moreover obtain n' where "ns' c = Some n'" "vn_next n' = vn_next n" using Cons.prems(2) n(3) by auto
  ultimately show ?case using Cons.IH [of "vn_next n"] Cons.prems(2) by auto
qed simp

lemma linked_snoc:
  assumes "linked ns p (cs @ [l])" and "l \<notin> set cs"
    and "\<And>x n. x \<in> set cs \<Longrightarrow> ns x = Some n \<Longrightarrow> \<exists>n'. ns' x = Some n' \<and> vn_next n' = vn_next n"
    and "ns' l = Some ln" "vn_next ln = c" "linked ns' c [c]"
  shows "linked ns' p (cs @ [l, c])"
  using assms(1-3)
proof (induction cs arbitrary: p)
  case Nil
  then show ?case using assms(4-6) by auto
next
  case (Cons x cs)
  then obtain n where n: "p = x" "x \<noteq> 0" "ns x = Some n" "linked ns (vn_next n) (cs @ [l])" by auto
  moreover obtain n' where "ns' x = Some n'" "vn_next n' = vn_next n" using Cons.prems(3) n(3) by auto
  ultimately show ?case using Cons.IH [of "vn_next n"] Cons.prems(2,3) by auto
qed

lemma last_child_linked: "linked ns p cs \<Longrightarrow> cs \<noteq> [] \<Longrightarrow> last_child ns p = Some (Inr (last cs))"
proof (induction cs arbitrary: p)
  case (Cons c cs)
  then obtain n where n: "p = c" "c \<noteq> 0" "ns c = Some n" "linked ns (vn_next n) cs" by auto
  then have "vn_next n = 0 \<longleftrightarrow> cs = []" by (cases cs) auto
  then show ?case using n Cons.IH [of "vn_next n"] by (subst last_child.simps) auto
qed simp

text \<open>The search returns the first child with the name, or the null pointer.\<close>

definition name_of :: "(u32 \<Rightarrow> vnode option) \<Rightarrow> u32 \<Rightarrow> string" where
  "name_of ns p = (case ns p of None \<Rightarrow> [] | Some n \<Rightarrow> vn_name n)"

fun first_named :: "(u32 \<Rightarrow> vnode option) \<Rightarrow> string \<Rightarrow> u32 list \<Rightarrow> u32" where
  "first_named ns name [] = 0"
| "first_named ns name (c # cs) = (if name_of ns c = name then c else first_named ns name cs)"

lemma search_child_linked:
  "linked ns p cs \<Longrightarrow> cs \<noteq> [] \<Longrightarrow> search_child ns p name = Some (Inr (first_named ns name cs))"
proof (induction cs arbitrary: p)
  case (Cons c cs)
  then obtain n where n: "p = c" "c \<noteq> 0" "ns c = Some n" "linked ns (vn_next n) cs" by auto
  then have "vn_next n = 0 \<longleftrightarrow> cs = []" by (cases cs) auto
  then show ?case using n Cons.IH [of "vn_next n"] by (subst search_child.simps) (auto simp: name_of_def)
qed simp

lemma get_child_by_name_linked:
  assumes "vs_nodes s p = Some n" and "p \<noteq> 0" and "linked (vs_nodes s) (vn_childs n) cs" and "name \<noteq> ''.''" and "name \<noteq> ''..''"
  shows "vfs_get_child_by_name s p name = Inr (first_named (vs_nodes s) name cs)"
proof (cases "cs = []")
  case False
  then have "vn_childs n \<noteq> 0" using assms(3) by auto
  then show ?thesis using assms False search_child_linked [OF assms(3) False] by (simp add: vfs_get_child_by_name_def)
qed (use assms in \<open>simp add: vfs_get_child_by_name_def\<close>)

section \<open>Trees in order\<close>

definition children :: "vfs \<Rightarrow> u32 \<Rightarrow> u32 list \<Rightarrow> bool" where
  "children s p cs \<longleftrightarrow> (\<exists>n. vs_nodes s p = Some n \<and> linked (vs_nodes s) (vn_childs n) cs)"

definition family :: "vfs \<Rightarrow> u32 \<Rightarrow> u32 list \<Rightarrow> bool" where
  "family s p cs \<longleftrightarrow> children s p cs \<and> distinct cs \<and> p \<notin> set cs \<and>
     (\<forall>c\<in>set cs. \<exists>n. vs_nodes s c = Some n \<and> vn_parent n = p)"

definition tree_ok :: "vfs \<Rightarrow> bool" where
  "tree_ok s \<longleftrightarrow> (\<exists>r. vs_nodes s (vs_root s) = Some r \<and> vn_name r = ''/'' \<and> vn_parent r = vs_root s) \<and>
     (\<forall>p n. vs_nodes s p = Some n \<longrightarrow> p \<noteq> 0 \<and> (\<exists>cs. family s p cs))"

lemma tree_okE:
  assumes "tree_ok s" and "vs_nodes s p = Some n"
  obtains cs where "p \<noteq> 0" and "linked (vs_nodes s) (vn_childs n) cs" and "family s p cs"
  using assms by (fastforce simp: tree_ok_def family_def children_def)

text \<open>Trees in order are well formed in the sense that paths need.\<close>

lemma sibling_linked: "sibling ns p q \<Longrightarrow> p \<noteq> 0 \<Longrightarrow> linked ns p cs \<Longrightarrow> q \<in> set cs"
proof (induction arbitrary: cs rule: sibling.induct)
  case (sibling_refl p)
  then show ?case by (cases cs) auto
next
  case (sibling_step p n q)
  then obtain ds where "cs = p # ds" "linked ns (vn_next n) ds" by (cases cs) auto
  then show ?case using sibling_step.IH [OF sibling_step.hyps(2)] by simp
qed

lemma tree_ok_wf:
  assumes "tree_ok s"
  shows "vfs_wf s"
proof -
  obtain r where "vs_nodes s (vs_root s) = Some r" "vn_name r = ''/''" "vn_parent r = vs_root s" "vs_root s \<noteq> 0"
    using assms by (auto simp: tree_ok_def)
  moreover have "vn_parent cn = p \<and> c \<noteq> p"
    if n: "vs_nodes s p = Some n" "vn_childs n \<noteq> 0" "sibling (vs_nodes s) (vn_childs n) c" "vs_nodes s c = Some cn" for p n c cn
  proof -
    obtain cs where "p \<noteq> 0" "linked (vs_nodes s) (vn_childs n) cs" "family s p cs" by (rule tree_okE [OF assms n(1)])
    then show ?thesis using sibling_linked [OF n(3,2)] n(4) by (fastforce simp: family_def)
  qed
  ultimately show ?thesis by (simp add: vfs_wf_def)
qed

section \<open>Adding a child\<close>

text \<open>
  What adding the node \<open>c\<close> behind the children \<open>cs\<close> of \<open>parent\<close> changes in the store: one pointer, and the node.
\<close>

definition grafted :: "vfs \<Rightarrow> u32 \<Rightarrow> u32 list \<Rightarrow> u32 \<Rightarrow> string \<Rightarrow> vfs \<Rightarrow> bool" where
  "grafted s parent cs c name s' \<longleftrightarrow> vs_root s' = vs_root s \<and> vs_fresh s' = c + 336 \<and>
     (\<exists>n. vs_nodes s' c = Some n \<and> vn_name n = name \<and> vn_parent n = parent \<and> vn_childs n = 0 \<and> vn_next n = 0) \<and>
     (\<forall>q. q \<noteq> c \<longrightarrow> vs_nodes s' q = map_option (\<lambda>n. n\<lparr>vn_childs := (if q = parent \<and> cs = [] then c else vn_childs n),
       vn_next := (if cs \<noteq> [] \<and> q = last cs then c else vn_next n)\<rparr>) (vs_nodes s q))"

lemma vfs_add_child_grafted:
  assumes "vs_nodes s parent = Some n" and "parent \<noteq> 0" and "linked (vs_nodes s) (vn_childs n) cs"
    and fresh: "vs_nodes s (vs_fresh s) = None" "vs_fresh s \<noteq> 0"
  shows "\<exists>s'. vfs_add_child gn gf s parent name type = Inr (vs_fresh s, s') \<and> grafted s parent cs (vs_fresh s) name s'"
proof -
  define c where "c = vs_fresh s"
  have c: "vs_nodes s c = None" "c \<noteq> 0" "parent \<noteq> c" using assms(1) fresh by (auto simp: c_def)
  show ?thesis
  proof (cases "cs = []")
    case True
    then show ?thesis
      using assms(1-3) c
      by (simp add: vfs_add_child_def vfs_create_node_def upd_vnode_def grafted_def Let_def option.map_ident flip: c_def)
  next
    case False
    have "vn_childs n \<noteq> 0" using assms(3) False by auto
    moreover obtain ln where l: "last cs \<noteq> 0" "vs_nodes s (last cs) = Some ln"
      using False linked_node [OF assms(3), of "last cs"] by auto
    moreover have "last cs \<noteq> c" using l(2) c(1) by auto
    ultimately show ?thesis
      using assms(1-3) False c last_child_linked [OF assms(3) False]
      by (simp add: vfs_add_child_def vfs_create_node_def upd_vnode_def grafted_def Let_def option.map_ident flip: c_def)
  qed
qed

lemma grafted_node:
  assumes "grafted s parent cs c name s'" and "q \<noteq> c" and "vs_nodes s q = Some n"
  shows "\<exists>n'. vs_nodes s' q = Some n' \<and> vn_name n' = vn_name n \<and> vn_parent n' = vn_parent n \<and> vn_file n' = vn_file n \<and>
    vn_childs n' = (if q = parent \<and> cs = [] then c else vn_childs n) \<and>
    vn_next n' = (if cs \<noteq> [] \<and> q = last cs then c else vn_next n)"
  using assms by (auto simp: grafted_def)

text \<open>The list of the parent grows by the node, the others stay; the node has no children.\<close>

lemma grafted_linked_other:
  assumes g: "grafted s parent cs c name s'" and "vs_nodes s c = None" and "linked (vs_nodes s) p ds"
    and "cs \<noteq> [] \<Longrightarrow> last cs \<notin> set ds"
  shows "linked (vs_nodes s') p ds"
proof (rule linked_cong [OF assms(3)])
  fix d n assume d: "d \<in> set ds" "vs_nodes s d = Some n"
  then have "d \<noteq> c" using assms(2) by auto
  then show "\<exists>n'. vs_nodes s' d = Some n' \<and> vn_next n' = vn_next n"
    using grafted_node [OF g _ d(2)] d(1) assms(4) by auto
qed

lemma grafted_linked_parent:
  assumes g: "grafted s parent cs c name s'" and c: "vs_nodes s c = None" "c \<noteq> 0"
    and "linked (vs_nodes s) p cs" and "distinct cs" and "cs \<noteq> []"
  shows "linked (vs_nodes s') p (cs @ [c])"
proof -
  obtain ds l where cs: "cs = ds @ [l]" using \<open>cs \<noteq> []\<close> by (cases cs rule: rev_cases) auto
  obtain ln where "vs_nodes s l = Some ln" using linked_node [OF assms(4), of l] cs by auto
  moreover have "l \<noteq> c" using calculation c(1) by auto
  ultimately obtain ln' where l: "vs_nodes s' l = Some ln'" "vn_next ln' = c"
    using grafted_node [OF g, of l ln] cs by auto
  have "linked (vs_nodes s') c [c]" using g c(2) by (auto simp: grafted_def)
  moreover have "\<exists>n'. vs_nodes s' x = Some n' \<and> vn_next n' = vn_next n" if "x \<in> set ds" "vs_nodes s x = Some n" for x n
    using grafted_node [OF g _ that(2)] that c(1) cs assms(5) by fastforce
  ultimately show ?thesis
    using linked_snoc [of "vs_nodes s" p ds l "vs_nodes s'" ln' c] assms(4,5) l cs by simp
qed

lemma grafted_family_parent:
  assumes g: "grafted s parent cs c name s'" and c: "vs_nodes s c = None" "c \<noteq> 0" and f: "family s parent cs"
  shows "family s' parent (cs @ [c])"
proof -
  obtain n where n: "vs_nodes s parent = Some n" "linked (vs_nodes s) (vn_childs n) cs" "distinct cs" "parent \<notin> set cs"
    using f by (auto simp: family_def children_def)
  have "parent \<noteq> c" using n(1) c(1) by auto
  then obtain n' where n': "vs_nodes s' parent = Some n'" "vn_childs n' = (if cs = [] then c else vn_childs n)"
    using grafted_node [OF g _ n(1)] n(4) by auto
  have "linked (vs_nodes s') (vn_childs n') (cs @ [c])"
    using n' grafted_linked_parent [OF g c n(2,3)] g c(2) by (cases "cs = []") (auto simp: grafted_def)
  moreover have "c \<notin> set cs" using linked_node [OF n(2), of c] c(1) by auto
  moreover have "\<exists>m. vs_nodes s' x = Some m \<and> vn_parent m = parent" if "x \<in> set (cs @ [c])" for x
  proof (cases "x = c")
    case False
    then have "x \<in> set cs" using that by simp
    then obtain m where "vs_nodes s x = Some m" "vn_parent m = parent" using f by (auto simp: family_def)
    then show ?thesis using grafted_node [OF g False] by auto
  qed (use g in \<open>auto simp: grafted_def\<close>)
  ultimately show ?thesis using n n' \<open>parent \<noteq> c\<close> by (auto simp: family_def children_def)
qed

lemma grafted_family_other:
  assumes g: "grafted s parent cs c name s'" and c: "vs_nodes s c = None" and f: "family s parent cs"
    and q: "family s q ds" "q \<noteq> parent"
  shows "family s' q ds"
proof -
  obtain n where n: "vs_nodes s q = Some n" "linked (vs_nodes s) (vn_childs n) ds"
    using q by (auto simp: family_def children_def)
  have "q \<noteq> c" using n(1) c by auto
  then obtain n' where n': "vs_nodes s' q = Some n'" "vn_childs n' = vn_childs n"
    using grafted_node [OF g _ n(1)] q(2) by auto
  have "last cs \<notin> set ds" if ne: "cs \<noteq> []"
  proof
    assume "last cs \<in> set ds"
    then obtain m m' where "vs_nodes s (last cs) = Some m" "vn_parent m = q" "vs_nodes s (last cs) = Some m'" "vn_parent m' = parent"
      using f q(1) last_in_set [OF ne] unfolding family_def by metis
    then show False using q(2) by simp
  qed
  then have "linked (vs_nodes s') (vn_childs n') ds"
    using grafted_linked_other [OF g c n(2)] n'(2) by simp
  moreover have "\<exists>m. vs_nodes s' x = Some m \<and> vn_parent m = q" if x: "x \<in> set ds" for x
  proof -
    obtain m where m: "vs_nodes s x = Some m" "vn_parent m = q" using q(1) x by (auto simp: family_def)
    then have "x \<noteq> c" using c by auto
    then show ?thesis using grafted_node [OF g _ m(1)] m(2) by auto
  qed
  ultimately show ?thesis using n'(1) q(1) by (auto simp: family_def children_def)
qed

text \<open>The new node itself, and the whole tree.\<close>

lemma grafted_family_new: "grafted s parent cs c name s' \<Longrightarrow> family s' c []"
  by (auto simp: grafted_def family_def children_def)

lemma grafted_tree_ok:
  assumes ok: "tree_ok s" and g: "grafted s parent cs c name s'" and c: "vs_nodes s c = None" "c \<noteq> 0"
    and f: "family s parent cs"
  shows "tree_ok s'"
proof -
  obtain r where r: "vs_nodes s (vs_root s) = Some r" "vn_name r = ''/''" "vn_parent r = vs_root s"
    using ok by (auto simp: tree_ok_def)
  then have "vs_root s \<noteq> c" and root: "vs_root s' = vs_root s" using c(1) g by (auto simp: grafted_def)
  then have "\<exists>r. vs_nodes s' (vs_root s') = Some r \<and> vn_name r = ''/'' \<and> vn_parent r = vs_root s'"
    using grafted_node [OF g _ r(1)] r(2,3) by auto
  moreover have "p \<noteq> 0 \<and> (\<exists>ds. family s' p ds)" if p: "vs_nodes s' p = Some n" for p n
  proof (cases "p = c")
    case True
    then show ?thesis using c(2) grafted_family_new [OF g] by auto
  next
    case False
    then obtain m where "vs_nodes s p = Some m" using g p by (auto simp: grafted_def)
    then obtain ds where ds: "p \<noteq> 0" "family s p ds" by (rule tree_okE [OF ok])
    then show ?thesis
      using grafted_family_parent [OF g c f] grafted_family_other [OF g c(1) f ds(2)] by (cases "p = parent") auto
  qed
  ultimately show ?thesis by (simp add: tree_ok_def)
qed

lemma family_unique: "family s p cs \<Longrightarrow> family s p ds \<Longrightarrow> ds = cs"
  by (auto simp: family_def children_def dest: linked_unique)

lemma first_named_append:
  "first_named ns name (cs @ ds) = (if \<exists>c\<in>set cs. name_of ns c = name then first_named ns name cs else first_named ns name ds)"
  by (induction cs) auto

lemma first_named_cong:
  "(\<And>c. c \<in> set cs \<Longrightarrow> name_of ns' c = name_of ns c) \<Longrightarrow> first_named ns' name cs = first_named ns name cs"
  by (induction cs) auto

text \<open>
  C35. Adding a child to a node of a tree in order returns the new node, keeps the tree in order, and appends the
  node to the list of its parent; every other list of children stays as it was. Looking up the new name finds
  the new node, unless an older child had the same name; every other name is found or not found as before.
\<close>

theorem vfs_add_child_appends:
  assumes ok: "tree_ok s" and parent: "family s parent cs"
    and fresh: "vs_nodes s (vs_fresh s) = None" "vs_fresh s \<noteq> 0" and name: "name \<noteq> ''.''" "name \<noteq> ''..''"
    and new: "\<forall>c\<in>set cs. name_of (vs_nodes s) c \<noteq> name"
  shows "\<exists>s'. vfs_add_child gn gf s parent name type = Inr (vs_fresh s, s') \<and> tree_ok s' \<and>
    family s' parent (cs @ [vs_fresh s]) \<and> (\<forall>q ds. q \<noteq> parent \<longrightarrow> family s q ds \<longrightarrow> family s' q ds) \<and>
    vfs_get_child_by_name s' parent name = Inr (vs_fresh s) \<and>
    (\<forall>other. other \<noteq> name \<longrightarrow> vfs_get_child_by_name s' parent other = vfs_get_child_by_name s parent other)"
proof -
  obtain n where n: "vs_nodes s parent = Some n" "linked (vs_nodes s) (vn_childs n) cs"
    using parent by (auto simp: family_def children_def)
  have p0: "parent \<noteq> 0" using tree_okE [OF ok n(1)] by blast
  obtain s' where s': "vfs_add_child gn gf s parent name type = Inr (vs_fresh s, s')"
      and g: "grafted s parent cs (vs_fresh s) name s'"
    using vfs_add_child_grafted [OF n(1) p0 n(2) fresh] by blast
  note after = grafted_family_parent [OF g fresh parent]
  obtain n' where n': "vs_nodes s' parent = Some n'" "linked (vs_nodes s') (vn_childs n') (cs @ [vs_fresh s])"
    using after by (auto simp: family_def children_def)
  have old: "name_of (vs_nodes s') c = name_of (vs_nodes s) c" if c: "c \<in> set cs" for c
  proof -
    obtain m where m: "vs_nodes s c = Some m" using linked_node [OF n(2) c] by blast
    then have "c \<noteq> vs_fresh s" using fresh(1) by auto
    then show ?thesis using grafted_node [OF g _ m] m by (auto simp: name_of_def)
  qed
  have self: "name_of (vs_nodes s') (vs_fresh s) = name" using g by (auto simp: grafted_def name_of_def)
  have look: "first_named (vs_nodes s') x (cs @ [vs_fresh s]) =
      (if x = name then vs_fresh s else first_named (vs_nodes s) x cs)" for x
    using new old self first_named_cong [of cs "vs_nodes s'" "vs_nodes s" x] by (induction cs) auto
  have "vfs_get_child_by_name s' parent other = vfs_get_child_by_name s parent other" if "other \<noteq> name" for other
  proof (cases "other = ''.'' \<or> other = ''..''")
    case True
    obtain k where "vs_nodes s' parent = Some k" "vn_parent k = vn_parent n"
      using grafted_node [OF g _ n(1)] fresh(1) n(1) by fastforce
    then show ?thesis using True p0 n(1) by (auto simp: vfs_get_child_by_name_def)
  qed (use get_child_by_name_linked [OF n'(1) p0 n'(2)] get_child_by_name_linked [OF n(1) p0 n(2)] look that in simp)
  then show ?thesis
    using s' grafted_tree_ok [OF ok g fresh parent] after grafted_family_other [OF g fresh(1) parent]
      get_child_by_name_linked [OF n'(1) p0 n'(2) name] look by auto
qed

section \<open>The tree the kernel starts with\<close>

text \<open>Room for \<open>n\<close> more nodes: from the next address on nothing is stored.\<close>

definition room :: "vfs \<Rightarrow> nat \<Rightarrow> bool" where
  "room s n \<longleftrightarrow> vs_fresh s \<noteq> 0 \<and> unat (vs_fresh s) + 336 * n < 2 ^ 32 \<and>
     (\<forall>q. unat (vs_fresh s) \<le> unat q \<longrightarrow> vs_nodes s q = None)"

definition keeps_names :: "vfs \<Rightarrow> vfs \<Rightarrow> bool" where
  "keeps_names s s' \<longleftrightarrow> vs_root s' = vs_root s \<and>
     (\<forall>q n. vs_nodes s q = Some n \<longrightarrow> (\<exists>n'. vs_nodes s' q = Some n' \<and> vn_name n' = vn_name n))"

lemma keeps_names_trans: "keeps_names s s' \<Longrightarrow> keeps_names s' s'' \<Longrightarrow> keeps_names s s''"
  unfolding keeps_names_def by metis

lemma keeps_names_of: "keeps_names s s' \<Longrightarrow> family s p cs \<Longrightarrow> map (name_of (vs_nodes s')) cs = map (name_of (vs_nodes s)) cs"
  by (fastforce simp: keeps_names_def family_def name_of_def)

definition others_kept :: "u32 \<Rightarrow> vfs \<Rightarrow> vfs \<Rightarrow> bool" where
  "others_kept p s s' \<longleftrightarrow> keeps_names s s' \<and> (\<forall>q ds. q \<noteq> p \<longrightarrow> family s q ds \<longrightarrow> family s' q ds)"

lemma others_kept_refl: "others_kept p s s"
  by (auto simp: others_kept_def keeps_names_def)

lemma others_kept_trans: "others_kept p s s' \<Longrightarrow> others_kept p s' s'' \<Longrightarrow> others_kept p s s''"
  unfolding others_kept_def by (meson keeps_names_trans)

lemma add_child_step:
  assumes "tree_ok s" and "room s (Suc k)" and "family s parent cs"
  obtains c s' where "vfs_add_child gn gf s parent name type = Inr (c, s')" and "tree_ok s'" and "room s' k"
    and "family s' parent (cs @ [c])" and "family s' c []" and "name_of (vs_nodes s') c = name" and "others_kept parent s s'"
    and "vs_nodes s c = None"
proof -
  let ?c = "vs_fresh s"
  obtain n where n: "vs_nodes s parent = Some n" "linked (vs_nodes s) (vn_childs n) cs"
    using assms(3) by (auto simp: family_def children_def)
  have fresh: "vs_nodes s ?c = None" "?c \<noteq> 0" using assms(2) by (auto simp: room_def)
  have p0: "parent \<noteq> 0" using tree_okE [OF assms(1) n(1)] by blast
  obtain s' where s': "vfs_add_child gn gf s parent name type = Inr (?c, s')" and g: "grafted s parent cs ?c name s'"
    using vfs_add_child_grafted [OF n(1) p0 n(2) fresh] by blast
  have u: "unat (?c + 336) = unat ?c + 336"
    using unat_add_of_nat [of ?c 336] assms(2) by (simp add: room_def)
  have "room s' k"
    unfolding room_def
  proof (intro conjI allI impI)
    show "vs_fresh s' \<noteq> 0" "unat (vs_fresh s') + 336 * k < 2 ^ 32"
      using u assms(2) g by (auto simp: grafted_def room_def)
    fix q :: u32 assume "unat (vs_fresh s') \<le> unat q"
    then have "unat ?c < unat q" using u g by (simp add: grafted_def)
    then have "q \<noteq> ?c" and "vs_nodes s q = None" using assms(2) by (auto simp: room_def)
    then show "vs_nodes s' q = None" using g by (simp add: grafted_def)
  qed
  moreover have "keeps_names s s'"
    unfolding keeps_names_def
  proof (intro conjI allI impI)
    show "vs_root s' = vs_root s" using g by (simp add: grafted_def)
    fix q m assume m: "vs_nodes s q = Some m"
    then have "q \<noteq> ?c" using fresh(1) by auto
    then show "\<exists>n'. vs_nodes s' q = Some n' \<and> vn_name n' = vn_name m" using grafted_node [OF g _ m] by blast
  qed
  then have "others_kept parent s s'"
    using grafted_family_other [OF g fresh(1) assms(3)] by (simp add: others_kept_def)
  moreover have "name_of (vs_nodes s') ?c = name" using g by (auto simp: grafted_def name_of_def)
  ultimately show thesis
    using that [OF s'] grafted_tree_ok [OF assms(1) g fresh assms(3)] grafted_family_parent [OF g fresh assms(3)]
      grafted_family_new [OF g] fresh(1) by blast
qed

lemma add_to_step:
  assumes "tree_ok s" and "room s (length l + k)" and "family s parent cs"
  shows "\<exists>s' ds. add_to gn gf parent l s = Inr s' \<and> tree_ok s' \<and> room s' k \<and> family s' parent (cs @ ds) \<and>
    map (name_of (vs_nodes s')) ds = map fst l \<and> others_kept parent s s'"
  using assms
proof (induction l arbitrary: s cs)
  case Nil
  then show ?case by (auto simp: add_to_def others_kept_refl)
next
  case (Cons x l)
  obtain name type where x: "x = (name, type)" by (cases x)
  have r: "room s (Suc (length l + k))" using Cons.prems(2) by simp
  obtain c s1 where s1: "vfs_add_child gn gf s parent name type = Inr (c, s1)" "tree_ok s1" "room s1 (length l + k)"
      "family s1 parent (cs @ [c])" "name_of (vs_nodes s1) c = name" "others_kept parent s s1"
    using add_child_step [OF Cons.prems(1) r Cons.prems(3)] by metis
  obtain s' ds where s': "add_to gn gf parent l s1 = Inr s'" "tree_ok s'" "room s' k" "family s' parent ((cs @ [c]) @ ds)"
      "map (name_of (vs_nodes s')) ds = map fst l" "others_kept parent s1 s'"
    using Cons.IH [OF s1(2,3,4)] by blast
  have "name_of (vs_nodes s') c = name"
    using keeps_names_of [OF _ s1(4), of s'] s'(6) s1(5) by (auto simp: others_kept_def)
  moreover have "add_to gn gf parent (x # l) s = Inr s'" using s1(1) s'(1) by (simp add: add_to_def x)
  ultimately show ?case
    using s' others_kept_trans [OF s1(6) s'(6)] x by (intro exI [of _ s'] exI [of _ "c # ds"]) simp
qed

text \<open>The root alone, its own parent.\<close>

lemma first_root:
  assumes "vs_nodes s = (\<lambda>_. None)" and "vs_fresh s \<noteq> 0" and "unat (vs_fresh s) + 3360 < 2 ^ 32"
  obtains r s1 s2 where "vfs_create_node gn gf s ''/'' VFS_DIR = (r, s1)"
    and "upd_vnode (s1\<lparr>vs_root := r\<rparr>) r (\<lambda>x. x\<lparr>vn_parent := r\<rparr>) = Inr s2"
    and "vs_root s2 = r" and "family s2 r []" and "tree_ok s2" and "room s2 9"
proof -
  let ?r = "vs_fresh s"
  let ?n = "gn\<lparr>vn_name := ''/'', vn_file := ?r + 280, vn_childs := 0, vn_next := 0, vn_parent := ?r\<rparr>"
  have u: "unat (?r + 336) = unat ?r + 336" using unat_add_of_nat [of ?r 336] assms(3) by simp
  obtain s1 where s1: "vfs_create_node gn gf s ''/'' VFS_DIR = (?r, s1)"
      "vs_nodes s1 = [?r \<mapsto> ?n\<lparr>vn_parent := vn_parent gn\<rparr>]" "vs_fresh s1 = ?r + 336"
    using assms(1) by (simp add: vfs_create_node_def Let_def)
  define s2 where "s2 = s1\<lparr>vs_root := ?r, vs_nodes := [?r \<mapsto> ?n]\<rparr>"
  have "family s2 ?r []" by (simp add: family_def children_def s2_def)
  moreover have "tree_ok s2" using calculation assms(2) by (auto simp: tree_ok_def s2_def split: if_splits)
  moreover have "room s2 9" using u assms(2,3) s1(3) by (auto simp: room_def s2_def)
  moreover have "upd_vnode (s1\<lparr>vs_root := ?r\<rparr>) ?r (\<lambda>x. x\<lparr>vn_parent := ?r\<rparr>) = Inr s2"
    using s1(2) assms(2) by (simp add: upd_vnode_def s2_def)
  ultimately show thesis using that [OF s1(1)] by (simp add: s2_def)
qed

text \<open>The directories of the root, in the order of the code; \<open>home\<close> is the fourth.\<close>

lemma dummy_dirs:
  assumes "tree_ok s2" and "room s2 9" and "family s2 r []"
  obtains s3 home s4 s5 ds where "add_to gn gf r [(''bin'', VFS_DIR), (''etc'', VFS_DIR), (''mnt'', VFS_DIR)] s2 = Inr s3"
    and "vfs_add_child gn gf s3 r ''home'' VFS_DIR = Inr (home, s4)"
    and "add_to gn gf r [(''dev'', VFS_DIR), (''tmp'', VFS_DIR)] s4 = Inr s5"
    and "tree_ok s5" and "room s5 3" and "family s5 r ds" and "ds ! 3 = home" and "family s5 home []" and "home \<noteq> r"
    and "map (name_of (vs_nodes s5)) ds = [''bin'', ''etc'', ''mnt'', ''home'', ''dev'', ''tmp'']" and "keeps_names s2 s5"
proof -
  obtain s3 ds where s3: "add_to gn gf r [(''bin'', VFS_DIR), (''etc'', VFS_DIR), (''mnt'', VFS_DIR)] s2 = Inr s3" "tree_ok s3"
      "room s3 6" "family s3 r ds" "map (name_of (vs_nodes s3)) ds = [''bin'', ''etc'', ''mnt'']" "others_kept r s2 s3"
    using add_to_step [OF assms(1) _ assms(3), of "[(''bin'', VFS_DIR), (''etc'', VFS_DIR), (''mnt'', VFS_DIR)]" 6 gn gf] assms(2)
    by auto
  have r6: "room s3 (Suc 5)" using s3(3) by simp
  obtain home s4 where s4: "vfs_add_child gn gf s3 r ''home'' VFS_DIR = Inr (home, s4)" "tree_ok s4" "room s4 5"
      "family s4 r (ds @ [home])" "family s4 home []" "name_of (vs_nodes s4) home = ''home''" "others_kept r s3 s4"
      "vs_nodes s3 home = None"
    by (rule add_child_step [OF s3(2) r6 s3(4)])
  have hr: "home \<noteq> r" using s4(8) s3(4) by (auto simp: family_def children_def)
  obtain s5 es where s5: "add_to gn gf r [(''dev'', VFS_DIR), (''tmp'', VFS_DIR)] s4 = Inr s5" "tree_ok s5" "room s5 3"
      "family s5 r ((ds @ [home]) @ es)" "map (name_of (vs_nodes s5)) es = [''dev'', ''tmp'']" "others_kept r s4 s5"
    using add_to_step [OF s4(2) _ s4(4), of "[(''dev'', VFS_DIR), (''tmp'', VFS_DIR)]" 3 gn gf] s4(3) by auto
  have keep: "keeps_names s3 s5" "keeps_names s4 s5" "keeps_names s2 s5"
    using s3(6) s4(7) s5(6) keeps_names_trans unfolding others_kept_def by metis+
  have "map (name_of (vs_nodes s5)) (ds @ [home]) = [''bin'', ''etc'', ''mnt'', ''home'']"
    using keeps_names_of [OF keep(1) s3(4)] keeps_names_of [OF keep(2) s4(4)] s3(5) s4(6) by simp
  then have m1: "map (name_of (vs_nodes s5)) ((ds @ [home]) @ es) = [''bin'', ''etc'', ''mnt'', ''home'', ''dev'', ''tmp'']"
    using s5(5) by simp
  have m2: "((ds @ [home]) @ es) ! 3 = home"
    using arg_cong [OF s3(5), of length] by (simp add: nth_append)
  have m3: "family s5 home []" using s5(6) s4(5) hr by (simp add: others_kept_def)
  show thesis by (rule that [OF s3(1) s4(1) s5(1-4) m2 m3 hr m1 keep(3)])
qed

text \<open>
  C36. From an empty store the kernel builds its first tree: the root with its six directories, the directory of
  the user in \<^verbatim>\<open>home\<close>, and two files in it. The tree is in order, so that paths and lookups work on it.
\<close>

theorem vfs_dummy_tree:
  assumes "vs_nodes s = (\<lambda>_. None)" and "vs_fresh s \<noteq> 0" and "unat (vs_fresh s) + 3360 < 2 ^ 32"
  shows "\<exists>s' ds ys fs. vfs_dummy gn gf s = Inr s' \<and> tree_ok s' \<and> family s' (vs_root s') ds \<and>
    map (name_of (vs_nodes s')) ds = [''bin'', ''etc'', ''mnt'', ''home'', ''dev'', ''tmp''] \<and>
    family s' (ds ! 3) [ys] \<and> name_of (vs_nodes s') ys = ''yuun'' \<and>
    family s' ys fs \<and> map (name_of (vs_nodes s')) fs = [''document.txt'', ''program.c'']"
proof -
  obtain r s1 s2 where new: "vfs_create_node gn gf s ''/'' VFS_DIR = (r, s1)"
      "upd_vnode (s1\<lparr>vs_root := r\<rparr>) r (\<lambda>x. x\<lparr>vn_parent := r\<rparr>) = Inr s2"
      and root: "vs_root s2 = r" "family s2 r []" "tree_ok s2" "room s2 9"
    using first_root [OF assms] by metis
  obtain s3 home s4 s5 ds where top: "add_to gn gf r [(''bin'', VFS_DIR), (''etc'', VFS_DIR), (''mnt'', VFS_DIR)] s2 = Inr s3"
      "vfs_add_child gn gf s3 r ''home'' VFS_DIR = Inr (home, s4)"
      "add_to gn gf r [(''dev'', VFS_DIR), (''tmp'', VFS_DIR)] s4 = Inr s5" "tree_ok s5" "room s5 3" "family s5 r ds" "ds ! 3 = home"
      "family s5 home []" "home \<noteq> r" "map (name_of (vs_nodes s5)) ds = [''bin'', ''etc'', ''mnt'', ''home'', ''dev'', ''tmp'']"
      "keeps_names s2 s5"
    by (rule dummy_dirs [OF root(3,4,2)])
  have r3: "room s5 (Suc 2)" using top(5) by (simp add: numeral_eq_Suc)
  obtain ys s6 where s6: "vfs_add_child gn gf s5 home ''yuun'' VFS_DIR = Inr (ys, s6)" "tree_ok s6" "room s6 2"
      "family s6 home ([] @ [ys])" "family s6 ys []" "name_of (vs_nodes s6) ys = ''yuun''" "others_kept home s5 s6" "vs_nodes s5 ys = None"
    by (rule add_child_step [OF top(4) r3 top(8)])
  obtain s7 fs where s7: "add_to gn gf ys [(''document.txt'', VFS_FILE), (''program.c'', VFS_FILE)] s6 = Inr s7" "tree_ok s7"
      "family s7 ys fs" "map (name_of (vs_nodes s7)) fs = [''document.txt'', ''program.c'']" "others_kept ys s6 s7"
    using add_to_step [OF s6(2) _ s6(5), of "[(''document.txt'', VFS_FILE), (''program.c'', VFS_FILE)]" 0 gn gf] s6(3)
    by (auto simp: numeral_2_eq_2)
  have ne: "ys \<noteq> r" "ys \<noteq> home" using s6(8) top(6,8) by (auto simp: family_def children_def)
  have "family s6 r ds" using s6(7) top(6,9) by (auto simp: others_kept_def)
  then have families: "family s7 r ds" "family s7 home [ys]"
    using s7(5) s6(4) ne by (auto simp: others_kept_def)
  have keep: "keeps_names s5 s7" "keeps_names s6 s7" "keeps_names s2 s7"
    using top(11) s6(7) s7(5) keeps_names_trans unfolding others_kept_def by metis+
  have "map (name_of (vs_nodes s7)) ds = [''bin'', ''etc'', ''mnt'', ''home'', ''dev'', ''tmp'']"
    using keeps_names_of [OF keep(1) top(6)] top(10) by simp
  moreover have "name_of (vs_nodes s7) ys = ''yuun''" using keeps_names_of [OF keep(2) s6(4)] s6(6) by simp
  moreover have "vfs_dummy gn gf s = Inr s7"
    using new top(1-3) s6(1) s7(1) by (simp add: vfs_dummy_def)
  moreover have "vs_root s7 = r" using keep(3) root(1) by (simp add: keeps_names_def)
  ultimately show ?thesis
    using s7(2,3,4) top(7) families by (intro exI [of _ s7] exI [of _ ds] exI [of _ ys] exI [of _ fs]) simp
qed

text \<open>Witnesses: the example tree, and an empty store.\<close>

lemma demo_families:
  "family demo_vfs 16 [32, 64]" "family demo_vfs 32 [48]" "family demo_vfs 48 []" "family demo_vfs 64 []"
  by (simp_all add: family_def children_def demo_node demo_vnode_def)

lemma demo_tree_ok: "tree_ok demo_vfs"
proof -
  have "p \<noteq> 0 \<and> (\<exists>cs. family demo_vfs p cs)" if "vs_nodes demo_vfs p = Some n" for p n
    using that demo_families by (auto simp: demo_node split: if_splits)
  then show ?thesis by (simp add: tree_ok_def demo_node demo_vfs_def demo_vnode_def)
qed

definition demo_new_file :: vfile where
  "demo_new_file = \<lparr>vf_name = [], vf_type = 0, vf_permissions = 0, vf_uid = 0, vf_gid = 0, vf_inode = 0, vf_size = 0,
     vf_fs = 0, vf_read = 0, vf_write = 0, vf_open = 0, vf_close = 0, vf_readdir = 0, vf_finddir = 0, vf_ptr = 0\<rparr>"

theorem vfs_add_child_appends_witness:
  "\<exists>s'. vfs_add_child (demo_vnode [] 0 0 0) demo_new_file demo_vfs 16 ''etc'' VFS_DIR = Inr (vs_fresh demo_vfs, s') \<and> tree_ok s' \<and>
    family s' 16 ([32, 64] @ [vs_fresh demo_vfs]) \<and> (\<forall>q ds. q \<noteq> 16 \<longrightarrow> family demo_vfs q ds \<longrightarrow> family s' q ds) \<and>
    vfs_get_child_by_name s' 16 ''etc'' = Inr (vs_fresh demo_vfs) \<and>
    (\<forall>other. other \<noteq> ''etc'' \<longrightarrow> vfs_get_child_by_name s' 16 other = vfs_get_child_by_name demo_vfs 16 other)"
proof (rule vfs_add_child_appends [OF demo_tree_ok demo_families(1)])
  show "vs_nodes demo_vfs (vs_fresh demo_vfs) = None" "vs_fresh demo_vfs \<noteq> 0" by (simp_all add: demo_vfs_def)
  show "\<forall>c\<in>set [32, 64]. name_of (vs_nodes demo_vfs) c \<noteq> ''etc''" by (simp add: name_of_def demo_node demo_vnode_def)
qed simp_all

definition demo_empty :: vfs where
  "demo_empty = \<lparr>vs_root = 0, vs_nodes = (\<lambda>_. None), vs_files = (\<lambda>_. None), vs_fresh = 0x800000\<rparr>"

theorem vfs_dummy_tree_witness:
  "\<exists>s' ds ys fs. vfs_dummy (demo_vnode [] 0 0 0) demo_new_file demo_empty = Inr s' \<and> tree_ok s' \<and> family s' (vs_root s') ds \<and>
    map (name_of (vs_nodes s')) ds = [''bin'', ''etc'', ''mnt'', ''home'', ''dev'', ''tmp''] \<and>
    family s' (ds ! 3) [ys] \<and> name_of (vs_nodes s') ys = ''yuun'' \<and>
    family s' ys fs \<and> map (name_of (vs_nodes s')) fs = [''document.txt'', ''program.c'']"
  by (rule vfs_dummy_tree) (simp_all add: demo_empty_def)

end
