(* ===== verification/File_Descr.thy ===== *)
theory File_Descr
  imports Data_Lists Vfs
begin

text \<open>
  \<^verbatim>\<open>kernel/fs/file_descriptor.c\<close> and \<^verbatim>\<open>file_ops.c\<close>: the global file table, file descriptors and the
  open, close, read and write operations of a task. The interrupt flag that every operation saves,
  clears and restores is part of the state.
\<close>

section \<open>State\<close>

record gft_entry =
  ge_node :: u32
  ge_locked_by :: u32
  ge_ref_count :: u32

record file_descriptor =
  fd_gft_index :: u32
  fd_offset :: u32
  fd_read :: u8
  fd_write :: u8

text \<open>
  \<open>fs_table\<close> is the global file table (pointers to entries), \<open>fs_list\<close> the descriptor list of the
  current task (pointers to descriptors), \<open>fs_if\<close> the interrupt flag, \<open>fs_fresh\<close> the address the heap
  hands out next, \<open>fs_pid\<close> the current task's process number.
\<close>

record fdstate =
  fs_table :: "u32 dlist"
  fs_entries :: "u32 \<Rightarrow> gft_entry option"
  fs_fds :: "u32 \<Rightarrow> file_descriptor option"
  fs_list :: "u32 dlist"
  fs_if :: bool
  fs_fresh :: u32
  fs_pid :: u32

abbreviation (input) O_RDONLY :: u32 where "O_RDONLY \<equiv> 1"
abbreviation (input) O_WRONLY :: u32 where "O_WRONLY \<equiv> 2"
abbreviation (input) O_RDWR :: u32 where "O_RDWR \<equiv> 4"

definition get_eflags_and_cli :: "fdstate \<Rightarrow> bool \<times> fdstate" where
  "get_eflags_and_cli s = (fs_if s, s\<lparr>fs_if := False\<rparr>)"

definition set_eflags :: "bool \<Rightarrow> fdstate \<Rightarrow> fdstate" where
  "set_eflags ef s = s\<lparr>fs_if := ef\<rparr>"

text \<open>Reading an element of a list and dereferencing it.\<close>

definition list_deref :: "(u32 \<Rightarrow> 'o option) \<Rightarrow> u32 dlist \<Rightarrow> u32 \<Rightarrow> (u32 \<times> 'o) res" where
  "list_deref st l i = rbind (list_get l i) (\<lambda>p. case p of None \<Rightarrow> Inl Null_deref
     | Some a \<Rightarrow> rbind (deref st a) (\<lambda>x. Inr (a, x)))"

section \<open>The global file table\<close>

definition gft_init :: "(nat \<Rightarrow> u32 list) \<Rightarrow> fdstate \<Rightarrow> u8 \<times> fdstate" where
  "gft_init mem s = (0, s\<lparr>fs_table := (make_list mem 1024)\<lparr>dl_used := 1\<rparr>\<rparr>)"

text \<open>The search is cut off by a return in front of it.\<close>

definition gft_entry_exists :: "fdstate \<Rightarrow> u32 \<Rightarrow> u32" where
  "gft_entry_exists s node = 0"

definition upd_entry :: "fdstate \<Rightarrow> u32 \<Rightarrow> (gft_entry \<Rightarrow> gft_entry) \<Rightarrow> fdstate res" where
  "upd_entry s i f = rbind (list_deref (fs_entries s) (fs_table s) i) (\<lambda>(a, e).
     Inr (s\<lparr>fs_entries := (fs_entries s)(a \<mapsto> f e)\<rparr>))"

definition gft_inc_ref_count :: "fdstate \<Rightarrow> u32 \<Rightarrow> fdstate res" where
  "gft_inc_ref_count s i = upd_entry s i (\<lambda>e. e\<lparr>ge_ref_count := ge_ref_count e + 1\<rparr>)"

definition gft_dec_ref_count :: "fdstate \<Rightarrow> u32 \<Rightarrow> fdstate res" where
  "gft_dec_ref_count s i = upd_entry s i (\<lambda>e. e\<lparr>ge_ref_count := ge_ref_count e - 1\<rparr>)"

definition gft_get_ref_count :: "fdstate \<Rightarrow> u32 \<Rightarrow> u32 res" where
  "gft_get_ref_count s i = rbind (list_deref (fs_entries s) (fs_table s) i) (\<lambda>(_, e). Inr (ge_ref_count e))"

definition gft_add :: "(nat \<Rightarrow> u32 list) \<Rightarrow> fdstate \<Rightarrow> u32 \<Rightarrow> (u32 \<times> fdstate) res" where
  "gft_add mem s node =
     (let (ef, s1) = get_eflags_and_cli s; i = gft_entry_exists s1 node in
      if i \<noteq> 0 then rbind (gft_inc_ref_count s1 i) (\<lambda>s2. Inr (i, s2))
      else
        let e = fs_fresh s1;
            s2 = s1\<lparr>fs_entries := (fs_entries s1)(e \<mapsto> \<lparr>ge_node = node, ge_locked_by = 0, ge_ref_count = 1\<rparr>),
                    fs_fresh := e + 12\<rparr>
        in rbind (list_push mem (fs_table s2) e) (\<lambda>(i, l). Inr (i, set_eflags ef (s2\<lparr>fs_table := l\<rparr>))))"

definition gft_delete :: "fdstate \<Rightarrow> u32 \<Rightarrow> (u8 \<times> fdstate) res" where
  "gft_delete s index =
     (let (ef, s1) = get_eflags_and_cli s in
      rbind (list_delete (fs_table s1) index) (\<lambda>(_, l). Inr (0, set_eflags ef (s1\<lparr>fs_table := l\<rparr>))))"

definition gft_lock :: "fdstate \<Rightarrow> u32 \<Rightarrow> (u8 \<times> fdstate) res" where
  "gft_lock s index =
     (let (ef, s1) = get_eflags_and_cli s in
      rbind (upd_entry s1 index (\<lambda>e. e\<lparr>ge_locked_by := fs_pid s1\<rparr>)) (\<lambda>s2. Inr (0, set_eflags ef s2)))"

definition gft_unlock :: "fdstate \<Rightarrow> u32 \<Rightarrow> (u8 \<times> fdstate) res" where
  "gft_unlock s index =
     (let (ef, s1) = get_eflags_and_cli s in
      rbind (list_deref (fs_entries s1) (fs_table s1) index) (\<lambda>(_, e).
        if ge_locked_by e \<noteq> fs_pid s1 then Inr (1, set_eflags ef s1)
        else rbind (upd_entry s1 index (\<lambda>e. e\<lparr>ge_locked_by := 0\<rparr>)) (\<lambda>s2. Inr (0, set_eflags ef s2))))"

section \<open>Descriptors\<close>

definition fd_open :: "(nat \<Rightarrow> u32 list) \<Rightarrow> fdstate \<Rightarrow> u32 \<Rightarrow> u32 \<Rightarrow> (u32 \<times> fdstate) res" where
  "fd_open mem s node flags =
     (let (ef, s1) = get_eflags_and_cli s;
          rd = (if flags AND O_RDWR \<noteq> 0 \<or> flags AND O_RDONLY \<noteq> 0 then 1 else 0);
          wr = (if flags AND O_RDWR \<noteq> 0 \<or> flags AND O_WRONLY \<noteq> 0 then 1 else 0)
      in rbind (gft_add mem s1 node) (\<lambda>(index, s2).
         let p = fs_fresh s2;
             s3 = s2\<lparr>fs_fds := (fs_fds s2)(p \<mapsto> \<lparr>fd_gft_index = index, fd_offset = 0, fd_read = rd, fd_write = wr\<rparr>),
                     fs_fresh := p + 12\<rparr>
         in Inr (p, set_eflags ef s3)))"

definition upd_fd :: "fdstate \<Rightarrow> u32 \<Rightarrow> (file_descriptor \<Rightarrow> file_descriptor) \<Rightarrow> fdstate res" where
  "upd_fd s p f = rbind (deref (fs_fds s) p) (\<lambda>d. Inr (s\<lparr>fs_fds := (fs_fds s)(p \<mapsto> f d)\<rparr>))"

definition fd_close :: "fdstate \<Rightarrow> u32 \<Rightarrow> (u8 \<times> fdstate) res" where
  "fd_close s p =
     (let (ef, s1) = get_eflags_and_cli s in
      rbind (deref (fs_fds s1) p) (\<lambda>d.
      rbind (gft_dec_ref_count s1 (fd_gft_index d)) (\<lambda>s2.
      rbind (gft_get_ref_count s2 (fd_gft_index d)) (\<lambda>n.
      rbind (if n = 0 then rbind (gft_delete s2 (fd_gft_index d)) (\<lambda>(_, s3). Inr s3) else Inr s2) (\<lambda>s3.
      Inr (0, set_eflags ef (s3\<lparr>fs_fds := (fs_fds s3)(p := None)\<rparr>)))))))"

definition fd_seek :: "fdstate \<Rightarrow> u32 \<Rightarrow> u32 \<Rightarrow> (u8 \<times> fdstate) res" where
  "fd_seek s p offset =
     (let (ef, s1) = get_eflags_and_cli s in
      rbind (upd_fd s1 p (\<lambda>d. d\<lparr>fd_offset := offset\<rparr>)) (\<lambda>s2. Inr (0, set_eflags ef s2)))"

definition fd_lock :: "fdstate \<Rightarrow> u32 \<Rightarrow> (u8 \<times> fdstate) res" where
  "fd_lock s p =
     (let (ef, s1) = get_eflags_and_cli s in
      rbind (deref (fs_fds s1) p) (\<lambda>d. rbind (gft_lock s1 (fd_gft_index d)) (\<lambda>(_, s2). Inr (0, set_eflags ef s2))))"

definition fd_unlock :: "fdstate \<Rightarrow> u32 \<Rightarrow> (u8 \<times> fdstate) res" where
  "fd_unlock s p =
     (let (ef, s1) = get_eflags_and_cli s in
      rbind (deref (fs_fds s1) p) (\<lambda>d. rbind (gft_unlock s1 (fd_gft_index d)) (\<lambda>(_, s2). Inr (0, set_eflags ef s2))))"

definition fd_locked_by :: "fdstate \<Rightarrow> u32 \<Rightarrow> (u32 \<times> fdstate) res" where
  "fd_locked_by s p =
     (let (ef, s1) = get_eflags_and_cli s in
      rbind (deref (fs_fds s1) p) (\<lambda>d.
      rbind (list_deref (fs_entries s1) (fs_table s1) (fd_gft_index d)) (\<lambda>(_, e).
      Inr (ge_locked_by e, set_eflags ef s1))))"

definition fd_to_node :: "fdstate \<Rightarrow> u32 \<Rightarrow> u32 res" where
  "fd_to_node s p =
     rbind (deref (fs_fds s) p) (\<lambda>d.
     rbind (list_deref (fs_entries s) (fs_table s) (fd_gft_index d)) (\<lambda>(_, e). Inr (ge_node e)))"

section \<open>The operations of a task\<close>

definition file_open :: "(nat \<Rightarrow> u32 list) \<Rightarrow> vfs \<Rightarrow> fdstate \<Rightarrow> string \<Rightarrow> u32 \<Rightarrow> u32 \<Rightarrow> (u32 \<times> fdstate) res" where
  "file_open mem v s path flags mode =
     (let (ef, s1) = get_eflags_and_cli s in
      rbind (vfs_node_from_path v (vfs_get_root v) path) (\<lambda>node.
      rbind (fd_open mem s1 node flags) (\<lambda>(fd, s2).
      rbind (list_push mem (fs_list s2) fd) (\<lambda>(i, l). Inr (i, set_eflags ef (s2\<lparr>fs_list := l\<rparr>))))))"

text \<open>A bad descriptor returns before the interrupt flag is restored.\<close>

definition file_close :: "fdstate \<Rightarrow> u32 \<Rightarrow> (u32 \<times> fdstate) res" where
  "file_close s fd =
     (let (ef, s1) = get_eflags_and_cli s in
      rbind (list_get (fs_list s1) fd) (\<lambda>d.
        case d of None \<Rightarrow> Inr (- 1, s1)
        | Some p \<Rightarrow>
            if p = 0 then Inr (- 1, s1)
            else rbind (fd_close s1 p) (\<lambda>(_, s2).
                 rbind (list_delete (fs_list s2) fd) (\<lambda>(_, l). Inr (0, set_eflags ef (s2\<lparr>fs_list := l\<rparr>))))))"

text \<open>
  Interrupts stay enabled while descriptor 0 is read. \<open>a\<close> is the state that file operations act on;
  a failing call leaves it and returns 0.
\<close>

definition file_read ::
    "(u32 \<Rightarrow> vfile \<Rightarrow> u32 \<Rightarrow> u32 \<Rightarrow> (u32 \<times> 'a) res) \<Rightarrow> 'a \<Rightarrow> vfs \<Rightarrow> fdstate \<Rightarrow> u32 \<Rightarrow> u32 \<Rightarrow> ((u32 \<times> 'a) \<times> fdstate) res" where
  "file_read ops a v s fd n =
     (let (ef, s1) = (if fd \<noteq> 0 then get_eflags_and_cli s else (fs_if s, s));
          leave = (if fd \<noteq> 0 then set_eflags ef s1 else s1)
      in rbind (list_get (fs_list s1) fd) (\<lambda>d.
        case d of None \<Rightarrow> Inr ((0, a), leave)
        | Some p \<Rightarrow>
            if p = 0 then Inr ((0, a), leave)
            else rbind (deref (fs_fds s1) p) (\<lambda>dd.
              if fd_read dd = 0 then Inr ((0, a), leave)
              else rbind (fd_to_node s1 p) (\<lambda>node.
                   rbind (node_file v node) (\<lambda>f.
                   rbind (vfs_read ops a f (fd_offset dd) n) (\<lambda>r. Inr (r, leave)))))))"

definition file_write ::
    "(u32 \<Rightarrow> vfile \<Rightarrow> u32 \<Rightarrow> u32 \<Rightarrow> (u32 \<times> 'a) res) \<Rightarrow> 'a \<Rightarrow> vfs \<Rightarrow> fdstate \<Rightarrow> u32 \<Rightarrow> u32 \<Rightarrow> ((u32 \<times> 'a) \<times> fdstate) res" where
  "file_write ops a v s fd n =
     (let (ef, s1) = get_eflags_and_cli s; leave = set_eflags ef s1
      in rbind (list_get (fs_list s1) fd) (\<lambda>d.
        case d of None \<Rightarrow> Inr ((0, a), leave)
        | Some p \<Rightarrow>
            if p = 0 then Inr ((0, a), leave)
            else rbind (deref (fs_fds s1) p) (\<lambda>dd.
              if fd_write dd = 0 then Inr ((0, a), leave)
              else rbind (fd_to_node s1 p) (\<lambda>node.
                   rbind (node_file v node) (\<lambda>f.
                   rbind (vfs_write ops a f (fd_offset dd) n) (\<lambda>r. Inr (r, leave)))))))"

text \<open>
  A pipe as a file (\<^verbatim>\<open>rb_node\<close> and \<^verbatim>\<open>rb_open\<close> of \<^verbatim>\<open>kernel/fs/pipe.c\<close>): a node outside the tree whose inode
  is the ring buffer. \<open>rd\<close> and \<open>wr\<close> are the addresses of the functions \<^verbatim>\<open>rb_vfs_read\<close> and \<^verbatim>\<open>rb_vfs_write\<close>.
\<close>

definition rb_node :: "vnode \<Rightarrow> vfile \<Rightarrow> u32 \<Rightarrow> u32 \<Rightarrow> vfs \<Rightarrow> u32 \<Rightarrow> (u32 \<times> vfs) res" where
  "rb_node gn gf rd wr v rb =
     (let (p, v1) = vfs_create_node gn gf v [] VFS_PIPE in
      rbind (upd_node_file v1 p (\<lambda>f. f\<lparr>vf_read := rd, vf_write := wr, vf_inode := rb\<rparr>)) (\<lambda>v2. Inr (p, v2)))"

definition rb_open :: "(nat \<Rightarrow> u32 list) \<Rightarrow> vnode \<Rightarrow> vfile \<Rightarrow> u32 \<Rightarrow> u32 \<Rightarrow> vfs \<Rightarrow> fdstate \<Rightarrow> u32 \<Rightarrow> u32 \<Rightarrow>
    (u32 \<times> vfs \<times> fdstate) res" where
  "rb_open mem gn gf rd wr v s rb flags =
     (let (ef, s1) = get_eflags_and_cli s in
      rbind (rb_node gn gf rd wr v rb) (\<lambda>(node, v1).
      rbind (fd_open mem s1 node flags) (\<lambda>(fd, s2).
      rbind (list_push mem (fs_list s2) fd) (\<lambda>(i, l). Inr (i, v1, set_eflags ef (s2\<lparr>fs_list := l\<rparr>))))))"

section \<open>Opening and closing\<close>

lemmas fd_flags = get_eflags_and_cli_def set_eflags_def Let_def

text \<open>The tables are well formed and have room for one more push.\<close>

definition fd_room :: "'a dlist \<Rightarrow> bool" where
  "fd_room l \<longleftrightarrow> dl_inv l \<and> unat (dl_size l) < 2 ^ 27"

lemma list_get_pushed:
  assumes "dl_inv l" and "dl_inv l'" and "dl_elems l' = dl_elems l @ [x]"
  shows "list_get l' (dl_used l) = Inr (Some x)"
proof -
  have u: "unat (dl_used l) = length (dl_elems l)"
    using assms(1) by (simp add: length_dl_elems)
  show ?thesis
    using list_get_ok [OF assms(2), of "dl_used l"] assms(3) by (simp add: u)
qed

lemma fd_open_ok:
  assumes room: "fd_room (fs_table s)" and mem: "\<And>n. length (mem n) = n" and fresh: "fs_fresh s \<noteq> 0"
  shows "\<exists>l. fd_open mem s node flags = Inr (fs_fresh s + 12, s\<lparr>fs_table := l,
      fs_entries := (fs_entries s)(fs_fresh s \<mapsto> \<lparr>ge_node = node, ge_locked_by = 0, ge_ref_count = 1\<rparr>),
      fs_fds := (fs_fds s)(fs_fresh s + 12 \<mapsto> \<lparr>fd_gft_index = dl_used (fs_table s), fd_offset = 0,
        fd_read = (if flags AND O_RDWR \<noteq> 0 \<or> flags AND O_RDONLY \<noteq> 0 then 1 else 0),
        fd_write = (if flags AND O_RDWR \<noteq> 0 \<or> flags AND O_WRONLY \<noteq> 0 then 1 else 0)\<rparr>),
      fs_fresh := fs_fresh s + 24\<rparr>) \<and> list_get l (dl_used (fs_table s)) = Inr (Some (fs_fresh s))"
proof -
  obtain l where l: "list_push mem (fs_table s) (fs_fresh s) = Inr (dl_used (fs_table s), l)"
    "dl_elems l = dl_elems (fs_table s) @ [fs_fresh s]" "dl_inv l"
    using list_push_ok [of "fs_table s" mem "fs_fresh s"] room mem by (auto simp: fd_room_def)
  have "list_get l (dl_used (fs_table s)) = Inr (Some (fs_fresh s))"
    using l room by (intro list_get_pushed) (auto simp: fd_room_def)
  then show ?thesis
    using l(1) by (intro exI [of _ l], cases s) (simp add: fd_open_def gft_add_def gft_entry_exists_def fd_flags)
qed

lemma file_open_ok:
  assumes room: "fd_room (fs_table s)" "fd_room (fs_list s)" and mem: "\<And>n. length (mem n) = n"
    and fresh: "fs_fresh s \<noteq> 0" and path: "vfs_node_from_path v (vfs_get_root v) path = Inr node"
  shows "\<exists>l t. file_open mem v s path flags mode = Inr (dl_used (fs_list s), s\<lparr>fs_table := t,
      fs_entries := (fs_entries s)(fs_fresh s \<mapsto> \<lparr>ge_node = node, ge_locked_by = 0, ge_ref_count = 1\<rparr>),
      fs_fds := (fs_fds s)(fs_fresh s + 12 \<mapsto> \<lparr>fd_gft_index = dl_used (fs_table s), fd_offset = 0,
        fd_read = (if flags AND O_RDWR \<noteq> 0 \<or> flags AND O_RDONLY \<noteq> 0 then 1 else 0),
        fd_write = (if flags AND O_RDWR \<noteq> 0 \<or> flags AND O_WRONLY \<noteq> 0 then 1 else 0)\<rparr>),
      fs_fresh := fs_fresh s + 24, fs_list := l\<rparr>) \<and>
    list_get t (dl_used (fs_table s)) = Inr (Some (fs_fresh s)) \<and>
    list_get l (dl_used (fs_list s)) = Inr (Some (fs_fresh s + 12))"
proof -
  obtain l where l: "list_push mem (fs_list s) (fs_fresh s + 12) = Inr (dl_used (fs_list s), l)"
    "dl_elems l = dl_elems (fs_list s) @ [fs_fresh s + 12]" "dl_inv l"
    using list_push_ok [of "fs_list s" mem "fs_fresh s + 12"] room mem by (auto simp: fd_room_def)
  have "list_get l (dl_used (fs_list s)) = Inr (Some (fs_fresh s + 12))"
    using l room by (intro list_get_pushed) (auto simp: fd_room_def)
  moreover have "fd_room (fs_table (s\<lparr>fs_if := False\<rparr>))" using room by simp
  ultimately show ?thesis
    using fd_open_ok [of "s\<lparr>fs_if := False\<rparr>" mem node flags, OF _ mem] fresh path l(1)
    by (cases s) (auto simp: file_open_def fd_flags)
qed

text \<open>A table with three entries, and file operations that log their calls.\<close>

definition demo_fds :: fdstate where
  "demo_fds = \<lparr>fs_table = \<lparr>dl_data = [0, 16, 32, 48, 0, 0, 0, 0], dl_used = 4, dl_size = 8\<rparr>,
     fs_entries = [16 \<mapsto> \<lparr>ge_node = 1, ge_locked_by = 0, ge_ref_count = 1\<rparr>,
       32 \<mapsto> \<lparr>ge_node = 2, ge_locked_by = 0, ge_ref_count = 1\<rparr>, 48 \<mapsto> \<lparr>ge_node = 3, ge_locked_by = 0, ge_ref_count = 1\<rparr>],
     fs_fds = [64 \<mapsto> \<lparr>fd_gft_index = 1, fd_offset = 0, fd_read = 1, fd_write = 0\<rparr>,
       80 \<mapsto> \<lparr>fd_gft_index = 2, fd_offset = 0, fd_read = 1, fd_write = 0\<rparr>],
     fs_list = \<lparr>dl_data = [64, 0], dl_used = 1, dl_size = 2\<rparr>, fs_if = True, fs_fresh = 256, fs_pid = 1\<rparr>"

definition demo_file :: vfile where
  "demo_file = \<lparr>vf_name = ''con'', vf_type = 2, vf_permissions = 0, vf_uid = 0, vf_gid = 0, vf_inode = 0, vf_size = 0,
     vf_fs = 0, vf_read = 7, vf_write = 0, vf_open = 0, vf_close = 0, vf_readdir = 0, vf_finddir = 0, vf_ptr = 0\<rparr>"

definition demo_file_vfs :: vfs where
  "demo_file_vfs = demo_vfs\<lparr>vs_nodes := (vs_nodes demo_vfs)(48 \<mapsto> (demo_vnode ''con'' 32 0 0)\<lparr>vn_file := 144\<rparr>),
     vs_files := [144 \<mapsto> demo_file]\<rparr>"

definition demo_ops :: "u32 \<Rightarrow> vfile \<Rightarrow> u32 \<Rightarrow> u32 \<Rightarrow> (u32 \<times> (u32 \<times> u32 \<times> u32) list) res" where
  "demo_ops f file off n = Inr (n, [(f, off, n)])"

text \<open>
  C20. Opening a path for reading and then reading through the descriptor performs the read operation
  of exactly the file the path names, at offset 0; the interrupt flag is as before.
\<close>

theorem file_open_read:
  assumes "fd_room (fs_table s)" and "fd_room (fs_list s)" and mem: "\<And>n. length (mem n) = n"
    and fresh: "fs_fresh s \<noteq> 0" "fs_fresh s + 12 \<noteq> 0"
    and path: "vfs_node_from_path v (vfs_get_root v) path = Inr node"
    and nf: "node_file v node = Inr f" and flags: "flags AND O_RDONLY \<noteq> 0"
    and ops: "vfs_read ops a f 0 n = Inr (k, a')"
  shows "\<exists>s'. file_open mem v s path flags mode = Inr (dl_used (fs_list s), s') \<and> fs_if s' = fs_if s \<and>
    file_read ops a v s' (dl_used (fs_list s)) n = Inr ((k, a'), s')"
  using file_open_ok [of s mem v path node flags mode, OF assms(1,2) mem fresh(1) path] fresh nf flags ops
  by (auto simp: file_read_def fd_to_node_def list_deref_def fd_flags)

theorem file_open_read_witness:
  "\<exists>s'. file_open (\<lambda>n. replicate n 0) demo_file_vfs demo_fds ''/dev/con'' 1 0 = Inr (1, s') \<and>
    fs_if s' = True \<and>
    file_read demo_ops [] demo_file_vfs s' 1 5 = Inr ((5, [(7, 0, 5)]), s')"
proof -
  let ?v = demo_file_vfs
  have path: "vfs_node_from_path ?v (vfs_get_root ?v) ''/dev/con'' = Inr 48"
    by (simp add: vfs_node_from_path_def tokens.simps demo_file_vfs_def demo_vfs_def vfs_get_root_def vfs_get_child_by_name_def
      search_child.simps demo_vnode_def)
  have f: "node_file ?v 48 = Inr demo_file"
    by (simp add: node_file_def demo_file_vfs_def demo_vnode_def)
  have fl: "(1 :: u32) AND 1 \<noteq> 0" by simp
  show ?thesis
    using file_open_read [of demo_fds "\<lambda>n. replicate n 0" ?v "''/dev/con''" 48 demo_file 1 demo_ops "[]" 5 5
      "[(7, 0, 5)]" 0, OF _ _ _ _ _ path f fl]
    by (simp add: demo_fds_def fd_room_def dl_inv_def demo_ops_def demo_file_def vfs_read_def)
qed

text \<open>
  Closing a descriptor that is not open returns -1 and leaves the interrupts of the machine
  disabled, whatever they were.
\<close>

theorem file_close_bad_fd:
  assumes "dl_inv (fs_list s)" and "dl_used (fs_list s) < fd"
  shows "file_close s fd = Inr (- 1, s\<lparr>fs_if := False\<rparr>)"
  using assms by (simp add: file_close_def list_get_def fd_flags)

theorem file_close_bad_fd_witness: "file_close demo_fds 9 = Inr (- 1, demo_fds\<lparr>fs_if := False\<rparr>)"
  by (rule file_close_bad_fd) (simp_all add: demo_fds_def dl_inv_def)

lemma nth_shifted: "i \<le> j \<Longrightarrow> Suc j < length xs \<Longrightarrow> (take i xs @ drop (i + 1) xs) ! j = xs ! Suc j"
  by (simp add: nth_append)

text \<open>
  C21. Closing the last descriptor of an entry of the global file table moves the later entries down:
  a descriptor that is still open then stands for the file of the next entry.
\<close>

theorem fd_close_redirects:
  assumes inv: "dl_inv (fs_table s)" and room: "dl_used (fs_table s) < dl_size (fs_table s)"
    and p: "p \<noteq> 0" "fs_fds s p = Some d" "fd_gft_index d = i"
    and q: "q \<noteq> 0" "q \<noteq> p" "fs_fds s q = Some d'" "fd_gft_index d' = j"
    and ij: "unat i \<le> unat j" "Suc (unat j) < length (dl_elems (fs_table s))"
    and e: "dl_elems (fs_table s) ! unat i \<noteq> 0" "fs_entries s (dl_elems (fs_table s) ! unat i) = Some e" "ge_ref_count e = 1"
    and e': "dl_elems (fs_table s) ! Suc (unat j) \<noteq> 0"
      "fs_entries s (dl_elems (fs_table s) ! Suc (unat j)) = Some e'"
  shows "\<exists>s'. fd_close s p = Inr (0, s') \<and> fd_to_node s' q = Inr (ge_node e')"
proof -
  let ?xs = "dl_elems (fs_table s)"
  have i: "unat i < length ?xs" using ij by linarith
  obtain l where l: "list_delete (fs_table s) i = Inr (0, l)" "dl_inv l"
    "dl_elems l = take (unat i) ?xs @ drop (unat i + 1) ?xs"
    using list_delete_ok [OF inv i room] by blast
  have get: "list_get (fs_table s) i = Inr (Some (?xs ! unat i))"
    using list_get_ok [OF inv i] .
  have "unat j < length (dl_elems l)" using l(3) ij by simp
  then have "list_get l j = Inr (Some (?xs ! Suc (unat j)))"
    using list_get_ok [OF l(2), of j] l(3) nth_shifted [OF ij] by simp
  moreover define es where "es = (fs_entries s)(?xs ! unat i \<mapsto> e\<lparr>ge_ref_count := 0\<rparr>)"
  have "es (?xs ! unat i) = Some (e\<lparr>ge_ref_count := 0\<rparr>)" by (simp add: es_def)
  moreover obtain x where "es (?xs ! Suc (unat j)) = Some x" "ge_node x = ge_node e'"
    using e e' by (cases "?xs ! Suc (unat j) = ?xs ! unat i") (auto simp: es_def)
  ultimately show ?thesis
    using p q e e' l(1) get
    by (auto simp: fd_close_def gft_dec_ref_count_def gft_get_ref_count_def gft_delete_def upd_entry_def
      list_deref_def fd_to_node_def fd_flags es_def [symmetric])
qed

theorem fd_close_redirects_witness:
  "\<exists>s'. fd_close demo_fds 64 = Inr (0, s') \<and> fd_to_node s' 80 = Inr (ge_node \<lparr>ge_node = 3, ge_locked_by = 0, ge_ref_count = 1\<rparr>)"
  by (rule fd_close_redirects [where i = 1 and j = 2 and d = "\<lparr>fd_gft_index = 1, fd_offset = 0, fd_read = 1, fd_write = 0\<rparr>"
      and d' = "\<lparr>fd_gft_index = 2, fd_offset = 0, fd_read = 1, fd_write = 0\<rparr>"
      and e = "\<lparr>ge_node = 1, ge_locked_by = 0, ge_ref_count = 1\<rparr>"])
    (simp_all add: demo_fds_def dl_inv_def dl_elems_def)

end
