(* ===== verification/Fs_Mem.thy ===== *)
theory Fs_Mem
  imports Heap Vfs
begin

text \<open>
  The file systems whose files lie in memory: the initial ramdisk (\<^verbatim>\<open>kernel/fs/initrd/initrd.c\<close>, tar
  archives the boot loader leaves in memory) and \<^verbatim>\<open>kernel/fs/tmpfs/tmpfs.c\<close>. The locale
  \<open>bounded_read\<close> is the contract of their read operations, which the readers of files rely on.
\<close>

section \<open>Strings of memory as names\<close>

partial_function (option) str_at :: "mem \<Rightarrow> u32 \<Rightarrow> string option" where
  "str_at m p = (if m p = 0 then Some []
     else Option.bind (str_at m (p + 1)) (\<lambda>s. Some (char_of (unat (m p)) # s)))"

lemma str_at_cstr: "cstr m p xs \<Longrightarrow> str_at m p = Some (map (\<lambda>x. char_of (unat x)) xs)"
  by (induction xs arbitrary: p) (subst str_at.simps, simp)+

section \<open>The initial ramdisk\<close>

definition initrd_read :: "mem \<Rightarrow> vfile \<Rightarrow> u32 \<Rightarrow> u32 \<Rightarrow> u32 \<Rightarrow> u32 \<times> mem" where
  "initrd_read m f offset n buffer =
     (if offset \<ge> vf_size f then (0, m)
      else let n1 = (if offset + n > vf_size f then vf_size f - offset else n)
           in (n1, snd (memcpy m buffer (vf_inode f + offset) n1)))"

text \<open>Eleven octal digits, the last one first; the characters are signed.\<close>

fun tar_size_loop :: "mem \<Rightarrow> u32 \<Rightarrow> nat \<Rightarrow> u32 \<Rightarrow> u32 \<Rightarrow> u32" where
  "tar_size_loop m p 0 count sz = sz"
| "tar_size_loop m p (Suc j) count sz =
     tar_size_loop m p j (count * 8) (sz + (scast (m (p + of_nat j)) - 48) * count)"

definition tar_get_size :: "mem \<Rightarrow> u32 \<Rightarrow> u32" where
  "tar_get_size m input = tar_size_loop m input 11 1 0"

text \<open>The next header: one block for this one, the blocks of the contents rounded up.\<close>

definition tar_next :: "u32 \<Rightarrow> u32 \<Rightarrow> u32" where
  "tar_next addr sz = addr + (sz div 512 + 1) * 512 + (if sz mod 512 \<noteq> 0 then 512 else 0)"

text \<open>
  A header has its name at byte 0, the size at 124, the type at 156 and room for an address at 160.
  The names start with \<^verbatim>\<open>./\<close>, which is skipped. \<open>rd\<close> is the address of \<^verbatim>\<open>initrd_read\<close>.
\<close>

definition tar_entry :: "vnode \<Rightarrow> vfile \<Rightarrow> u32 \<Rightarrow> mem \<Rightarrow> vfs \<Rightarrow> u32 \<Rightarrow> u32 \<Rightarrow> string \<Rightarrow> (u32 \<times> mem \<times> vfs) res" where
  "tar_entry gn gf rd m v node addr name =
     rbind (vfs_make_node gn gf v node name (if m (addr + 156) = 53 then VFS_DIR else VFS_FILE) (addr + 512)) (\<lambda>(n, v1).
     rbind (upd_node_file v1 n (\<lambda>f. f\<lparr>vf_read := rd\<rparr>)) (\<lambda>v2.
     let sz = tar_get_size m (addr + 124) in
     rbind (upd_node_file v2 n (\<lambda>f. f\<lparr>vf_size := sz\<rparr>)) (\<lambda>v3.
     Inr (tar_next addr sz, st32 m (addr + 160) addr, v3))))"

partial_function (option) tar_parse_loop ::
    "vnode \<Rightarrow> vfile \<Rightarrow> u32 \<Rightarrow> u32 \<Rightarrow> mem \<Rightarrow> vfs \<Rightarrow> u32 \<Rightarrow> u32 \<Rightarrow> (u32 \<times> mem \<times> vfs) res option" where
  "tar_parse_loop gn gf rd node m v addr i =
     Option.bind (strlen m addr) (\<lambda>l.
       if l = 0 then Some (Inr (i, m, v))
       else Option.bind (str_at m (addr + 2)) (\<lambda>name.
         case tar_entry gn gf rd m v node addr name of Inl e \<Rightarrow> Some (Inl e)
         | Inr (addr1, m1, v1) \<Rightarrow> tar_parse_loop gn gf rd node m1 v1 addr1 (i + 1)))"

definition tar_parse :: "vnode \<Rightarrow> vfile \<Rightarrow> u32 \<Rightarrow> mem \<Rightarrow> vfs \<Rightarrow> u32 \<Rightarrow> u32 \<Rightarrow> (u32 \<times> mem \<times> vfs) res" where
  "tar_parse gn gf rd m v node addr = returned (tar_parse_loop gn gf rd node m v addr 0)"

text \<open>The modules of the boot loader: 16 bytes each, the start address first; directory \<open>i\<close> is named by its digit.\<close>

fun load_modules :: "vnode \<Rightarrow> vfile \<Rightarrow> u32 \<Rightarrow> u32 \<Rightarrow> mem \<Rightarrow> vfs \<Rightarrow> u32 \<Rightarrow> nat \<Rightarrow> (mem \<times> vfs) res" where
  "load_modules gn gf rd initrd m v md 0 = Inr (m, v)"
| "load_modules gn gf rd initrd m v md (Suc i) =
     (let mod_addr = ld32 m md in
      rbind (vfs_add_child gn gf v initrd [char_of (48 + i)] VFS_DIR) (\<lambda>(d, v1).
      rbind (tar_parse gn gf rd m v1 d mod_addr) (\<lambda>(_, m1, v2).
      load_modules gn gf rd initrd m1 v2 (md + 16) i)))"

definition initrd_init :: "vnode \<Rightarrow> vfile \<Rightarrow> u32 \<Rightarrow> u32 \<Rightarrow> u32 \<Rightarrow> u32 \<Rightarrow> mem \<Rightarrow> vfs \<Rightarrow> (u32 \<times> mem \<times> vfs) res" where
  "initrd_init gn gf rd flags mods_count mods_addr m v =
     (if flags AND 8 = 0 then Inr (0, m, v)
      else if mods_count = 0 then Inr (0, m, v)
      else let count = (if mods_count > 10 then 10 else mods_count) in
        rbind (vfs_add_child gn gf v (vfs_get_root v) ''initrd'' VFS_DIR) (\<lambda>(initrd, v1).
        rbind (load_modules gn gf rd initrd m v1 mods_addr (unat count)) (\<lambda>(m1, v2).
        Inr (count, m1, v2))))"

section \<open>Temporary files\<close>

definition tmpfs_init :: "vfs \<Rightarrow> u32 \<Rightarrow> string \<Rightarrow> (u8 \<times> u32) res" where
  "tmpfs_init v root path =
     (if root \<noteq> 0 then Inr (1, root)
      else rbind (vfs_node_from_path v (vfs_get_root v) path) (\<lambda>r. Inr (0, r)))"

fun has_dots :: "string \<Rightarrow> bool" where
  "has_dots (c # d # s) \<longleftrightarrow> c = CHR ''.'' \<and> d = CHR ''.'' \<or> has_dots (d # s)"
| "has_dots _ \<longleftrightarrow> False"

fun last_slash :: "string \<Rightarrow> nat \<Rightarrow> nat" where
  "last_slash s 0 = 0"
| "last_slash s (Suc i) = (if s ! i = CHR ''/'' then i else last_slash s i)"

definition tmpfs_add :: "vnode \<Rightarrow> vfile \<Rightarrow> u32 \<Rightarrow> u32 \<Rightarrow> vfs \<Rightarrow> u32 \<Rightarrow> string \<Rightarrow> u8 \<Rightarrow> (u32 \<times> vfs) res" where
  "tmpfs_add gn gf rd wr v parent name type =
     rbind (vfs_add_child gn gf v parent name type) (\<lambda>(n, v1).
     rbind (upd_node_file v1 n (\<lambda>f. f\<lparr>vf_inode := 0, vf_read := rd, vf_write := wr\<rparr>)) (\<lambda>v2. Inr (0, v2)))"

text \<open>
  \<open>before\<close> is the byte in front of the path, which is tested for an empty one. The codes 255, 254,
  1, 2, 3 and 4 are errors.
\<close>

definition tmpfs_create :: "vnode \<Rightarrow> vfile \<Rightarrow> u32 \<Rightarrow> u32 \<Rightarrow> vfs \<Rightarrow> u32 \<Rightarrow> char \<Rightarrow> string \<Rightarrow> u8 \<Rightarrow> (u32 \<times> vfs) res" where
  "tmpfs_create gn gf rd wr v root before path type =
     (if root = 0 then Inr (255, v)
      else if type \<noteq> VFS_FILE \<and> type \<noteq> VFS_DIR then Inr (254, v)
      else if path \<noteq> [] \<and> hd path = CHR ''/'' then Inr (1, v)
      else if has_dots path then Inr (2, v)
      else if last (before # path) = CHR ''/'' then Inr (3, v)
      else let i = last_slash path (length path) in
        if i = 0 then tmpfs_add gn gf rd wr v root path type
        else rbind (vfs_node_from_path v root (take i path)) (\<lambda>parent.
          if parent = 0 then Inr (4, v)
          else tmpfs_add gn gf rd wr v parent (drop (i + 1) path) type))"

definition tmpfs_vfs_read :: "mem \<Rightarrow> vfile \<Rightarrow> u32 \<Rightarrow> u32 \<Rightarrow> u32 \<Rightarrow> u32 \<times> mem" where
  "tmpfs_vfs_read m f offset n buffer =
     (if offset \<ge> vf_size f then (0, m)
      else let n1 = (if offset + n > vf_size f then vf_size f - offset else n)
           in (n1, snd (memcpy m buffer (vf_inode f + offset) n1)))"

definition tmpfs_vfs_write :: "mem \<Rightarrow> heap \<Rightarrow> vfile \<Rightarrow> u32 \<Rightarrow> u32 \<Rightarrow> u32 \<Rightarrow> (u32 \<times> mem \<times> heap \<times> vfile) res" where
  "tmpfs_vfs_write m h f offset n buffer =
     rbind (if vf_inode f = 0 then rbind (kmalloc h n) (\<lambda>(p, h1). Inr (f\<lparr>vf_inode := p\<rparr>, h1)) else Inr (f, h)) (\<lambda>(f1, h1).
     rbind (if vf_size f1 < n then rbind (krealloc m h1 (vf_inode f1) n) (\<lambda>(p, m1, h2). Inr (f1\<lparr>vf_inode := p\<rparr>, m1, h2))
            else Inr (f1, m, h1)) (\<lambda>(f2, m1, h2).
     let f3 = f2\<lparr>vf_size := vf_size f2 + n\<rparr>
     in Inr (n, snd (memcpy m1 (vf_inode f3 + offset) buffer n), h2, f3)))"

section \<open>The contract of a read operation\<close>

lemma copy_up_append: "copy_up m d s (i + j) = copy_up (copy_up m d s i) (d + of_nat i) (s + of_nat i) j"
  by (induction i arbitrary: m d s) (simp_all add: ac_simps)

lemma offset_sum: "unat (off :: u32) + unat (n :: u32) < 4294967296 \<Longrightarrow> unat (off + n) = unat off + unat n"
  using unat_add_of_nat [of off "unat n"] by simp

lemma offset_in_file: "unat (off :: u32) + unat (n :: u32) \<le> unat (z :: u32) \<Longrightarrow> unat (off + n) = unat off + unat n"
  using offset_sum [of off n] unat_u32_less [of z] by simp

lemma offset_rest: "unat (off :: u32) + unat (n :: u32) \<le> unat (z :: u32) \<Longrightarrow> \<not> z < off + n"
  using offset_in_file [of off n z] by (simp add: not_less word_le_nat_alt)

lemma offset_past: "unat (z :: u32) < unat (off :: u32) + unat (n :: u32) \<Longrightarrow> unat off + unat n < 4294967296 \<Longrightarrow> z < off + n"
  using offset_sum [of off n] by (simp add: word_less_nat_alt)

locale bounded_read =
  fixes rd :: "mem \<Rightarrow> vfile \<Rightarrow> u32 \<Rightarrow> u32 \<Rightarrow> u32 \<Rightarrow> u32 \<times> mem"
  assumes at_end: "vf_size f \<le> off \<Longrightarrow> rd m f off n b = (0, m)"
    and inside: "off < vf_size f \<Longrightarrow> unat off + unat n \<le> unat (vf_size f) \<Longrightarrow>
      rd m f off n b = (n, snd (memcpy m b (vf_inode f + off) n))"
    and cut: "off < vf_size f \<Longrightarrow> unat (vf_size f) < unat off + unat n \<Longrightarrow> unat off + unat n < 2 ^ 32 \<Longrightarrow>
      rd m f off n b = (vf_size f - off, snd (memcpy m b (vf_inode f + off) (vf_size f - off)))"
begin

lemma count_le: "unat off + unat n < 2 ^ 32 \<Longrightarrow> fst (rd m f off n b) \<le> n"
  using at_end [of f off m n b] inside [of off f n m b] cut [of off f n m b] unat_sub [of off "vf_size f"]
  by (cases "vf_size f \<le> off"; cases "unat off + unat n \<le> unat (vf_size f)")
    (auto simp: not_le word_le_nat_alt word_less_nat_alt)

lemma whole:
  assumes "0 < vf_size f" and "unat (vf_size f) \<le> unat n"
  shows "rd m f 0 n b = (vf_size f, snd (memcpy m b (vf_inode f) (vf_size f)))"
proof (cases "unat (vf_size f) < unat n")
  case True
  then show ?thesis using cut [of 0 f n m b] assms(1) unat_u32_less [of n] by simp
next
  case False
  then have "n = vf_size f" using assms(2) by (simp add: word_unat_eq_iff)
  then show ?thesis using inside [of 0 f n m b] assms(1) by simp
qed

lemma two_parts:
  assumes "unat off + unat k + unat n \<le> unat (vf_size f)" and n: "0 < n"
  shows "(let (_, m1) = rd m f off k b in rd m1 f (off + k) n (b + k)) = (n, snd (rd m f off (k + n) b))"
proof -
  have u: "unat (off + k) = unat off + unat k" "unat (k + n) = unat k + unat n"
    using assms(1) unat_u32_less [of "vf_size f"] unat_add_of_nat [of off "unat k"] unat_add_of_nat [of k "unat n"]
    by simp_all
  have "0 < unat n" using n by (simp add: word_less_nat_alt)
  then have lt: "off < vf_size f" "off + k < vf_size f"
    using assms(1) u by (simp_all add: word_less_nat_alt)
  have "rd m f off k b = (k, snd (memcpy m b (vf_inode f + off) k))"
    using assms(1) lt by (intro inside) auto
  moreover have "rd m f off (k + n) b = (k + n, snd (memcpy m b (vf_inode f + off) (k + n)))"
    using assms(1) lt u by (intro inside) auto
  moreover have "rd m1 f (off + k) n (b + k) = (n, snd (memcpy m1 (b + k) (vf_inode f + (off + k)) n))" for m1
    using assms(1) lt u by (intro inside) auto
  ultimately show ?thesis
    using u by (simp add: memcpy_def copy_up_append ac_simps)
qed

end

interpretation initrd: bounded_read initrd_read
  by unfold_locales (auto simp: initrd_read_def Let_def offset_rest offset_past)

interpretation tmpfs: bounded_read tmpfs_vfs_read
  by unfold_locales (auto simp: tmpfs_vfs_read_def Let_def offset_rest offset_past)

section \<open>Properties\<close>

definition demo_tmp :: "u32 \<Rightarrow> u32 \<Rightarrow> vfile" where
  "demo_tmp inode sz = \<lparr>vf_name = ''notes'', vf_type = 0, vf_permissions = 0, vf_uid = 0, vf_gid = 0, vf_inode = inode,
     vf_size = sz, vf_fs = 0, vf_read = 1, vf_write = 2, vf_open = 0, vf_close = 0, vf_readdir = 0, vf_finddir = 0, vf_ptr = 0\<rparr>"

definition octal :: "nat list \<Rightarrow> nat" where
  "octal ds = foldl (\<lambda>v d. 8 * v + d) 0 ds"

lemma octal_snoc: "octal (ds @ [d]) = 8 * octal ds + d"
  by (simp add: octal_def)

lemma octal_char: "(scast (48 + of_nat d :: u8) :: u32) - 48 = of_nat d" if "d < 8"
proof -
  have "d \<in> {0, 1, 2, 3, 4, 5, 6, 7}" using that by auto
  then show ?thesis by auto
qed

lemma tar_size_loop_octal:
  assumes "\<forall>i<length ds. m (p + of_nat i) = 48 + of_nat (ds ! i)" and "\<forall>d\<in>set ds. d < 8"
  shows "tar_size_loop m p (length ds) c sz = sz + c * of_nat (octal ds)"
  using assms
proof (induction ds arbitrary: c sz rule: rev_induct)
  case Nil
  then show ?case by (simp add: octal_def)
next
  case (snoc d ds)
  have "\<forall>i<length ds. m (p + of_nat i) = 48 + of_nat (ds ! i)"
    using snoc.prems(1) by (auto simp: nth_append dest: spec [of _ i for i])
  moreover have "m (p + of_nat (length ds)) = 48 + of_nat d"
    using snoc.prems(1) by (auto dest: spec [of _ "length ds"])
  ultimately show ?case
    using snoc octal_char [of d] by (simp add: octal_snoc algebra_simps)
qed

lemma blocks_round_up:
  "(x div 512 + 1) * 512 + (if x mod 512 \<noteq> 0 then 512 else 0) = 512 + 512 * ((x + 511) div 512)" for x :: nat
proof -
  obtain q r where x: "x = 512 * q + r" "r < 512"
    using mult_div_mod_eq [of 512 x] by (metis mod_less_divisor zero_less_numeral)
  have "x + 511 = (r + 511) + 512 * q" using x by simp
  then have "(x + 511) div 512 = q + (r + 511) div 512"
    by (simp only: div_mult_self2 zero_neq_numeral not_False_eq_True)
  moreover have "(r + 511) div 512 = (if r = 0 then 0 else 1)"
    using x(2) by (auto intro: div_nat_eqI)
  ultimately show ?thesis using x by simp
qed

lemma unat_numeral_512: "unat (512 :: u32) = 512"
  by simp

lemma of_nat_unat_word: "of_nat (unat (x :: u32)) = x"
  by simp

lemma unat_tar_next:
  assumes "unat addr + unat sz + 1024 < 2 ^ 32"
  shows "unat (tar_next addr sz) = unat addr + 512 + 512 * ((unat sz + 511) div 512)"
proof -
  let ?n = "(unat sz div 512 + 1) * 512 + (if unat sz mod 512 \<noteq> 0 then 512 else 0)"
  define d where "d = sz div 512"
  have d: "unat sz div 512 = unat d" by (simp add: d_def unat_div)
  have e: "sz mod 512 \<noteq> 0 \<longleftrightarrow> unat sz mod 512 \<noteq> 0"
    using unat_mod [of sz 512] by (metis unat_0 unat_eq_0 unat_numeral_512)
  have "tar_next addr sz = addr + of_nat ?n"
    unfolding tar_next_def d d_def [symmetric] e
    by (cases "unat sz mod 512 = 0")
      (simp_all only: of_nat_add of_nat_mult of_nat_unat_word of_nat_0 of_nat_1 of_nat_numeral add.assoc if_True if_False semiring_1_class.of_nat_0
        simp_thms)
  moreover have "?n = 512 + 512 * ((unat sz + 511) div 512)"
    by (rule blocks_round_up)
  ultimately show ?thesis
    using unat_add_of_nat [of addr ?n] assms by simp
qed

text \<open>
  The size field of a header is read as the octal number its eleven digits write (modulo 2^32),
  and the next header is looked for behind this one's block and the blocks that hold the contents.
\<close>

theorem tar_size_and_next:
  assumes "length ds = 11" and "\<forall>d\<in>set ds. d < 8"
    and "\<forall>i<11. m (addr + 124 + of_nat i) = 48 + of_nat (ds ! i)"
    and "unat addr + octal ds + 1024 < 2 ^ 32"
  shows "unat (tar_get_size m (addr + 124)) = octal ds \<and>
    unat (tar_next addr (tar_get_size m (addr + 124))) = unat addr + 512 + 512 * ((octal ds + 511) div 512)"
proof -
  have sz: "tar_get_size m (addr + 124) = of_nat (octal ds)"
    using tar_size_loop_octal [of ds m "addr + 124" 1 0] assms(1-3) by (simp add: tar_get_size_def)
  then have "unat (tar_get_size m (addr + 124)) = octal ds"
    using assms(4) by (simp add: unat_of_nat_u32)
  then show ?thesis
    using unat_tar_next [of addr "tar_get_size m (addr + 124)"] assms(4) by simp
qed

theorem tar_size_and_next_witness:
  "unat (tar_get_size (\<lambda>a. if a = 0x1086 then 53 else if a = 0x1085 then 49 else 48) (0x1000 + 124)) =
      octal [0, 0, 0, 0, 0, 0, 0, 0, 0, 1, 5] \<and>
    unat (tar_next 0x1000 (tar_get_size (\<lambda>a. if a = 0x1086 then 53 else if a = 0x1085 then 49 else 48) (0x1000 + 124))) =
      unat (0x1000 :: u32) + 512 + 512 * ((octal [0, 0, 0, 0, 0, 0, 0, 0, 0, 1, 5] + 511) div 512)"
proof (rule tar_size_and_next)
  have "i < 11 \<Longrightarrow> i = 0 \<or> i = 1 \<or> i = 2 \<or> i = 3 \<or> i = 4 \<or> i = 5 \<or> i = 6 \<or> i = 7 \<or> i = 8 \<or> i = 9 \<or> i = 10" for i :: nat
    by presburger
  then show "\<forall>i<11. (if (0x1000 :: u32) + 124 + of_nat i = 0x1086 then 53 else if (0x1000 :: u32) + 124 + of_nat i = 0x1085 then 49 else 48) =
      (48 + of_nat ([0, 0, 0, 0, 0, 0, 0, 0, 0, 1, 5] ! i) :: u8)"
    by fastforce
qed (simp_all add: octal_def)



text \<open>
  The first write into a new temporary file never stores anything: on the heap the kernel sets up
  it faults (the release of the block it just got) or leaves the file without memory.
\<close>

theorem tmpfs_first_write_lost:
  assumes "0 < placement" and "unat placement + 72 < 2 ^ 32"
    and f: "vf_inode f = 0" "vf_size f = 0" "0 < n"
  shows "(\<exists>e. tmpfs_vfs_write m (heap_create ns placement start sz mx usr) f off n src = Inl e) \<or>
    (\<exists>m' h' f'. tmpfs_vfs_write m (heap_create ns placement start sz mx usr) f off n src = Inr (n, m', h', f') \<and>
      vf_inode f' = 0)"
proof -
  let ?h = "heap_create ns placement start sz mx usr"
  obtain as h' fs al where k: "kmallocs ?h [n, n] = Inr (as, h')" and rel: "heap_rel h' fs al" "length fs \<le> 1"
  proof (rule fresh_kmallocs [of placement "[n, n]" ns start sz mx usr])
    show "unat placement + 40 + 16 * length [n, n] < 2 ^ 32" using assms(2) by simp
  qed (use assms(1) in blast)+
  obtain a h1 b where a: "kmalloc ?h n = Inr (a, h1)" and b: "kmalloc h1 n = Inr (b, h')"
    using k by auto
  obtain e where e: "kfree h' a = Inl e"
    using heap_free_faults [OF rel] by (auto simp: kfree_def)
  show ?thesis
    using f a b e by (cases "a = 0"; cases "b = 0") (simp_all add: tmpfs_vfs_write_def krealloc_def Let_def)
qed

theorem tmpfs_first_write_lost_witness:
  "(\<exists>e. tmpfs_vfs_write (\<lambda>_. 0) (heap_create (\<lambda>_. None) 0x200000 0x800000 0x100000 0x100000 0)
      (demo_tmp 0 0) 0 8 0x1000 = Inl e) \<or>
    (\<exists>m' h' f'. tmpfs_vfs_write (\<lambda>_. 0) (heap_create (\<lambda>_. None) 0x200000 0x800000 0x100000 0x100000 0)
      (demo_tmp 0 0) 0 8 0x1000 = Inr (8, m', h', f') \<and> vf_inode f' = 0)"
  by (rule tmpfs_first_write_lost) (simp_all add: demo_tmp_def)

text \<open>Reading a file of the ramdisk with an offset and a size whose sum wraps copies more than the file has.\<close>

lemma initrd_read_overflow:
  assumes "off < vf_size f" and "2 ^ 32 \<le> unat off + unat n" and "unat off + unat n \<le> 2 ^ 32 + unat (vf_size f)"
  shows "fst (initrd_read m f off n b) = n \<and> vf_size f - off < n"
proof -
  have "unat (off + n) = unat off + unat n - 2 ^ 32"
    using assms(2) unat_u32_less [of off] unat_u32_less [of n] by (simp add: unat_word_ariths le_mod_geq)
  then have "\<not> vf_size f < off + n" and "\<not> vf_size f \<le> off"
    using assms by (simp_all add: word_less_nat_alt word_le_nat_alt)
  moreover have "vf_size f - off < n"
    using assms unat_sub [of off "vf_size f"] unat_u32_less [of "vf_size f"]
    by (simp add: word_less_nat_alt word_le_nat_alt)
  ultimately show ?thesis by (simp add: initrd_read_def Let_def)
qed

end
