(* ===== verification/Elf.thy ===== *)
theory Elf
  imports Fs_Mem Mmu
begin

text \<open>
  \<^verbatim>\<open>kernel/exec/elf.c\<close>, and the first steps of a user program in \<^verbatim>\<open>multitasking/task.c\<close>: checking an executable, loading
  its segments, entering it. The memory \<open>m\<close> is the physical memory. The buffer with the file lies in the kernel
  heap, which every directory maps to itself, and its headers are read there; the addresses of the segments are
  chosen by the program and go through its page tables (\<open>Mmu\<close>).
\<close>

section \<open>Headers in memory\<close>

record elf_header =
  eh_magic0 :: u8
  eh_magic1 :: u8
  eh_magic2 :: u8
  eh_magic3 :: u8
  eh_cl :: u8
  eh_endianness :: u8
  eh_type :: u16
  eh_machine :: u16
  eh_elf_version :: u32
  eh_entry :: u32
  eh_ph_offset :: u32
  eh_ph_table_entry_size :: u16
  eh_ph_table_entry_count :: u16

definition elf_header_at :: "mem \<Rightarrow> u32 \<Rightarrow> elf_header" where
  "elf_header_at m b = \<lparr>eh_magic0 = m b, eh_magic1 = m (b + 1), eh_magic2 = m (b + 2), eh_magic3 = m (b + 3),
     eh_cl = m (b + 4), eh_endianness = m (b + 5), eh_type = ld16 m (b + 16), eh_machine = ld16 m (b + 18),
     eh_elf_version = ld32 m (b + 20), eh_entry = ld32 m (b + 24), eh_ph_offset = ld32 m (b + 28),
     eh_ph_table_entry_size = ld16 m (b + 42), eh_ph_table_entry_count = ld16 m (b + 44)\<rparr>"

record elf_ph_header =
  ph_type :: u32
  ph_offset :: u32
  ph_vaddr :: u32
  ph_paddr :: u32
  ph_file_size :: u32
  ph_mem_size :: u32
  ph_flags :: u32
  ph_align :: u32

definition elf_ph_at :: "mem \<Rightarrow> u32 \<Rightarrow> elf_ph_header" where
  "elf_ph_at m p = \<lparr>ph_type = ld32 m p, ph_offset = ld32 m (p + 4), ph_vaddr = ld32 m (p + 8),
     ph_paddr = ld32 m (p + 12), ph_file_size = ld32 m (p + 16), ph_mem_size = ld32 m (p + 20),
     ph_flags = ld32 m (p + 24), ph_align = ld32 m (p + 28)\<rparr>"

text \<open>The values of \<^verbatim>\<open>elf.h\<close> that the loader tests; the letters of the magic number are codes.\<close>

abbreviation (input) ELF_MAGIC0 :: u8 where "ELF_MAGIC0 \<equiv> 0x7F"
abbreviation (input) ELF_MAGIC1 :: u8 where "ELF_MAGIC1 \<equiv> 69"
abbreviation (input) ELF_MAGIC2 :: u8 where "ELF_MAGIC2 \<equiv> 76"
abbreviation (input) ELF_MAGIC3 :: u8 where "ELF_MAGIC3 \<equiv> 70"
abbreviation (input) ELF_CLASS_32 :: u8 where "ELF_CLASS_32 \<equiv> 1"
abbreviation (input) ELF_ENDIAN_LITTLE :: u8 where "ELF_ENDIAN_LITTLE \<equiv> 1"
abbreviation (input) ELF_VERSION_CURRENT :: u32 where "ELF_VERSION_CURRENT \<equiv> 1"
abbreviation (input) ELF_TYPE_EXEC :: u16 where "ELF_TYPE_EXEC \<equiv> 2"
abbreviation (input) ELF_MACHINE_386 :: u16 where "ELF_MACHINE_386 \<equiv> 3"
abbreviation (input) ELF_PH_SEGTYPE_NULL :: u32 where "ELF_PH_SEGTYPE_NULL \<equiv> 0"
abbreviation (input) ELF_PH_SEGTYPE_LOAD :: u32 where "ELF_PH_SEGTYPE_LOAD \<equiv> 1"

definition elf_verify_magic :: "elf_header \<Rightarrow> bool" where
  "elf_verify_magic eh \<longleftrightarrow> eh_magic0 eh = ELF_MAGIC0 \<and> eh_magic1 eh = ELF_MAGIC1 \<and> eh_magic2 eh = ELF_MAGIC2 \<and> eh_magic3 eh = ELF_MAGIC3"

definition elf_is_runnable :: "elf_header \<Rightarrow> bool" where
  "elf_is_runnable eh \<longleftrightarrow>
     (if eh_cl eh \<noteq> ELF_CLASS_32 then False
      else if eh_endianness eh \<noteq> ELF_ENDIAN_LITTLE then False
      else if eh_machine eh \<noteq> ELF_MACHINE_386 then False
      else if eh_elf_version eh \<noteq> ELF_VERSION_CURRENT then False
      else if eh_type eh \<noteq> ELF_TYPE_EXEC then False
      else True)"

section \<open>Loading\<close>

text \<open>
  One entry of the program header table, at address \<open>p\<close>. Its fields are read again after the copy,
  as the code does.
\<close>

definition load_segment :: "mem \<Rightarrow> pg_state \<Rightarrow> u32 \<Rightarrow> u32 \<Rightarrow> (mem \<times> pg_state) res" where
  "load_segment m st buffer p =
     (if ph_type (elf_ph_at m p) = ELF_PH_SEGTYPE_NULL then Inr (m, st)
      else if ph_type (elf_ph_at m p) = ELF_PH_SEGTYPE_LOAD then
        rbind (pg_alloc st (ph_vaddr (elf_ph_at m p)) (PG_RW OR PG_USER)) (\<lambda>(_, st1).
        let h = elf_ph_at m p in
        rbind (vmemcpy st1 m (ph_vaddr h) (buffer + ph_offset h) (ph_mem_size h)) (\<lambda>m1.
        let h1 = elf_ph_at m1 p in
        rbind (if ph_file_size h1 < ph_mem_size h1
               then vmemset st1 m1 (ph_vaddr h1 + ph_file_size h1) 0 (ph_mem_size h1 - ph_file_size h1)
               else Inr m1) (\<lambda>m2. Inr (m2, st1))))
      else Inr (m, st))"

lemma u16_measure: "n < (c :: u16) \<Longrightarrow> 65536 - unat (n + 1) < 65536 - unat n"
  using unat_Suc_less [of n] unsigned_less [of c, where 'a = nat] by (simp add: word_less_nat_alt)

function load_segments :: "mem \<Rightarrow> pg_state \<Rightarrow> u32 \<Rightarrow> u32 \<Rightarrow> u16 \<Rightarrow> (mem \<times> pg_state) res" where
  "load_segments m st buffer ph_tbl n =
     (if n < eh_ph_table_entry_count (elf_header_at m buffer)
      then rbind (load_segment m st buffer (ph_tbl + 32 * ucast n)) (\<lambda>(m1, st1).
           load_segments m1 st1 buffer ph_tbl (n + 1))
      else Inr (m, st))"
  by pat_completeness auto

termination
  by (relation "measure (\<lambda>(m, st, buffer, ph_tbl, n). 65536 - unat n)") (auto dest: u16_measure)

declare load_segments.simps [simp del]

definition elf_load_segments :: "mem \<Rightarrow> pg_state \<Rightarrow> u32 \<Rightarrow> (u32 \<times> mem \<times> pg_state) res" where
  "elf_load_segments m st buffer =
     rbind (load_segments m st buffer (buffer + eh_ph_offset (elf_header_at m buffer)) 0) (\<lambda>(m1, st1).
       Inr (eh_entry (elf_header_at m1 buffer), m1, st1))"

text \<open>\<open>ops buffer m\<close> is what the read operations of the files do with this buffer and this memory.\<close>

definition elf_load :: "(u32 \<Rightarrow> mem \<Rightarrow> u32 \<Rightarrow> vfile \<Rightarrow> u32 \<Rightarrow> u32 \<Rightarrow> (u32 \<times> mem) res) \<Rightarrow> vfs \<Rightarrow> mem \<Rightarrow> pg_state \<Rightarrow> heap \<Rightarrow>
    u32 \<Rightarrow> (u32 \<times> mem \<times> pg_state \<times> heap) res" where
  "elf_load ops v m st h node =
     (if node = 0 then Inr (0, m, st, h)
      else rbind (node_file v node) (\<lambda>f.
           rbind (kmalloc h (vf_size f)) (\<lambda>(buffer, h1).
           rbind (vfs_read (ops buffer m) m f 0 (vf_size f)) (\<lambda>(r, m1).
             if r = 0 \<or> \<not> elf_verify_magic (elf_header_at m1 buffer) \<or> \<not> elf_is_runnable (elf_header_at m1 buffer)
             then rbind (kfree h1 buffer) (\<lambda>h2. Inr (0, m1, st, h2))
             else rbind (elf_load_segments m1 st buffer) (\<lambda>(e, m2, st1).
                  rbind (kfree h1 buffer) (\<lambda>h2. Inr (e, m2, st1, h2)))))))"

section \<open>Entering the program\<close>

text \<open>
  The words \<^verbatim>\<open>go_usermode\<close> pushes for \<^verbatim>\<open>iret\<close>, the last one first: where to go, the user code segment, the flags, the
  stack pointer (it is the kernel's) and the user data segment.
\<close>

definition go_usermode :: "u32 \<Rightarrow> u32 \<Rightarrow> u32 list" where
  "go_usermode esp target = [target, 0x1B, 0x200, esp, 0x23]"

text \<open>
  A program that could not be loaded asks for its own end, system call 1 with 1 in \<^verbatim>\<open>ebx\<close>, and waits for the scheduler
  to take it off; any other one gets a page for its stack and is entered.
\<close>

datatype program_start = Exit_call u32 u32 | Usermode "u32 list"

definition utask_exec :: "(u32 \<Rightarrow> mem \<Rightarrow> u32 \<Rightarrow> vfile \<Rightarrow> u32 \<Rightarrow> u32 \<Rightarrow> (u32 \<times> mem) res) \<Rightarrow> vfs \<Rightarrow> mem \<Rightarrow> pg_state \<Rightarrow> heap \<Rightarrow>
    u32 \<Rightarrow> u32 \<Rightarrow> (program_start \<times> mem \<times> pg_state \<times> heap) res" where
  "utask_exec ops v m st h esp args =
     rbind (elf_load ops v m st h args) (\<lambda>(e, m1, st1, h1).
       if e = 0 then Inr (Exit_call 1 1, m1, st1, h1)
       else rbind (pg_alloc st1 0xF000000 (PG_RW OR PG_USER)) (\<lambda>(_, st2).
            Inr (Usermode (go_usermode esp e), m1, st2, h1)))"

section \<open>Segments\<close>

lemma elf_ph_at_cong:
  assumes "\<And>a. in_region p 32 a \<Longrightarrow> m' a = m a"
  shows "elf_ph_at m' p = elf_ph_at m p"
proof -
  have "m' (p + of_nat i) = m (p + of_nat i)" if "i < 32" for i
    using that by (intro assms in_region_of_nat) auto
  note this [of 0] this [of 1] this [of 2] this [of 3] this [of 4] this [of 5] this [of 6] this [of 7]
    this [of 8] this [of 9] this [of 10] this [of 11] this [of 12] this [of 13] this [of 14] this [of 15]
    this [of 16] this [of 17] this [of 18] this [of 19] this [of 20] this [of 21] this [of 22] this [of 23]
    this [of 24] this [of 25] this [of 26] this [of 27] this [of 28] this [of 29] this [of 30] this [of 31]
  then show ?thesis
    by (simp add: elf_ph_at_def ld32_def add.assoc)
qed

lemma nat_sint_small:
  assumes "unat (x :: u32) < 2 ^ 31"
  shows "nat (sint x) = unat x"
proof -
  have i: "uint x = int (unat x)" by simp
  have "int (unat x) < int (2 ^ 31)" using assms by (simp only: of_nat_less_iff)
  then have lt: "uint x < 2 ^ 31" by (simp only: i of_nat_power of_nat_numeral)
  have ge: "- (2 ^ 31) \<le> uint x" using uint_ge_0 [of x] by (rule order.trans [rotated]) simp
  have "sint x = signed_take_bit (32 - Suc 0) (uint x)" by (simp only: sint_uint len_bit0 len_num1) simp
  also have "\<dots> = uint x" using signed_take_bit_int_eq_self [of 31 "uint x"] ge lt by simp
  finally show ?thesis by simp
qed

text \<open>Copying the whole size and clearing what follows the part from the file.\<close>

lemma copy_then_clear:
  fixes fs ms :: u32
  assumes "fs \<le> ms" and "unat ms < 2 ^ 31" and "m2 = (if fs < ms then fill m1 (d + fs) 0 (unat (ms - fs)) else m1)"
    and "m1 = copied m d s (unat ms)"
  shows "bytes m2 d (unat ms) = bytes m s (unat fs) @ replicate (unat ms - unat fs) 0"
    and "\<not> in_region d (unat ms) a \<Longrightarrow> m2 a = m a"
proof -
  let ?fs = "unat fs" and ?ms = "unat ms"
  have le: "?fs \<le> ?ms" using assms(1) by (simp add: word_le_nat_alt)
  have d: "unat (ms - fs) = ?ms - ?fs" using assms(1) by (rule unat_sub)
  have m2: "m2 a = (if in_region (d + of_nat ?fs) (?ms - ?fs) a then 0 else m1 a)" for a
    using d le assms(2) by (auto simp: assms(3) fill_apply word_less_nat_alt)
  have shift: "in_region (d + of_nat ?fs) (?ms - ?fs) (d + of_nat i) \<longleftrightarrow> ?fs \<le> i" if "i < ?ms" for i
  proof
    assume "in_region (d + of_nat ?fs) (?ms - ?fs) (d + of_nat i)"
    then obtain j where "j < ?ms - ?fs" "d + of_nat i = d + of_nat ?fs + of_nat j"
      by (rule in_regionE)
    then have "(of_nat i :: u32) = of_nat (?fs + j)" and j: "?fs + j < ?ms" by auto
    then have "i = ?fs + j"
      using of_nat_word_inj [of i "?fs + j", where 'a = 32] that unat_u32_less [of ms]
      by (simp del: of_nat_add)
    then show "?fs \<le> i" by simp
  next
    assume "?fs \<le> i"
    then have "d + of_nat i = (d + of_nat ?fs) + of_nat (i - ?fs)" by (simp add: of_nat_diff)
    then show "in_region (d + of_nat ?fs) (?ms - ?fs) (d + of_nat i)"
      using that \<open>?fs \<le> i\<close> unat_u32_less [of ms]
        in_region_of_nat [of "i - ?fs" "?ms - ?fs" "d + of_nat ?fs"] by (simp only:) simp
  qed
  have m1: "m1 (d + of_nat i) = m (s + of_nat i)" if "i < ?ms" for i
    using that unat_u32_le [of ms] in_region_of_nat [of i ?ms d] by (simp add: assms(4) copied_def)
  show "bytes m2 d ?ms = bytes m s ?fs @ replicate (?ms - ?fs) 0"
    using le by (intro nth_equalityI) (auto simp: nth_append m2 shift [simplified] m1)
  show "m2 a = m a" if "\<not> in_region d ?ms a"
    using that in_region_shift [of d ?fs "?ms - ?fs" a ?ms] le unat_u32_le [of ms]
    by (auto simp: m2 assms(4) copied_frame)
qed

lemma self_mapped_phys:
  assumes "\<And>i. i < n \<Longrightarrow> translate st (p + of_nat i) = Some (p + of_nat i)"
  shows "mapped st p n" and "\<And>i. i < n \<Longrightarrow> phys_of st (p + of_nat i) = p + of_nat i"
  using assms by (auto simp: mapped_iff)

text \<open>
  A segment of at most a page whose address starts a directory entry is loaded: the page is mapped to a frame
  that was free, and the program sees in it the bytes of the file followed by zeros up to the size in memory; nothing
  else in physical memory changes.
\<close>

theorem load_segment_image:
  assumes h: "elf_ph_at m p = h" "ph_type h = 1" "ph_file_size h \<le> ph_mem_size h" "unat (ph_mem_size h) \<le> 4096"
    and pg: "alloc_ready st (ph_vaddr h)" "table_index (ph_vaddr h) = 0"
      "pg_alloc st (ph_vaddr h) (PG_RW OR PG_USER) = Inr (f, st')"
    and buf: "\<forall>i<unat (ph_mem_size h). translate st' (buffer + ph_offset h + of_nat i) = Some (buffer + ph_offset h + of_nat i)"
      "apart f (unat (ph_mem_size h)) (buffer + ph_offset h) (unat (ph_mem_size h))" "apart f (unat (ph_mem_size h)) p 32"
  shows "\<exists>m'. load_segment m st buffer p = Inr (m', st') \<and> \<not> frame_used (pg_pmm st) (frame_of f) \<and>
    bytes (view st' m') (ph_vaddr h) (unat (ph_mem_size h)) = bytes m (buffer + ph_offset h) (unat (ph_file_size h)) @
      replicate (unat (ph_mem_size h) - unat (ph_file_size h)) 0 \<and>
    (\<forall>a. \<not> in_region f (unat (ph_mem_size h)) a \<longrightarrow> m' a = m a)"
proof -
  let ?va = "ph_vaddr h" and ?fs = "unat (ph_file_size h)" and ?ms = "unat (ph_mem_size h)"
  let ?src = "buffer + ph_offset h"
  have "(PG_RW OR PG_USER) AND PG_FRAME = 0" by simp
  note ok = pg_alloc_ok [OF pg(1,3) this]
  have page: "translate st' (?va + of_nat i) = Some (f + of_nat i)" if "i < 4096" for i
    by (rule translate_page [OF ok(1) ok(4) [OF pg(2)] that])
  define m1 where "m1 = copied m f ?src ?ms"
  define m2 where "m2 = (if ph_file_size h < ph_mem_size h then fill m1 (f + ph_file_size h) 0 (unat (ph_mem_size h - ph_file_size h)) else m1)"
  have "copy_up m f ?src ?ms = m1"
    using memcpy_copied [OF buf(2)] by (simp add: memcpy_def m1_def)
  then have cp: "vmemcpy st' m ?va ?src (ph_mem_size h) = Inr m1"
    using self_mapped_phys [of ?ms st' ?src] buf(1) page h(4) vcopy_up_linear [of ?ms st' ?va f ?src ?src m]
    by (simp add: vmemcpy_def mapped_iff)
  have "elf_ph_at m1 p = h"
    using h(1) apartD1 [OF apart_sym [OF buf(3)]] by (subst elf_ph_at_cong [of p m1 m]) (auto simp: m1_def copied_def)
  moreover have clr: "vmemset st' m1 (?va + ph_file_size h) 0 (ph_mem_size h - ph_file_size h) = Inr m2"
    if "ph_file_size h < ph_mem_size h"
  proof -
    let ?n = "unat (ph_mem_size h - ph_file_size h)"
    have n: "?n = ?ms - ?fs" "nat (sint (ph_mem_size h - ph_file_size h)) = ?n"
      using h(3,4) nat_sint_small [of "ph_mem_size h - ph_file_size h"] by (simp_all add: unat_sub)
    have "translate st' (?va + ph_file_size h + of_nat i) = Some (f + ph_file_size h + of_nat i)" if "i < ?n" for i
      using page [of "?fs + i"] that n(1) h(4) by (simp add: add.assoc)
    then show ?thesis
      using that n(2) by (simp add: vmemset_def mapped_iff m2_def vfill_linear)
  qed
  ultimately have load: "load_segment m st buffer p = Inr (m2, st')"
    using h(1,2) pg(3) cp by (simp add: load_segment_def Let_def m2_def)
  have "bytes (view st' m2) ?va ?ms = bytes m2 f ?ms"
    using page h(4) by (simp add: bytes_eq_iff view_def)
  with load ok(3) copy_then_clear [OF h(3) _ m2_def m1_def] h(4) show ?thesis by auto
qed

definition loader_pg :: pg_state where
  "loader_pg = \<lparr>pg_mem = (\<lambda>a. if a = 0x1004 then 0x7003 else if a = 0x1008 then 0x2003
       else if a = 0x2000 then 0x800003 else 0),
     pg_pmm = demo_pmm, pg_cur_dir = 0x1000, pg_cr0 = 0, pg_cr3 = 0x1000\<rparr>"

definition loaded_pg :: pg_state where
  "loaded_pg = loader_pg\<lparr>pg_mem := (pg_mem loader_pg)(0x7000 := 0x3007), pg_pmm := demo_pmm\<lparr>pm_frames := [0xFFFFFF8F]\<rparr>\<rparr>"

lemma first_clear_bit_numeral: "first_clear_bit w j (numeral k) =
    (if w AND push_bit j 1 \<noteq> 0 then first_clear_bit w (j + 1) (pred_numeral k) else Some j)"
  by (simp add: numeral_eq_Suc)

lemma demo_frame_alloc: "frame_alloc demo_pmm = Inr (0x3000, demo_pmm\<lparr>pm_frames := [0xFFFFFF8F]\<rparr>)"
  by (simp add: frame_alloc_def demo_pmm_def frame_bmp_get_first_def frame_bmp_set_def first_clear_bit_numeral)

lemma loader_pg_alloc: "pg_alloc loader_pg 0x400000 (PG_RW OR PG_USER) = Inr (0x3000, loaded_pg)"
  using demo_frame_alloc
  by (simp add: pg_alloc_def pg_frame_alloc_def loader_pg_def loaded_pg_def pg_map_pages_def is_aligned_def pg_tbl_exists_def
    entry_def entry_addr_def dir_index_def pg_is_mapped_def table_index_def Let_def set_entry_def)

lemma loader_ready: "dir_index virt = 1 \<Longrightarrow> alloc_ready loader_pg virt"
  by (simp add: alloc_ready_def loader_pg_def is_aligned_def demo_pmm_inv entry_def entry_addr_def frame_of_def)
    (simp add: frame_used_def demo_pmm_def)

text \<open>A header at 8 MiB for a segment of six bytes, four of them from the file.\<close>

definition demo_elf :: "u8 \<Rightarrow> mem" where
  "demo_elf page = (\<lambda>a. if a = 0x800000 then 1 else if a = 0x800005 then 1 else if a = 0x800009 then page else if a = 0x80000A then 0x40
     else if a = 0x800010 then 4 else if a = 0x800014 then 6 else if in_region 0x800100 4 a then 7 else 0)"

definition demo_ph :: "u32 \<Rightarrow> elf_ph_header" where
  "demo_ph va = \<lparr>ph_type = 1, ph_offset = 0x100, ph_vaddr = va, ph_paddr = 0, ph_file_size = 4,
     ph_mem_size = 6, ph_flags = 0, ph_align = 0\<rparr>"

lemma demo_elf_ph: "elf_ph_at (demo_elf 0) 0x800000 = demo_ph 0x400000" "elf_ph_at (demo_elf 0x10) 0x800000 = demo_ph 0x401000"
  by (simp_all add: elf_ph_at_def demo_elf_def demo_ph_def ld32_def in_region_def)

lemma less_6: "(\<forall>i<6. P i) \<longleftrightarrow> P 0 \<and> P 1 \<and> P 2 \<and> P 3 \<and> P 4 \<and> P (5 :: nat)"
  by (simp add: numeral_eq_Suc All_less_Suc conj_ac)

theorem load_segment_image_witness:
  "\<exists>m'. load_segment (demo_elf 0) loader_pg 0x800000 0x800000 = Inr (m', loaded_pg) \<and>
    \<not> frame_used (pg_pmm loader_pg) (frame_of 0x3000) \<and>
    bytes (view loaded_pg m') (ph_vaddr (demo_ph 0x400000)) (unat (ph_mem_size (demo_ph 0x400000))) =
      bytes (demo_elf 0) (0x800000 + ph_offset (demo_ph 0x400000)) (unat (ph_file_size (demo_ph 0x400000))) @
      replicate (unat (ph_mem_size (demo_ph 0x400000)) - unat (ph_file_size (demo_ph 0x400000))) 0 \<and>
    (\<forall>a. \<not> in_region 0x3000 (unat (ph_mem_size (demo_ph 0x400000))) a \<longrightarrow> m' a = demo_elf 0 a)"
proof (rule load_segment_image [OF demo_elf_ph(1)])
  show "alloc_ready loader_pg (ph_vaddr (demo_ph 0x400000))"
    by (rule loader_ready) (simp add: demo_ph_def dir_index_def)
  show "pg_alloc loader_pg (ph_vaddr (demo_ph 0x400000)) (PG_RW OR PG_USER) = Inr (0x3000, loaded_pg)"
    by (simp only: loader_pg_alloc demo_ph_def elf_ph_header.simps)
  show "apart 0x3000 (unat (ph_mem_size (demo_ph 0x400000))) (0x800000 + ph_offset (demo_ph 0x400000)) (unat (ph_mem_size (demo_ph 0x400000)))"
    and "apart 0x3000 (unat (ph_mem_size (demo_ph 0x400000))) 0x800000 32"
    by (simp_all add: demo_ph_def apart_intervalI)
  show "\<forall>i<unat (ph_mem_size (demo_ph 0x400000)). translate loaded_pg (0x800000 + ph_offset (demo_ph 0x400000) + of_nat i) =
      Some (0x800000 + ph_offset (demo_ph 0x400000) + of_nat i)"
    by (simp add: demo_ph_def less_6 translate_def loaded_pg_def loader_pg_def entry_def entry_addr_def dir_index_def table_index_def Let_def)
qed (simp_all add: demo_ph_def table_index_def)

text \<open>
  C24. A segment whose address does not start a directory entry, in a page that is not mapped yet, is never loaded: the
  page that is allocated for it is mapped elsewhere, and the copy ends in a page fault.
\<close>

theorem load_segment_page_fault:
  assumes "elf_ph_at m p = h" and "ph_type h = 1" and "ph_mem_size h \<noteq> 0"
    and "alloc_ready st (ph_vaddr h)" and "table_index (ph_vaddr h) \<noteq> 0" and "translate st (ph_vaddr h) = None"
    and "pg_alloc st (ph_vaddr h) (PG_RW OR PG_USER) = Inr (f, st')"
  shows "load_segment m st buffer p = Inl Page_fault"
proof -
  have "(PG_RW OR PG_USER) AND PG_FRAME = 0" by simp
  note pg_alloc_ok(5) [OF assms(4,7) this assms(5,6)]
  moreover have "0 < unat (ph_mem_size h)" using assms(3) by (simp add: unat_gt_0)
  ultimately have "\<not> mapped st' (ph_vaddr h) (unat (ph_mem_size h))"
    by (auto simp: mapped_iff intro!: exI [of _ 0])
  then show ?thesis using assms(1,2,7) by (simp add: load_segment_def vmemcpy_def Let_def)
qed

theorem load_segment_page_fault_witness:
  "load_segment (demo_elf 0x10) loader_pg 0x800000 0x800000 = Inl Page_fault"
proof (rule load_segment_page_fault [OF demo_elf_ph(2)])
  show "alloc_ready loader_pg (ph_vaddr (demo_ph 0x401000))"
    by (rule loader_ready) (simp add: demo_ph_def dir_index_def)
  show "pg_alloc loader_pg (ph_vaddr (demo_ph 0x401000)) (PG_RW OR PG_USER) = Inr (0x3000, loaded_pg)"
    using demo_frame_alloc
    by (simp add: pg_alloc_def pg_frame_alloc_def loader_pg_def loaded_pg_def pg_map_pages_def is_aligned_def pg_tbl_exists_def
      entry_def entry_addr_def dir_index_def pg_is_mapped_def table_index_def Let_def set_entry_def demo_ph_def)
  show "translate loader_pg (ph_vaddr (demo_ph 0x401000)) = None"
    by (simp add: demo_ph_def translate_def loader_pg_def entry_def entry_addr_def dir_index_def table_index_def Let_def)
qed (simp_all add: demo_ph_def table_index_def)

text \<open>A program is entered only if its file passed both tests of its header, and at an address other than 0.\<close>

lemma elf_load_checked:
  assumes "elf_load ops v m st h node = Inr (e, m', st', h')" and "e \<noteq> 0"
  obtains buffer m1 where "elf_verify_magic (elf_header_at m1 buffer)" and "elf_is_runnable (elf_header_at m1 buffer)"
    and "elf_load_segments m1 st buffer = Inr (e, m', st')"
  using assms by (auto simp: elf_load_def split: if_splits intro: that)

lemma utask_exec_usermode:
  assumes "utask_exec ops v m st h esp args = Inr (Usermode frame, m', st', h')"
  obtains buffer m1 e where "elf_verify_magic (elf_header_at m1 buffer)" and "elf_is_runnable (elf_header_at m1 buffer)"
    and "e \<noteq> 0" and "frame = go_usermode esp e"
proof -
  obtain e st1 where e: "elf_load ops v m st h args = Inr (e, m', st1, h')" "e \<noteq> 0" "frame = go_usermode esp e"
    using assms by (auto simp: utask_exec_def split: if_splits)
  show thesis by (rule elf_load_checked [OF e(1,2)]) (rule that [OF _ _ e(2,3)])
qed

text \<open>The page from which \<^verbatim>\<open>crt0.s\<close> takes the stack of the program is mapped when it is entered.\<close>

lemma user_stack_mapped:
  assumes "alloc_ready st 0xF000000" and "pg_alloc st 0xF000000 (PG_RW OR PG_USER) = Inr (f, st')" and "i < 4096"
  shows "translate st' (0xF000000 + of_nat i) = Some (f + of_nat i)"
  using pg_alloc_ok(1,4) [OF assms(1,2)] assms(3) by (intro translate_page) (simp_all add: table_index_def)

end
