(* ===== verification/Elf_Load.thy ===== *)
theory Elf_Load
  imports Elf
begin

text \<open>
  A whole program: the segments of its table are loaded one after the other. What one step keeps of the page tables
  (\<open>tables_ok\<close>) and of the segments that are already in memory is shown first, then the loop of \<^verbatim>\<open>elf_load_segments\<close>.
\<close>

section \<open>Page tables that do not overlap\<close>

text \<open>The directory \<open>new\<close> and its tables lie in frames of their own, all of them in use.\<close>

definition tables_apart :: "pg_state \<Rightarrow> u32 \<Rightarrow> bool" where
  "tables_apart st new \<longleftrightarrow> pmm_inv (pg_pmm st) \<and> frame_used (pg_pmm st) (frame_of new) \<and>
     (\<forall>k<1024. present st new k \<longrightarrow> frame_used (pg_pmm st) (frame_of (tbl_of st new k)) \<and> frame_of (tbl_of st new k) \<noteq> frame_of new \<and>
        (\<forall>j<1024. present st new j \<longrightarrow> frame_of (tbl_of st new j) = frame_of (tbl_of st new k) \<longrightarrow> j = k))"

lemma tables_apartD:
  assumes "tables_apart st new" and "k < 1024" and "present st new k"
  shows "frame_used (pg_pmm st) (frame_of (tbl_of st new k))" and "frame_of (tbl_of st new k) \<noteq> frame_of new"
    and "j < 1024 \<Longrightarrow> present st new j \<Longrightarrow> frame_of (tbl_of st new j) = frame_of (tbl_of st new k) \<Longrightarrow> j = k"
  using assms by (simp_all add: tables_apart_def)

text \<open>This holds of the current directory, which is also the one in \<open>cr3\<close>.\<close>

definition tables_ok :: "pg_state \<Rightarrow> bool" where
  "tables_ok st \<longleftrightarrow> is_aligned (pg_cur_dir st) \<and> pg_cr3 st = pg_cur_dir st \<and> tables_apart st (pg_cur_dir st)"

lemma tables_okD:
  assumes "tables_ok st"
  shows "is_aligned (pg_cur_dir st)" and "pg_cr3 st = pg_cur_dir st" and "pmm_inv (pg_pmm st)"
    and "frame_used (pg_pmm st) (frame_of (pg_cur_dir st))" and "tables_apart st (pg_cur_dir st)"
  using assms by (simp_all add: tables_ok_def tables_apart_def)

lemmas tables_ok_table = tables_apartD [OF tables_okD(5)]

lemma tables_ok_ready: "tables_ok st \<Longrightarrow> alloc_ready st virt"
  using index_less(1) [of virt] by (auto simp: tables_ok_def tables_apart_def alloc_ready_def present_def tbl_of_def)

text \<open>An address is translated through its entry of the directory and one table only.\<close>

lemma translate_same:
  assumes "tables_ok st" and "pg_cr3 st' = pg_cr3 st"
    and "entry st' (pg_cur_dir st) (dir_index a) = entry st (pg_cur_dir st) (dir_index a)"
    and "present st (pg_cur_dir st) (dir_index a) \<Longrightarrow>
      entry st' (tbl_of st (pg_cur_dir st) (dir_index a)) (table_index a) = entry st (tbl_of st (pg_cur_dir st) (dir_index a)) (table_index a)"
  shows "translate st' a = translate st a"
proof -
  have "pg_cur_dir st AND PG_FRAME = pg_cur_dir st"
    using aligned_or_flags [OF tables_okD(1) [OF assms(1)], of 0] by simp
  then show ?thesis
    using assms(2-4) tables_okD(2) [OF assms(1)] by (simp add: translate_def present_def tbl_of_def Let_def)
qed

lemma map_loop_pmm: "map_loop st dir di tbl virt phys flags i n = Inr st' \<Longrightarrow> pg_pmm st' = pg_pmm st"
proof (induction n arbitrary: st i)
  case (Suc n)
  then show ?case by (auto simp: Let_def split: if_splits)
qed simp

section \<open>The directory of a new program\<close>

text \<open>\<^verbatim>\<open>pg_clone_page_dir\<close> gives every table a frame of its own, so a program starts with tables that do not overlap.\<close>

lemma copy_entries_frame:
  assumes "is_aligned dst" and "i + n \<le> 1024"
  shows "pg_pmm (copy_entries st dst src i n) = pg_pmm st \<and>
    (\<forall>a. frame_of a \<noteq> frame_of dst \<longrightarrow> pg_mem (copy_entries st dst src i n) a = pg_mem st a)"
  using assms(2)
proof (induction n arbitrary: st i)
  case (Suc n)
  then show ?case using mem_set_entry [OF assms(1)] by simp
qed simp

lemma clone_step_apart:
  assumes ap: "tables_apart st new" and new: "is_aligned new" and i: "i < 1024" "\<not> present st new i"
    and run: "pg_clone_page_table st e = Inr (t, st1)"
  shows "tables_apart (set_entry st1 new i (t OR (x AND PG_FLAGS))) new \<and>
    (\<forall>k<1024. k \<noteq> i \<longrightarrow> entry (set_entry st1 new i (t OR (x AND PG_FLAGS))) new k = entry st new k)"
proof -
  have inv: "pmm_inv (pg_pmm st)" "frame_used (pg_pmm st) (frame_of new)" using ap by (simp_all add: tables_apart_def)
  obtain a st0 where 0: "pg_frame_alloc st = Inr (a, st0)" "t = a OR (e AND PG_FLAGS)" "st1 = copy_entries st0 a (e AND PG_FRAME) 0 1024"
    using run by (auto simp: pg_clone_page_table_def)
  obtain pm where a: "st0 = st\<lparr>pg_pmm := pm\<rparr>" "is_aligned a" "\<not> frame_used (pg_pmm st) (frame_of a)" "pmm_inv pm"
      "\<forall>g. frame_used pm g \<longleftrightarrow> g = frame_of a \<or> frame_used (pg_pmm st) g"
    by (rule pg_frame_allocE [OF inv(1) 0(1)])
  let ?s = "set_entry st1 new i (t OR (x AND PG_FLAGS))"
  have cp: "pg_pmm st1 = pm" "frame_of b \<noteq> frame_of a \<Longrightarrow> pg_mem st1 b = pg_mem st b" for b
    using copy_entries_frame [OF a(2), of 0 1024 st0 "e AND PG_FRAME"] by (simp_all add: 0(3) a(1))
  have ne: "frame_of a \<noteq> frame_of new" using a(3) inv(2) by auto
  have old: "entry ?s new k = entry st new k" if "k < 1024" "k \<noteq> i" for k
    using that i(1) new ne cp(2) frame_of_entry [OF new] by (simp add: entry_set_entry) (simp add: entry_def)
  have v: "entry ?s new i = t OR (x AND PG_FLAGS)" by (simp add: entry_def set_entry_def)
  have "t OR (x AND PG_FLAGS) = a OR ((e OR x) AND PG_FLAGS)"
    unfolding 0(2) by (rule bit_eqI) (simp only: bit_or_iff bit_and_iff, blast)
  then have here: "tbl_of ?s new i = a"
    unfolding tbl_of_def v by (simp only: aligned_or_flags [OF a(2)])
  have same: "present ?s new k \<longleftrightarrow> present st new k" "tbl_of ?s new k = tbl_of st new k" if "k < 1024" "k \<noteq> i" for k
    using old [OF that] by (simp_all add: present_def tbl_of_def)
  have fresh: "frame_of (tbl_of st new k) \<noteq> frame_of a" if "k < 1024" "present st new k" for k
    using tables_apartD(1) [OF ap that] a(3) by auto
  have "frame_used pm (frame_of (tbl_of ?s new k)) \<and> frame_of (tbl_of ?s new k) \<noteq> frame_of new \<and>
      (\<forall>j<1024. present ?s new j \<longrightarrow> frame_of (tbl_of ?s new j) = frame_of (tbl_of ?s new k) \<longrightarrow> j = k)"
    if k: "k < 1024" "present ?s new k" for k
  proof (cases "k = i")
    case True
    then show ?thesis using a(5) ne here same fresh by metis
  next
    case False
    then have p: "present st new k" using same k by simp
    then have "frame_used pm (frame_of (tbl_of st new k)) \<and> frame_of (tbl_of st new k) \<noteq> frame_of new"
      using tables_apartD(1,2) [OF ap k(1)] a(5) by simp
    moreover have "j = k" if "j < 1024" "present ?s new j" "frame_of (tbl_of ?s new j) = frame_of (tbl_of ?s new k)" for j
      using that same [of j] same(2) [OF k(1) False] here fresh [OF k(1) p] tables_apartD(3) [OF ap k(1) p] by metis
    ultimately show ?thesis using same(2) [OF k(1) False] by auto
  qed
  then show ?thesis
    using old a(4,5) inv(2) cp(1) by (simp add: tables_apart_def)
qed

lemma clone_loop_apart:
  assumes "clone_loop st dir new i n = Inr st'" and "i + n \<le> 1024" and "is_aligned new" and "tables_apart st new"
    and "\<forall>k<1024. i \<le> k \<longrightarrow> \<not> present st new k"
  shows "tables_apart st' new"
  using assms(1,2,4,5)
proof (induction n arbitrary: st i)
  case (Suc n)
  show ?case
  proof (cases "entry st dir i AND PG_PRESENT \<noteq> 0")
    case False
    then show ?thesis using Suc.IH [of st "i + 1"] Suc.prems by simp
  next
    case True
    have i: "i < 1024" "\<not> present st new i" using Suc.prems by auto
    obtain t st1 where 1: "pg_clone_page_table st (entry st dir i) = Inr (t, st1)"
      using Suc.prems(1) True by (auto split: if_splits)
    define st3 where "st3 = set_entry st1 new i (t OR (entry (set_entry st1 new i t) dir i AND PG_FLAGS))"
    have run: "clone_loop st3 dir new (i + 1) n = Inr st'"
      using Suc.prems(1) True 1 i(1) assms(3)
      by (simp add: st3_def Let_def entry_set_entry) (simp add: set_entry_def)
    note step = clone_step_apart [OF Suc.prems(3) assms(3) i 1, of "entry (set_entry st1 new i t) dir i", folded st3_def]
    have "\<forall>k<1024. i + 1 \<le> k \<longrightarrow> \<not> present st3 new k"
      using step Suc.prems(4) by (auto simp: present_def)
    then show ?thesis using Suc.IH [OF run] Suc.prems(2) step by simp
  qed
qed simp

lemma clone_tables_ok:
  assumes "pmm_inv (pg_pmm st)" and "pg_clone_page_dir st dir = Inr (new, st')"
  shows "tables_ok (pg_switch_page_dir st' new)"
proof -
  obtain st0 where 0: "pg_frame_alloc st = Inr (new, st0)" "clone_loop (fill_entries st0 new 0 0 1024) dir new 0 1024 = Inr st'"
    using assms(2) by (auto simp: pg_clone_page_dir_def)
  obtain pm where a: "st0 = st\<lparr>pg_pmm := pm\<rparr>" "is_aligned new" "pmm_inv pm"
      "\<forall>g. frame_used pm g \<longleftrightarrow> g = frame_of new \<or> frame_used (pg_pmm st) g"
    by (rule pg_frame_allocE [OF assms(1) 0(1)])
  note f = fill_entries_mem [OF a(2), where i = 0 and n = 1024 and v = 0 and st = st0, simplified]
  have "\<not> present (fill_entries st0 new 0 0 1024) new k" if "k < 1024" for k
    using f(1) [of k] that by (simp add: present_def)
  moreover from this have "tables_apart (fill_entries st0 new 0 0 1024) new"
    using a f(3) by (simp add: tables_apart_def)
  ultimately have "tables_apart st' new"
    using clone_loop_apart [OF 0(2) _ a(2)] by simp
  then show ?thesis
    using a(2) by (simp add: tables_ok_def tables_apart_def pg_switch_page_dir_def present_def tbl_of_def entry_def)
qed

section \<open>Mapping one page\<close>

lemma map_present:
  assumes ok: "tables_ok st" and pr: "present st (pg_cur_dir st) (dir_index virt)" and virt: "is_aligned virt" "table_index virt = 0"
    and phys: "is_aligned phys" and fl: "flags AND PG_FRAME = 0"
  shows "\<exists>st'. pg_map_pages st (pg_cur_dir st) virt phys 1 flags = Inr st' \<and> pg_pmm st' = pg_pmm st \<and> pg_cur_dir st' = pg_cur_dir st \<and>
    tables_ok st' \<and> translate st' virt = Some phys \<and> (\<forall>a. dir_index a \<noteq> dir_index virt \<longrightarrow> translate st' a = translate st a)"
proof -
  let ?dir = "pg_cur_dir st" and ?di = "dir_index virt"
  let ?tbl = "tbl_of st ?dir ?di"
  note ok' = tables_okD [OF ok]
  note tbl = tables_ok_table [OF ok index_less(1) pr]
  obtain st' where run: "pg_map_pages st ?dir virt phys 1 flags = Inr st'"
    and st': "entry st' ?dir ?di AND PG_FRAME = ?tbl" "entry st' ?dir ?di AND PG_PRESENT \<noteq> 0"
      "\<forall>k<1024. entry st' ?tbl k = (if k < unat 1 then (phys + of_nat k * 0x1000) OR PG_PRESENT OR flags else entry st ?tbl k)"
      "\<forall>a. frame_of a \<noteq> frame_of ?tbl \<longrightarrow> a \<noteq> entry_addr ?dir ?di \<longrightarrow> pg_mem st' a = pg_mem st a"
    by (rule pg_map_pages_run [OF ok'(1) virt(1) phys fl, where num = 1]) (use pr tbl(2) in \<open>auto simp: present_def tbl_of_def\<close>)
  have regs: "pg_cr3 st' = ?dir" "pg_cur_dir st' = ?dir" using map_pages_regs [OF run] ok'(2) by auto
  have pmm: "pg_pmm st' = pg_pmm st"
    using run virt phys ucast_present pr by (auto simp: pg_map_pages_def pg_tbl_exists_def present_def Let_def dest: map_loop_pmm split: if_splits)
  have dir: "entry st' ?dir k = entry st ?dir k" if "k < 1024" "k \<noteq> ?di" for k
    unfolding entry_def using that tbl(2) frame_of_entry [OF ok'(1) that(1)] entry_addr_inj [OF ok'(1) that(1) index_less(1)]
    by (intro st'(4) [rule_format]) auto
  have same: "tbl_of st' ?dir k = tbl_of st ?dir k \<and> present st' ?dir k = present st ?dir k" if "k < 1024" for k
    using dir [OF that] st'(1,2) pr by (cases "k = ?di") (auto simp: tbl_of_def present_def)
  have ok1: "tables_ok st'"
    unfolding tables_ok_def tables_apart_def regs pmm using ok same ok'(1,3,4) by (auto simp: tables_ok_def tables_apart_def)
  have "translate st' virt = Some phys"
  proof -
    have "?dir AND PG_FRAME = ?dir" using aligned_or_flags [OF ok'(1), of 0] by simp
    moreover have "virt AND PG_FLAGS = 0" using page_indices(4) [OF virt(1), of 0] by simp
    ultimately show ?thesis
      using st'(1-3) virt(2) flag_bits(1,2) [OF phys fl] by (simp add: translate_def Let_def regs)
  qed
  moreover have "translate st' a = translate st a" if "dir_index a \<noteq> ?di" for a
  proof (rule translate_same [OF ok])
    let ?t = "tbl_of st ?dir (dir_index a)"
    assume p: "present st ?dir (dir_index a)"
    have al: "is_aligned ?t" by (simp add: tbl_of_def)
    note t = tables_ok_table [OF ok index_less(1) p]
    have "frame_of ?t \<noteq> frame_of ?tbl" using t(3) [OF index_less(1) pr] that by metis
    then show "entry st' ?t (table_index a) = entry st ?t (table_index a)"
      unfolding entry_def using frame_of_entry [OF al index_less(2)] frame_of_entry [OF ok'(1) index_less(1)] t(2)
      by (intro st'(4) [rule_format]) (metis, metis)
  qed (use regs ok'(2) dir [OF index_less(1) that] in simp_all)
  ultimately show ?thesis using run pmm regs(2) ok1 by blast
qed

lemma mk_table:
  assumes ok: "tables_ok st" and np: "\<not> present st (pg_cur_dir st) di" and di: "di < 1024"
    and free: "0 < frames.n_free (pg_pmm st)" and fl: "flags AND PG_FRAME = 0"
  shows "\<exists>t st1. pg_mk_pgtbl st (pg_cur_dir st) di flags = Inr (t, st1) \<and> pg_cur_dir st1 = pg_cur_dir st \<and> tables_ok st1 \<and>
    present st1 (pg_cur_dir st) di \<and> (\<forall>a. dir_index a \<noteq> di \<longrightarrow> translate st1 a = translate st a) \<and>
    (\<forall>g. frame_used (pg_pmm st) g \<longrightarrow> frame_used (pg_pmm st1) g) \<and> frames.n_free (pg_pmm st) = Suc (frames.n_free (pg_pmm st1))"
proof -
  let ?dir = "pg_cur_dir st"
  note ok' = tables_okD [OF ok]
  obtain f pm where 1: "pg_frame_alloc st = Inr (of_nat (f * 4096), st\<lparr>pg_pmm := pm\<rparr>)" "\<not> frame_used (pg_pmm st) f"
      "is_aligned (of_nat (f * 4096))" "frame_of (of_nat (f * 4096)) = f" "pmm_inv pm"
      "\<forall>g. frame_used pm g \<longleftrightarrow> g = f \<or> frame_used (pg_pmm st) g" "frames.n_free (pg_pmm st) = Suc (frames.n_free pm)"
    by (rule pg_frame_alloc_ok [OF ok'(3) free])
  define t where "t = (of_nat (f * 4096) :: u32)"
  note 1 = 1 [folded t_def]
  define st1 where "st1 = set_entry (fill_entries (st\<lparr>pg_pmm := pm\<rparr>) t 0 0 1024) ?dir di (t OR PG_PRESENT OR flags)"
  have run: "pg_mk_pgtbl st ?dir di flags = Inr (t, st1)"
    using 1(1) by (simp add: pg_mk_pgtbl_def st1_def Let_def)
  have regs: "pg_cr3 st1 = ?dir" "pg_cur_dir st1 = ?dir" "pg_pmm st1 = pm"
    using ok'(2) fill_entries_mem(3) [OF 1(3), of 0 1024] by (simp_all add: st1_def)
  have ne: "frame_of t \<noteq> frame_of ?dir" using 1(2,4) ok'(4) by auto
  have mem: "pg_mem st1 a = pg_mem st a" if "frame_of a \<noteq> frame_of t" "a \<noteq> entry_addr ?dir di" for a
    using that fill_entries_mem(2) [OF 1(3), of 0 1024 a] by (simp add: st1_def set_entry_def)
  have dir: "entry st1 ?dir k = entry st ?dir k" if "k < 1024" "k \<noteq> di" for k
    unfolding entry_def using that ne frame_of_entry [OF ok'(1) that(1)] entry_addr_inj [OF ok'(1) that(1) di]
    by (intro mem) auto
  have new: "tbl_of st1 ?dir di = t" "present st1 ?dir di"
    using flag_bits(1,2) [OF 1(3) fl] by (simp_all add: st1_def tbl_of_def present_def entry_def set_entry_def)
  have old: "tbl_of st1 ?dir k = tbl_of st ?dir k \<and> present st1 ?dir k = present st ?dir k" if "k < 1024" "k \<noteq> di" for k
    using dir [OF that] by (simp add: tbl_of_def present_def)
  have fresh: "frame_of (tbl_of st ?dir k) \<noteq> frame_of t" if "k < 1024" "present st ?dir k" for k
    using tables_ok_table(1) [OF ok that] 1(2,4) by auto
  have ok1: "tables_ok st1"
    unfolding tables_ok_def tables_apart_def regs
  proof (intro conjI allI impI)
    fix k assume k: "k < 1024" "present st1 ?dir k"
    show "frame_used pm (frame_of (tbl_of st1 ?dir k))" and "frame_of (tbl_of st1 ?dir k) \<noteq> frame_of ?dir"
      using k new old tables_ok_table(1,2) [OF ok k(1)] 1(4,6) ne by (cases "k = di"; auto)+
    fix j assume "j < 1024" "present st1 ?dir j" "frame_of (tbl_of st1 ?dir j) = frame_of (tbl_of st1 ?dir k)"
    then show "j = k"
      using k new(1) old fresh tables_ok_table(3) [OF ok k(1)] by (cases "k = di"; cases "j = di") metis+
  qed (use ok' 1(5,6) in auto)
  have "translate st1 a = translate st a" if "dir_index a \<noteq> di" for a
  proof (rule translate_same [OF ok])
    let ?t = "tbl_of st ?dir (dir_index a)"
    assume p: "present st ?dir (dir_index a)"
    have al: "is_aligned ?t" by (simp add: tbl_of_def)
    show "entry st1 ?t (table_index a) = entry st ?t (table_index a)"
      unfolding entry_def using frame_of_entry [OF al index_less(2)] frame_of_entry [OF ok'(1) di] fresh [OF index_less(1) p]
        tables_ok_table(2) [OF ok index_less(1) p]
      by (intro mem) (metis, metis)
  qed (use regs ok'(2) dir [OF index_less(1) that] in simp_all)
  then show ?thesis using run regs ok1 new(2) 1(6,7) by auto
qed

text \<open>\<^verbatim>\<open>pg_alloc\<close> takes at most two frames: one for the page, one for a table.\<close>

lemma pg_alloc_new:
  assumes ok: "tables_ok st" and virt: "is_aligned virt" "table_index virt = 0" and fl: "flags AND PG_FRAME = 0"
    and free: "2 \<le> frames.n_free (pg_pmm st)"
  obtains f st' where "pg_alloc st virt flags = Inr (f, st')" and "tables_ok st'" and "is_aligned f"
    and "\<not> frame_used (pg_pmm st) (frame_of f)" and "frame_used (pg_pmm st') (frame_of f)"
    and "\<forall>g. frame_used (pg_pmm st) g \<longrightarrow> frame_used (pg_pmm st') g"
    and "frames.n_free (pg_pmm st) \<le> frames.n_free (pg_pmm st') + 2"
    and "translate st' virt = Some f" and "\<forall>a. dir_index a \<noteq> dir_index virt \<longrightarrow> translate st' a = translate st a"
proof -
  note ok' = tables_okD [OF ok]
  obtain n pm where 1: "pg_frame_alloc st = Inr (of_nat (n * 4096), st\<lparr>pg_pmm := pm\<rparr>)" "\<not> frame_used (pg_pmm st) n"
      "is_aligned (of_nat (n * 4096))" "frame_of (of_nat (n * 4096)) = n" "pmm_inv pm"
      "\<forall>g. frame_used pm g \<longleftrightarrow> g = n \<or> frame_used (pg_pmm st) g" "frames.n_free (pg_pmm st) = Suc (frames.n_free pm)"
    by (rule pg_frame_alloc_ok [OF ok'(3)]) (use free in auto)
  define f where "f = (of_nat (n * 4096) :: u32)"
  define st0 where "st0 = st\<lparr>pg_pmm := pm\<rparr>"
  note 1 = 1 [folded f_def st0_def]
  have 0: "pg_cur_dir st0 = pg_cur_dir st" "pg_pmm st0 = pm" "translate st0 a = translate st a" for a
    by (simp_all add: st0_def)
  have ok0: "tables_ok st0"
    using ok 1(5,6) unfolding tables_ok_def tables_apart_def by (simp add: st0_def present_def tbl_of_def entry_def)
  have fr0: "0 < frames.n_free (pg_pmm st0)" using free 1(7) 0(2) by simp
  have "\<exists>st1. pg_map_pages st0 (pg_cur_dir st0) virt f 1 flags = pg_map_pages st1 (pg_cur_dir st1) virt f 1 flags \<and>
      tables_ok st1 \<and> present st1 (pg_cur_dir st1) (dir_index virt) \<and>
      (\<forall>a. dir_index a \<noteq> dir_index virt \<longrightarrow> translate st1 a = translate st0 a) \<and>
      (\<forall>g. frame_used (pg_pmm st0) g \<longrightarrow> frame_used (pg_pmm st1) g) \<and> frames.n_free (pg_pmm st0) \<le> Suc (frames.n_free (pg_pmm st1))"
  proof (cases "present st0 (pg_cur_dir st0) (dir_index virt)")
    case True
    then show ?thesis using ok0 by (intro exI [of _ st0]) simp
  next
    case False
    obtain t st1
      where mk: "pg_mk_pgtbl st0 (pg_cur_dir st0) (dir_index virt) flags = Inr (t, st1)" "pg_cur_dir st1 = pg_cur_dir st0" "tables_ok st1"
        "present st1 (pg_cur_dir st0) (dir_index virt)" "\<forall>a. dir_index a \<noteq> dir_index virt \<longrightarrow> translate st1 a = translate st0 a"
        "\<forall>g. frame_used (pg_pmm st0) g \<longrightarrow> frame_used (pg_pmm st1) g" "frames.n_free (pg_pmm st0) = Suc (frames.n_free (pg_pmm st1))"
      using mk_table [OF ok0 False index_less(1) fr0 fl] by blast
    moreover have "pg_map_pages st0 (pg_cur_dir st0) virt f 1 flags = pg_map_pages st1 (pg_cur_dir st1) virt f 1 flags"
      using False mk(1,2,4) virt(1) 1(3) ucast_present by (simp add: pg_map_pages_def present_def pg_tbl_exists_def Let_def)
    ultimately show ?thesis by (intro exI [of _ st1]) simp
  qed
  then obtain st1 where 2: "pg_map_pages st0 (pg_cur_dir st0) virt f 1 flags = pg_map_pages st1 (pg_cur_dir st1) virt f 1 flags"
      "tables_ok st1" "present st1 (pg_cur_dir st1) (dir_index virt)"
      "\<And>a. dir_index a \<noteq> dir_index virt \<Longrightarrow> translate st1 a = translate st a"
      "\<And>g. frame_used pm g \<Longrightarrow> frame_used (pg_pmm st1) g" "frames.n_free pm \<le> Suc (frames.n_free (pg_pmm st1))"
    unfolding 0 by blast
  obtain st' where 3: "pg_map_pages st1 (pg_cur_dir st1) virt f 1 flags = Inr st'" "pg_pmm st' = pg_pmm st1" "tables_ok st'"
      "translate st' virt = Some f" "\<And>a. dir_index a \<noteq> dir_index virt \<Longrightarrow> translate st' a = translate st1 a"
    using map_present [OF 2(2,3) virt 1(3) fl] by blast
  have "pg_alloc st virt flags = Inr (f, st')"
    using 1(1) 2(1) 3(1) by (simp add: pg_alloc_def)
  moreover have "\<And>g. frame_used (pg_pmm st) g \<Longrightarrow> frame_used (pg_pmm st') g" "frame_used (pg_pmm st') (frame_of f)"
    unfolding 3(2) using 1(4,6) 2(5) by blast+
  moreover have "frames.n_free (pg_pmm st) \<le> frames.n_free (pg_pmm st') + 2"
    unfolding 3(2) using 1(7) 2(6) by linarith
  moreover have "\<not> frame_used (pg_pmm st) (frame_of f)" using 1(2,4) by simp
  moreover have "\<And>a. dir_index a \<noteq> dir_index virt \<Longrightarrow> translate st' a = translate st a" using 3(5) 2(4) by metis
  ultimately show thesis using that 3(3,4) 1(3) by blast
qed

section \<open>One segment\<close>

text \<open>The bytes \<open>bs\<close> lie at the address of the segment, in a frame of their own that is in use.\<close>

definition loaded :: "pg_state \<Rightarrow> mem \<Rightarrow> elf_ph_header \<Rightarrow> u8 list \<Rightarrow> bool" where
  "loaded st m h bs \<longleftrightarrow> is_aligned (ph_vaddr h) \<and> length bs \<le> 4096 \<and>
     (\<exists>f. is_aligned f \<and> frame_used (pg_pmm st) (frame_of f) \<and> translate st (ph_vaddr h) = Some f \<and> bytes m f (length bs) = bs)"

lemma loaded_view:
  assumes "loaded st m h bs"
  shows "bytes (view st m) (ph_vaddr h) (length bs) = bs"
proof -
  obtain f where f: "is_aligned (ph_vaddr h)" "length bs \<le> 4096" "translate st (ph_vaddr h) = Some f" "bytes m f (length bs) = bs"
    using assms by (auto simp: loaded_def)
  have "bytes (view st m) (ph_vaddr h) (length bs) = bytes m f (length bs)"
    using translate_page [OF f(1,3)] f(2) by (simp add: bytes_eq_iff view_def)
  with f(4) show ?thesis by simp
qed

text \<open>What the bytes are to be: those of the file, then zeros up to the size in memory.\<close>

definition segment_image :: "mem \<Rightarrow> u32 \<Rightarrow> elf_ph_header \<Rightarrow> u8 list" where
  "segment_image m buffer h = bytes m (buffer + ph_offset h) (unat (ph_file_size h)) @
     replicate (unat (ph_mem_size h) - unat (ph_file_size h)) 0"

lemma bytes_same: "n \<le> 2 ^ 32 \<Longrightarrow> (\<And>a. in_region p n a \<Longrightarrow> m' a = m a) \<Longrightarrow> bytes m' p n = bytes m p n"
  unfolding bytes_eq_iff by (intro allI impI) (simp only: in_region_of_nat)

lemma segment_image_cong:
  assumes "\<And>a. in_region (buffer + ph_offset h) (unat (ph_file_size h)) a \<Longrightarrow> m' a = m a"
  shows "segment_image m' buffer h = segment_image m buffer h"
  using bytes_same [OF _ assms] unat_u32_less [of "ph_file_size h"] by (simp add: segment_image_def)

text \<open>The file, \<open>sz\<close> bytes at \<open>buffer\<close>, is in frames in use that are mapped to themselves.\<close>

definition file_mapped :: "pg_state \<Rightarrow> u32 \<Rightarrow> nat \<Rightarrow> bool" where
  "file_mapped st buffer sz \<longleftrightarrow> (\<forall>a. in_region buffer sz a \<longrightarrow> translate st a = Some a \<and> frame_used (pg_pmm st) (frame_of a))"

text \<open>
  A segment that the loader can load: of at most a page, from the start of a directory entry that is not one of
  the file's. The copy is of the size in memory, so this many bytes must follow in the file.
\<close>

definition loadable :: "u32 \<Rightarrow> nat \<Rightarrow> elf_ph_header \<Rightarrow> bool" where
  "loadable buffer sz h \<longleftrightarrow> ph_file_size h \<le> ph_mem_size h \<and> unat (ph_mem_size h) \<le> 4096 \<and>
     is_aligned (ph_vaddr h) \<and> table_index (ph_vaddr h) = 0 \<and>
     (\<forall>a. in_region (buffer + ph_offset h) (unat (ph_mem_size h)) a \<longrightarrow> in_region buffer sz a) \<and>
     (\<forall>a. in_region buffer sz a \<longrightarrow> dir_index a \<noteq> dir_index (ph_vaddr h))"

lemma in_region_frame:
  assumes "is_aligned f" and "n \<le> 4096" and "in_region f n a"
  shows "frame_of a = frame_of f"
proof -
  obtain i where i: "i < n" "a = f + of_nat i" using assms(3) by (rule in_regionE)
  obtain q where "unat f = 4096 * q" using assms(1) by (rule alignedE)
  then show ?thesis using page_indices(1) [OF assms(1), of i] i assms(2) by (simp add: frame_of_def)
qed

lemma load_segment_step:
  assumes ok: "tables_ok st" and free: "2 \<le> frames.n_free (pg_pmm st)" and fm: "file_mapped st buffer sz"
    and h: "elf_ph_at m p = h" "ph_type h = 1" "loadable buffer sz h"
    and p: "\<And>a. in_region p 32 a \<Longrightarrow> in_region buffer sz a"
  obtains m' st' where "load_segment m st buffer p = Inr (m', st')" and "tables_ok st'"
    and "frames.n_free (pg_pmm st) \<le> frames.n_free (pg_pmm st') + 2" and "file_mapped st' buffer sz"
    and "\<forall>g. frame_used (pg_pmm st) g \<longrightarrow> frame_used (pg_pmm st') g"
    and "\<forall>a. frame_used (pg_pmm st) (frame_of a) \<longrightarrow> m' a = m a"
    and "loaded st' m' h (segment_image m buffer h)"
    and "\<forall>h' bs. loaded st m h' bs \<longrightarrow> dir_index (ph_vaddr h') \<noteq> dir_index (ph_vaddr h) \<longrightarrow> loaded st' m' h' bs"
proof -
  let ?va = "ph_vaddr h" and ?fs = "unat (ph_file_size h)" and ?ms = "unat (ph_mem_size h)"
  have l: "ph_file_size h \<le> ph_mem_size h" "?ms \<le> 4096" "is_aligned ?va" "table_index ?va = 0"
      "\<And>a. in_region (buffer + ph_offset h) ?ms a \<Longrightarrow> in_region buffer sz a"
      "\<And>a. in_region buffer sz a \<Longrightarrow> dir_index a \<noteq> dir_index ?va"
    using h(3) by (auto simp: loadable_def)
  have fl: "(PG_RW OR PG_USER) AND PG_FRAME = 0" by simp
  obtain f st' where al: "pg_alloc st ?va (PG_RW OR PG_USER) = Inr (f, st')" "tables_ok st'" "is_aligned f"
      "\<not> frame_used (pg_pmm st) (frame_of f)" "frame_used (pg_pmm st') (frame_of f)"
      "\<forall>g. frame_used (pg_pmm st) g \<longrightarrow> frame_used (pg_pmm st') g"
      "frames.n_free (pg_pmm st) \<le> frames.n_free (pg_pmm st') + 2"
      "translate st' ?va = Some f" "\<forall>a. dir_index a \<noteq> dir_index ?va \<longrightarrow> translate st' a = translate st a"
    by (rule pg_alloc_new [OF ok l(3,4) fl free])
  have fm': "file_mapped st' buffer sz"
    using fm l(6) al(6,9) by (simp add: file_mapped_def)
  have notf: "\<not> in_region f ?ms a" if "frame_used (pg_pmm st) (frame_of a)" for a
    using in_region_frame [OF al(3) l(2)] al(4) that by metis
  have sep: "apart f ?ms q n" if "\<And>a. in_region q n a \<Longrightarrow> in_region buffer sz a" for q n
    using notf that fm unfolding apart_def file_mapped_def by metis
  have "\<forall>i<?ms. translate st' (buffer + ph_offset h + of_nat i) = Some (buffer + ph_offset h + of_nat i)"
    using fm' l(5) in_region_of_nat [of _ ?ms] l(2) by (auto simp: file_mapped_def)
  from load_segment_image [OF h(1,2) l(1,2) tables_ok_ready [OF ok] l(4) al(1) this sep [OF l(5)] sep [OF p]]
  obtain m' where m': "load_segment m st buffer p = Inr (m', st')" "bytes (view st' m') ?va ?ms = segment_image m buffer h"
      "\<forall>a. \<not> in_region f ?ms a \<longrightarrow> m' a = m a"
    unfolding segment_image_def by blast
  have len: "length (segment_image m buffer h) = ?ms"
    using l(1) by (simp add: segment_image_def word_le_nat_alt)
  have "bytes m' f ?ms = bytes (view st' m') ?va ?ms"
    using translate_page [OF l(3) al(8)] l(2) by (simp add: bytes_eq_iff view_def)
  then have "loaded st' m' h (segment_image m buffer h)"
    using l(2,3) al(3,5,8) m'(2) by (auto simp: loaded_def len)
  moreover have "loaded st' m' h' bs" if h': "loaded st m h' bs" "dir_index (ph_vaddr h') \<noteq> dir_index ?va" for h' bs
  proof -
    obtain f' where f': "is_aligned (ph_vaddr h')" "length bs \<le> 4096" "is_aligned f'" "frame_used (pg_pmm st) (frame_of f')"
        "translate st (ph_vaddr h') = Some f'" "bytes m f' (length bs) = bs"
      using h'(1) by (auto simp: loaded_def)
    have "m' a = m a" if "in_region f' (length bs) a" for a
      using m'(3) notf in_region_frame [OF f'(3,2) that] f'(4) by metis
    then have "bytes m' f' (length bs) = bytes m f' (length bs)"
      using f'(2) by (intro bytes_same) simp_all
    then show ?thesis using f' al(6,9) h'(2) by (auto simp: loaded_def)
  qed
  ultimately show thesis using that m'(1,3) al(2,6,7) fm' notf by blast
qed

section \<open>All segments\<close>

lemma elf_header_at_cong:
  assumes "\<And>a. in_region b 46 a \<Longrightarrow> m' a = m a"
  shows "elf_header_at m' b = elf_header_at m b"
proof -
  have "m' (b + of_nat i) = m (b + of_nat i)" if "i < 46" for i
    using that by (intro assms in_region_of_nat) auto
  note this [of 0] this [of 1] this [of 2] this [of 3] this [of 4] this [of 5] this [of 16] this [of 17] this [of 18]
    this [of 19] this [of 20] this [of 21] this [of 22] this [of 23] this [of 24] this [of 25] this [of 26] this [of 27]
    this [of 28] this [of 29] this [of 30] this [of 31] this [of 42] this [of 43] this [of 44] this [of 45]
  then show ?thesis
    by (simp add: elf_header_at_def ld16_def ld32_def add.assoc)
qed

definition ph_place :: "mem \<Rightarrow> u32 \<Rightarrow> nat \<Rightarrow> u32" where
  "ph_place m buffer i = buffer + eh_ph_offset (elf_header_at m buffer) + 32 * of_nat i"

definition ph_nth :: "mem \<Rightarrow> u32 \<Rightarrow> nat \<Rightarrow> elf_ph_header" where
  "ph_nth m buffer i = elf_ph_at m (ph_place m buffer i)"

definition ph_count :: "mem \<Rightarrow> u32 \<Rightarrow> nat" where
  "ph_count m buffer = unat (eh_ph_table_entry_count (elf_header_at m buffer))"

text \<open>The header and the table lie in the file, and the segments to load are loadable and start different directory entries.\<close>

definition program_ok :: "mem \<Rightarrow> u32 \<Rightarrow> nat \<Rightarrow> bool" where
  "program_ok m buffer sz \<longleftrightarrow> 46 \<le> sz \<and> sz < 2 ^ 32 \<and>
     (\<forall>i < ph_count m buffer. (\<forall>a. in_region (ph_place m buffer i) 32 a \<longrightarrow> in_region buffer sz a) \<and>
        (ph_type (ph_nth m buffer i) = 1 \<longrightarrow> loadable buffer sz (ph_nth m buffer i) \<and>
           (\<forall>j < ph_count m buffer. j \<noteq> i \<longrightarrow> ph_type (ph_nth m buffer j) = 1 \<longrightarrow>
              dir_index (ph_vaddr (ph_nth m buffer j)) \<noteq> dir_index (ph_vaddr (ph_nth m buffer i)))))"

lemma program_okD:
  assumes "program_ok m buffer sz" and "i < ph_count m buffer"
  shows "in_region (ph_place m buffer i) 32 a \<Longrightarrow> in_region buffer sz a"
    and "ph_type (ph_nth m buffer i) = 1 \<Longrightarrow> loadable buffer sz (ph_nth m buffer i)"
    and "ph_type (ph_nth m buffer i) = 1 \<Longrightarrow> j < ph_count m buffer \<Longrightarrow> j \<noteq> i \<Longrightarrow> ph_type (ph_nth m buffer j) = 1 \<Longrightarrow>
      dir_index (ph_vaddr (ph_nth m buffer j)) \<noteq> dir_index (ph_vaddr (ph_nth m buffer i))"
  using assms by (simp_all add: program_ok_def)

text \<open>A memory with the same file has the same headers.\<close>

lemma same_file:
  assumes "program_ok m0 buffer sz" and "\<forall>a. in_region buffer sz a \<longrightarrow> m a = m0 a"
  shows "elf_header_at m buffer = elf_header_at m0 buffer"
    and "i < ph_count m0 buffer \<Longrightarrow> elf_ph_at m (ph_place m0 buffer i) = ph_nth m0 buffer i"
    and "i < ph_count m0 buffer \<Longrightarrow> ph_type (ph_nth m0 buffer i) = 1 \<Longrightarrow>
      segment_image m buffer (ph_nth m0 buffer i) = segment_image m0 buffer (ph_nth m0 buffer i)"
proof -
  have "in_region buffer 46 a \<Longrightarrow> in_region buffer sz a" for a
    using assms(1) by (auto simp: program_ok_def in_region_def)
  then show "elf_header_at m buffer = elf_header_at m0 buffer"
    by (intro elf_header_at_cong assms(2) [rule_format]) blast
  show "elf_ph_at m (ph_place m0 buffer i) = ph_nth m0 buffer i" if "i < ph_count m0 buffer"
    unfolding ph_nth_def using program_okD(1) [OF assms(1) that] by (intro elf_ph_at_cong assms(2) [rule_format]) blast
  show "segment_image m buffer (ph_nth m0 buffer i) = segment_image m0 buffer (ph_nth m0 buffer i)"
    if "i < ph_count m0 buffer" "ph_type (ph_nth m0 buffer i) = 1"
  proof (rule segment_image_cong [OF assms(2) [rule_format]])
    fix a
    assume "in_region (buffer + ph_offset (ph_nth m0 buffer i)) (unat (ph_file_size (ph_nth m0 buffer i))) a"
    then show "in_region buffer sz a"
      using program_okD(2) [OF assms(1) that] by (auto simp: loadable_def in_region_def word_le_nat_alt)
  qed
qed

lemma load_segments_from:
  fixes n :: u16
  assumes prog: "program_ok m0 buffer sz" and "tables_ok st" and "file_mapped st buffer sz"
    and "\<forall>a. in_region buffer sz a \<longrightarrow> m a = m0 a" and "unat n \<le> ph_count m0 buffer"
    and "2 * (ph_count m0 buffer - unat n) \<le> frames.n_free (pg_pmm st)"
  shows "\<exists>m' st'. load_segments m st buffer (ph_place m0 buffer 0) n = Inr (m', st') \<and> tables_ok st' \<and>
    (\<forall>a. frame_used (pg_pmm st) (frame_of a) \<longrightarrow> m' a = m a) \<and>
    (\<forall>i. unat n \<le> i \<and> i < ph_count m0 buffer \<and> ph_type (ph_nth m0 buffer i) = 1 \<longrightarrow>
       loaded st' m' (ph_nth m0 buffer i) (segment_image m0 buffer (ph_nth m0 buffer i))) \<and>
    (\<forall>h bs. loaded st m h bs \<and> (\<forall>i. unat n \<le> i \<and> i < ph_count m0 buffer \<and> ph_type (ph_nth m0 buffer i) = 1 \<longrightarrow>
       dir_index (ph_vaddr h) \<noteq> dir_index (ph_vaddr (ph_nth m0 buffer i))) \<longrightarrow> loaded st' m' h bs)"
  using assms(2-)
proof (induction "ph_count m0 buffer - unat n" arbitrary: m st n)
  case 0
  then have "\<not> n < eh_ph_table_entry_count (elf_header_at m buffer)"
    using same_file(1) [OF prog 0(4)] by (simp add: ph_count_def word_less_nat_alt)
  then show ?case using 0 by (subst load_segments.simps) auto
next
  case (Suc k)
  let ?H = "ph_nth m0 buffer" and ?c = "ph_count m0 buffer" and ?n = "unat n"
  note pre = Suc.prems
  have lt: "?n < ?c" using Suc.hyps(2) by simp
  then have n1: "unat (n + 1) = ?n + 1"
    unfolding ph_count_def
    using unat_Suc_less [of n] unsigned_less [of "eh_ph_table_entry_count (elf_header_at m0 buffer)", where 'a = nat] by simp
  note same = same_file [OF prog pre(3)]
  have p: "ph_place m0 buffer 0 + 32 * ucast n = ph_place m0 buffer ?n" by (simp add: ph_place_def)
  have run: "load_segments m st buffer (ph_place m0 buffer 0) n =
      rbind (load_segment m st buffer (ph_place m0 buffer ?n)) (\<lambda>(m1, st1). load_segments m1 st1 buffer (ph_place m0 buffer 0) (n + 1))"
    using lt same(1) unfolding p [symmetric] by (subst load_segments.simps) (simp add: ph_count_def word_less_nat_alt)
  show ?case
  proof (cases "ph_type (?H ?n) = 1")
    case False
    then have "load_segment m st buffer (ph_place m0 buffer ?n) = Inr (m, st)"
      using same(2) [OF lt] by (simp add: load_segment_def)
    moreover have "k = ?c - unat (n + 1)" "unat (n + 1) \<le> ?c" "2 * (?c - unat (n + 1)) \<le> frames.n_free (pg_pmm st)"
      using Suc.hyps(2) lt pre(5) n1 by auto
    from Suc.hyps(1) [OF this(1) pre(1-3) this(2,3)]
    obtain m' st' where "load_segments m st buffer (ph_place m0 buffer 0) (n + 1) = Inr (m', st')" "tables_ok st'"
        "\<forall>a. frame_used (pg_pmm st) (frame_of a) \<longrightarrow> m' a = m a"
        "\<forall>i. ?n + 1 \<le> i \<and> i < ?c \<and> ph_type (?H i) = 1 \<longrightarrow> loaded st' m' (?H i) (segment_image m0 buffer (?H i))"
        "\<forall>h bs. loaded st m h bs \<and> (\<forall>i. ?n + 1 \<le> i \<and> i < ?c \<and> ph_type (?H i) = 1 \<longrightarrow>
           dir_index (ph_vaddr h) \<noteq> dir_index (ph_vaddr (?H i))) \<longrightarrow> loaded st' m' h bs"
      unfolding n1 by blast
    ultimately show ?thesis
      unfolding run using False by (intro exI [of _ m'] exI [of _ st']) (auto simp: le_Suc_eq Suc_le_eq nat_less_le)
  next
    case True
    have free: "2 \<le> frames.n_free (pg_pmm st)" using pre(5) lt by simp
    obtain m1 st1 where 1: "load_segment m st buffer (ph_place m0 buffer ?n) = Inr (m1, st1)" "tables_ok st1"
        "frames.n_free (pg_pmm st) \<le> frames.n_free (pg_pmm st1) + 2" "file_mapped st1 buffer sz"
        "\<forall>g. frame_used (pg_pmm st) g \<longrightarrow> frame_used (pg_pmm st1) g" "\<forall>a. frame_used (pg_pmm st) (frame_of a) \<longrightarrow> m1 a = m a"
        "loaded st1 m1 (?H ?n) (segment_image m buffer (?H ?n))"
        "\<forall>h' bs. loaded st m h' bs \<longrightarrow> dir_index (ph_vaddr h') \<noteq> dir_index (ph_vaddr (?H ?n)) \<longrightarrow> loaded st1 m1 h' bs"
      by (rule load_segment_step [OF pre(1) free pre(2) same(2) [OF lt] True program_okD(2) [OF prog lt True]
          program_okD(1) [OF prog lt]])
    have "\<forall>a. in_region buffer sz a \<longrightarrow> m1 a = m0 a"
      using 1(6) pre(2,3) by (simp add: file_mapped_def)
    moreover have "k = ?c - unat (n + 1)" "unat (n + 1) \<le> ?c" "2 * (?c - unat (n + 1)) \<le> frames.n_free (pg_pmm st1)"
      using Suc.hyps(2) lt pre(5) n1 1(3) by auto
    ultimately obtain m' st' where 2: "load_segments m1 st1 buffer (ph_place m0 buffer 0) (n + 1) = Inr (m', st')" "tables_ok st'"
        "\<forall>a. frame_used (pg_pmm st1) (frame_of a) \<longrightarrow> m' a = m1 a"
        "\<forall>i. ?n + 1 \<le> i \<and> i < ?c \<and> ph_type (?H i) = 1 \<longrightarrow> loaded st' m' (?H i) (segment_image m0 buffer (?H i))"
        "\<forall>h bs. loaded st1 m1 h bs \<and> (\<forall>i. ?n + 1 \<le> i \<and> i < ?c \<and> ph_type (?H i) = 1 \<longrightarrow>
           dir_index (ph_vaddr h) \<noteq> dir_index (ph_vaddr (?H i))) \<longrightarrow> loaded st' m' h bs"
      using Suc.hyps(1) [OF _ 1(2,4), of "n + 1" m1] unfolding n1 by blast
    have "loaded st' m' (?H ?n) (segment_image m0 buffer (?H ?n))"
      using 2(5) 1(7) same(3) [OF lt True] program_okD(3) [OF prog _ _ lt] True by (metis Suc_eq_plus1 Suc_n_not_le_n)
    then have here: "\<forall>i. ?n \<le> i \<and> i < ?c \<and> ph_type (?H i) = 1 \<longrightarrow> loaded st' m' (?H i) (segment_image m0 buffer (?H i))"
      using 2(4) by (metis Suc_eq_plus1 le_Suc_eq le_antisym not_less_eq_eq)
    have before: "loaded st' m' h bs"
      if "loaded st m h bs" "\<forall>i. ?n \<le> i \<and> i < ?c \<and> ph_type (?H i) = 1 \<longrightarrow> dir_index (ph_vaddr h) \<noteq> dir_index (ph_vaddr (?H i))" for h bs
      using that 1(8) 2(5) lt True by (metis add_leD1 order_refl)
    have "\<forall>a. frame_used (pg_pmm st) (frame_of a) \<longrightarrow> m' a = m a" using 1(5,6) 2(3) by metis
    then show ?thesis
      unfolding run using 1(1) 2(1,2) here before by (intro exI [of _ m'] exI [of _ st']) simp
  qed
qed


text \<open>
  A file of 256 bytes at 0x8000 with two segments, at 4 MiB with six bytes, four of them from the file, and at 12 MiB with three bytes; the
  first has a page table, the second gets one; four frames are free.
\<close>

definition prog_pg :: pg_state where
  "prog_pg = \<lparr>pg_mem = (\<lambda>a. if a = 0x1000 then 0x2003 else if a = 0x1004 then 0x7003 else if a = 0x2020 then 0x8003 else 0),
     pg_pmm = demo_pmm, pg_cur_dir = 0x1000, pg_cr0 = 0, pg_cr3 = 0x1000\<rparr>"

definition prog_mem :: mem where
  "prog_mem = (\<lambda>a. if a = 0x8019 then 0x40 else if a = 0x801A then 0x40 else if a = 0x801C then 0x40 else if a = 0x802C then 2
     else if a = 0x8040 then 1 else if a = 0x8044 then 0x80 else if a = 0x804A then 0x40 else if a = 0x8050 then 4 else if a = 0x8054 then 6
     else if a = 0x8060 then 1 else if a = 0x8064 then 0x90 else if a = 0x806A then 0xC0 else if a = 0x8070 then 3 else if a = 0x8074 then 3
     else if 0x8080 \<le> a \<and> a < 0x8084 then 7 else if 0x8090 \<le> a \<and> a < 0x8093 then 9 else 0)"

lemma prog_header: "eh_ph_offset (elf_header_at prog_mem 0x8000) = 0x40" "ph_count prog_mem 0x8000 = 2"
    "eh_entry (elf_header_at prog_mem 0x8000) = 0x404000"
  by (simp_all add: elf_header_at_def ph_count_def prog_mem_def ld16_def ld32_def)

lemma prog_words: "ld32 prog_mem 0x8040 = 1" "ld32 prog_mem 0x8044 = 0x80" "ld32 prog_mem 0x8048 = 0x400000" "ld32 prog_mem 0x804C = 0"
    "ld32 prog_mem 0x8050 = 4" "ld32 prog_mem 0x8054 = 6" "ld32 prog_mem 0x8058 = 0" "ld32 prog_mem 0x805C = 0"
    "ld32 prog_mem 0x8060 = 1" "ld32 prog_mem 0x8064 = 0x90" "ld32 prog_mem 0x8068 = 0xC00000" "ld32 prog_mem 0x806C = 0"
    "ld32 prog_mem 0x8070 = 3" "ld32 prog_mem 0x8074 = 3" "ld32 prog_mem 0x8078 = 0" "ld32 prog_mem 0x807C = 0"
  by (simp_all add: prog_mem_def ld32_def)

lemma prog_ph:
  "ph_nth prog_mem 0x8000 0 = \<lparr>ph_type = 1, ph_offset = 0x80, ph_vaddr = 0x400000, ph_paddr = 0, ph_file_size = 4,
     ph_mem_size = 6, ph_flags = 0, ph_align = 0\<rparr>"
  "ph_nth prog_mem 0x8000 1 = \<lparr>ph_type = 1, ph_offset = 0x90, ph_vaddr = 0xC00000, ph_paddr = 0, ph_file_size = 3,
     ph_mem_size = 3, ph_flags = 0, ph_align = 0\<rparr>"
  by (simp_all add: ph_nth_def ph_place_def prog_header elf_ph_at_def prog_words)

lemma less_2: "(\<forall>i < (2 :: nat). P i) \<longleftrightarrow> P 0 \<and> P 1"
  by (simp add: numeral_2_eq_2 All_less_Suc conj_commute)

lemma prog_dirs: "in_region 0x8000 256 a \<Longrightarrow> dir_index a = 0"
proof -
  assume "in_region 0x8000 256 a"
  then obtain i where i: "i < 256" "a = 0x8000 + of_nat i" by (rule in_regionE)
  have "dir_index (0x8000 + of_nat i) = dir_index 0x8000"
    using i(1) by (intro page_indices(2)) (simp_all add: is_aligned_def)
  then show ?thesis by (simp add: i(2) dir_index_def)
qed

lemma prog_ok: "program_ok prog_mem 0x8000 256"
proof -
  have "in_region (0x8000 + of_nat k) n a \<Longrightarrow> in_region 0x8000 256 a" if "k + n \<le> 256" for k n a
    using that by (intro in_region_shift [of "0x8000" k n a 256]) auto
  note sub = this [of "0x40" 32] this [of "0x60" 32] this [of "0x80" 6] this [of "0x90" 3]
  show ?thesis
    unfolding program_ok_def prog_header(2) less_2 prog_ph
    using sub prog_dirs by (auto simp: loadable_def ph_place_def prog_header is_aligned_def table_index_def dir_index_def)
qed

lemma prog_tables: "tables_ok prog_pg" and prog_file: "file_mapped prog_pg 0x8000 256"
proof -
  have e: "entry prog_pg 0x1000 k = (if k = 0 then 0x2003 else if k = 1 then 0x7003 else 0)" if "k < 1024" for k
    using that entry_addr_inj [of "0x1000" k 0] entry_addr_inj [of "0x1000" k 1] unat_entry_addr [of "0x1000" k]
    by (auto simp: entry_def prog_pg_def entry_addr_def is_aligned_def)
  have d: "pg_cur_dir prog_pg = 0x1000" "pg_cr3 prog_pg = 0x1000" "pg_pmm prog_pg = demo_pmm" by (simp_all add: prog_pg_def)
  have "present prog_pg 0x1000 k \<longleftrightarrow> k = 0 \<or> k = 1" "k = 0 \<Longrightarrow> tbl_of prog_pg 0x1000 k = 0x2000" "k = 1 \<Longrightarrow> tbl_of prog_pg 0x1000 k = 0x7000"
    if "k < 1024" for k
    using e [OF that] by (auto simp: present_def tbl_of_def)
  note p = this
  have "frame_used demo_pmm 1" "frame_used demo_pmm 2" "frame_used demo_pmm 7" "frame_used demo_pmm 8"
    by (simp_all add: demo_pmm_def frame_used_def)
  note u = this
  show "tables_ok prog_pg"
    unfolding tables_ok_def tables_apart_def d using p u demo_pmm_inv by (auto simp: is_aligned_def frame_of_def)
  have al: "is_aligned 0x8000" by (simp add: is_aligned_def)
  have t: "translate prog_pg 0x8000 = Some 0x8000"
    by (simp add: translate_def d entry_def entry_addr_def dir_index_def table_index_def Let_def) (simp add: prog_pg_def)
  show "file_mapped prog_pg 0x8000 256"
    unfolding file_mapped_def d
  proof (intro allI impI conjI)
    fix a assume a: "in_region 0x8000 256 a"
    obtain i where "i < 256" "a = 0x8000 + of_nat i" using a by (rule in_regionE)
    then show "translate prog_pg a = Some a" using translate_page [OF al t, of i] by simp
    have "frame_of a = frame_of 0x8000" by (rule in_region_frame [OF al _ a]) simp
    then show "frame_used demo_pmm (frame_of a)" using u(4) by (simp add: frame_of_def)
  qed
qed

lemma replicate_2: "replicate 2 x = [x, x]"
  by (simp add: numeral_2_eq_2)


end
