(* ===== verification/Syscall.thy ===== *)
theory Syscall
  imports File_Descr Fs_Mem Scheduler
begin

text \<open>
  \<^verbatim>\<open>kernel/syscalls/syscall.c\<close>: the system calls of a task and their dispatch by number. The state of
  the kernel is put together from the components the calls work on. What happens while a call waits
  for an interrupt is an argument.
\<close>

section \<open>State\<close>

record registers =
  rg_gs :: u32
  rg_fs :: u32
  rg_es :: u32
  rg_ds :: u32
  rg_eax :: u32
  rg_ecx :: u32
  rg_edx :: u32
  rg_ebx :: u32
  rg_ebp :: u32
  rg_esi :: u32
  rg_edi :: u32
  rg_int :: u32
  rg_err :: u32
  rg_eip :: u32
  rg_cs :: u32
  rg_eflags :: u32
  rg_esp :: u32
  rg_ss :: u32

record syscall_params =
  sp_eax :: u32
  sp_ebx :: u32
  sp_ecx :: u32
  sp_edx :: u32
  sp_esi :: u32
  sp_edi :: u32
  sp_ebp :: u32

record os =
  os_mem :: mem
  os_vfs :: vfs
  os_files :: fdstate
  os_sched :: sched
  os_stacks :: "u32 \<Rightarrow> u32"

text \<open>
  What the calls are given by the machine and by other parts of the kernel: fresh memory for lists and
  nodes, the resources of a new task (its ring buffer, the addresses of the pipe operations and of
  \<^verbatim>\<open>utask_exec\<close>, its page directory), the operations of the files, the stack pointer, and the states in
  which the interrupts leave the kernel while a task waits.
\<close>

record kenv =
  ke_cells :: "nat \<Rightarrow> u32 list"
  ke_node :: vnode
  ke_file :: vfile
  ke_rb :: u32
  ke_rb_read :: u32
  ke_rb_write :: u32
  ke_task :: task_res
  ke_exec :: u32
  ke_user_dir :: u32
  ke_read :: "u32 \<Rightarrow> mem \<Rightarrow> u32 \<Rightarrow> vfile \<Rightarrow> u32 \<Rightarrow> u32 \<Rightarrow> (u32 \<times> mem) res"
  ke_write :: "u32 \<Rightarrow> mem \<Rightarrow> u32 \<Rightarrow> vfile \<Rightarrow> u32 \<Rightarrow> u32 \<Rightarrow> (u32 \<times> mem) res"
  ke_esp :: u32
  ke_waits :: "os list"

definition cur_task :: "os \<Rightarrow> task res" where
  "cur_task s = deref (sc_store (os_sched s)) (mt_get_current_task (os_sched s))"

definition upd_cur :: "os \<Rightarrow> (task \<Rightarrow> task) \<Rightarrow> os res" where
  "upd_cur s f = rbind (upd_task (os_sched s) (mt_get_current_task (os_sched s)) f) (\<lambda>sc. Inr (s\<lparr>os_sched := sc\<rparr>))"

text \<open>The file operations work on the descriptor list of the current task.\<close>

definition with_files :: "os \<Rightarrow> (fdstate \<Rightarrow> ('r \<times> fdstate) res) \<Rightarrow> ('r \<times> os) res" where
  "with_files s f =
     rbind (cur_task s) (\<lambda>t.
     rbind (f ((os_files s)\<lparr>fs_list := t_fds t, fs_pid := t_pid t\<rparr>)) (\<lambda>(r, fs).
     rbind (upd_cur s (\<lambda>x. x\<lparr>t_fds := fs_list fs\<rparr>)) (\<lambda>s1. Inr (r, s1\<lparr>os_files := fs\<rparr>))))"

definition str_arg :: "os \<Rightarrow> u32 \<Rightarrow> string res" where
  "str_arg s p = (case str_at (os_mem s) p of None \<Rightarrow> Inl Diverges | Some x \<Rightarrow> Inr x)"

section \<open>The calls\<close>

text \<open>The result is \<^term>\<open>None\<close> for a call that does not return to the task.\<close>

type_synonym sys_result = "(syscall_params option \<times> os) res"

definition sys_hello :: "syscall_params \<Rightarrow> os \<Rightarrow> sys_result" where
  "sys_hello p s = Inr (Some p, s)"

definition sys_exit :: "kenv \<Rightarrow> syscall_params \<Rightarrow> os \<Rightarrow> sys_result" where
  "sys_exit e p s =
     rbind (mt_task_terminate (os_sched s) (mt_get_current_task (os_sched s))) (\<lambda>sc1.
     rbind (mt_schedule sc1 (ke_esp e)) (\<lambda>(_, sc2). Inr (None, s\<lparr>os_sched := sc2\<rparr>)))"

definition sys_read :: "kenv \<Rightarrow> syscall_params \<Rightarrow> os \<Rightarrow> sys_result" where
  "sys_read e p s =
     rbind (with_files s (\<lambda>fs. file_read (ke_read e (sp_ecx p) (os_mem s)) (os_mem s) (os_vfs s) fs (sp_ebx p) (sp_edx p)))
       (\<lambda>((r, m), s1). Inr (Some (p\<lparr>sp_eax := r\<rparr>), s1\<lparr>os_mem := m\<rparr>))"

text \<open>The result of \<^verbatim>\<open>write\<close> is not stored.\<close>

definition sys_write :: "kenv \<Rightarrow> syscall_params \<Rightarrow> os \<Rightarrow> sys_result" where
  "sys_write e p s =
     rbind (with_files s (\<lambda>fs. file_write (ke_write e (sp_ecx p) (os_mem s)) (os_mem s) (os_vfs s) fs (sp_ebx p) (sp_edx p)))
       (\<lambda>((_, m), s1). Inr (Some p, s1\<lparr>os_mem := m\<rparr>))"

definition sys_open :: "kenv \<Rightarrow> syscall_params \<Rightarrow> os \<Rightarrow> sys_result" where
  "sys_open e p s =
     rbind (str_arg s (sp_ebx p)) (\<lambda>path.
     rbind (with_files s (\<lambda>fs. file_open (ke_cells e) (os_vfs s) fs path (sp_ecx p) (sp_edx p)))
       (\<lambda>(r, s1). Inr (Some (p\<lparr>sp_eax := r\<rparr>), s1)))"

definition sys_close :: "syscall_params \<Rightarrow> os \<Rightarrow> sys_result" where
  "sys_close p s = rbind (with_files s (\<lambda>fs. file_close fs (sp_ebx p))) (\<lambda>(r, s1). Inr (Some (p\<lparr>sp_eax := r\<rparr>), s1))"

definition sys_getpid :: "syscall_params \<Rightarrow> os \<Rightarrow> sys_result" where
  "sys_getpid p s = rbind (cur_task s) (\<lambda>t. Inr (Some (p\<lparr>sp_eax := t_pid t\<rparr>), s))"

definition sys_getppid :: "syscall_params \<Rightarrow> os \<Rightarrow> sys_result" where
  "sys_getppid p s = rbind (cur_task s) (\<lambda>t. Inr (Some (p\<lparr>sp_eax := t_ppid t\<rparr>), s))"

text \<open>The standard descriptors that \<^verbatim>\<open>ktask_create\<close> opens for a new task.\<close>

definition standard_files :: "kenv \<Rightarrow> vfs \<Rightarrow> fdstate \<Rightarrow> (u32 dlist \<times> vfs \<times> fdstate) res" where
  "standard_files e v fs =
     (let l = make_list (ke_cells e) 8 in
      rbind (rb_node (ke_node e) (ke_file e) (ke_rb_read e) (ke_rb_write e) v (ke_rb e)) (\<lambda>(inp, v1).
      rbind (vfs_node_from_path v1 (vfs_get_root v1) ''/dev/con'') (\<lambda>out.
      rbind (fd_open (ke_cells e) fs inp O_RDWR) (\<lambda>(fd0, fs0).
      rbind (fd_open (ke_cells e) fs0 out O_WRONLY) (\<lambda>(fd1, fs1).
      rbind (fd_open (ke_cells e) fs1 out O_WRONLY) (\<lambda>(fd2, fs2).
      rbind (list_push (ke_cells e) l fd0) (\<lambda>(_, l0).
      rbind (list_push (ke_cells e) l0 fd1) (\<lambda>(_, l1).
      rbind (list_push (ke_cells e) l1 fd2) (\<lambda>(_, l2).
      Inr (l2, v1, fs2))))))))))"

text \<open>
  \<^verbatim>\<open>mt_spawn_utask\<close> with everything the new task is given: the file at the end of the path, its standard
  descriptors, its place in the list of tasks.
\<close>

definition spawn_program :: "kenv \<Rightarrow> os \<Rightarrow> string \<Rightarrow> u32 \<Rightarrow> string \<Rightarrow> (u32 \<times> os) res" where
  "spawn_program e s name ppid path =
     rbind (vfs_node_from_path (os_vfs s) (vfs_get_root (os_vfs s)) path) (\<lambda>n.
     rbind (if n = 0 then Inr None
            else rbind (node_file (os_vfs s) n) (\<lambda>f. Inr (Some (n, ucast (vf_permissions f))))) (\<lambda>file.
       case file of
         Some (_, perms) \<Rightarrow>
           if perms AND 1 \<noteq> 0 then Inr (0, s)
           else rbind (standard_files e (os_vfs s) (os_files s)) (\<lambda>(l, v1, fs1).
                rbind (mt_spawn_utask ((ke_task e)\<lparr>tr_fds := l, tr_root := vfs_get_root v1\<rparr>) (os_stacks s) (os_sched s)
                         name ppid file (ke_exec e) (ke_user_dir e)) (\<lambda>(pid, st, sc).
                Inr (pid, s\<lparr>os_vfs := v1, os_files := fs1, os_sched := sc, os_stacks := st\<rparr>)))
       | None \<Rightarrow> Inr (0, s)))"

text \<open>The path of a node that does not exist is the null pointer, which the path walk reads.\<close>

definition sys_run :: "kenv \<Rightarrow> syscall_params \<Rightarrow> os \<Rightarrow> sys_result" where
  "sys_run e p s =
     rbind (str_arg s (sp_ebx p)) (\<lambda>path.
     rbind (cur_task s) (\<lambda>t.
     rbind (vfs_node_from_path (os_vfs s) (t_cwd t) path) (\<lambda>node.
     rbind (vfs_abs_path_to (os_vfs s) node) (\<lambda>abs.
       case abs of None \<Rightarrow> Inl Null_deref
       | Some full \<Rightarrow> rbind (spawn_program e s path (t_pid t) full) (\<lambda>(pid, s1). Inr (Some (p\<lparr>sp_eax := pid\<rparr>), s1))))))"

text \<open>Between two tests of the loop an interrupt leaves the kernel in the next state of the list.\<close>

fun wait_loop :: "u32 \<Rightarrow> os \<Rightarrow> os list \<Rightarrow> os res" where
  "wait_loop pid s [] = rbind (mt_get_task_by_pid (os_sched s) pid) (\<lambda>t. if t = 0 then Inr s else Inl Diverges)"
| "wait_loop pid s (s1 # ss) =
     rbind (mt_get_task_by_pid (os_sched s) pid) (\<lambda>t. if t = 0 then Inr s else wait_loop pid s1 ss)"

definition sys_wait :: "kenv \<Rightarrow> syscall_params \<Rightarrow> os \<Rightarrow> sys_result" where
  "sys_wait e p s =
     rbind (mt_get_task_by_pid (os_sched s) (sp_ebx p)) (\<lambda>t.
     rbind (wait_loop (sp_ebx p) (s\<lparr>os_sched := mt_set_fg_task (os_sched s) t\<rparr>) (ke_waits e)) (\<lambda>s1.
     Inr (Some (p\<lparr>sp_eax := 0\<rparr>),
       s1\<lparr>os_sched := mt_set_fg_task (os_sched s1) (mt_get_current_task (os_sched s1))\<rparr>)))"

text \<open>The path is copied without a terminator; a null path is measured with \<^verbatim>\<open>strlen\<close>.\<close>

definition sys_getcwd :: "syscall_params \<Rightarrow> os \<Rightarrow> sys_result" where
  "sys_getcwd p s =
     rbind (cur_task s) (\<lambda>t.
     rbind (vfs_abs_path_to (os_vfs s) (t_cwd t)) (\<lambda>cwd.
       case cwd of None \<Rightarrow> Inl Null_deref
       | Some path \<Rightarrow>
           let len = of_nat (length path); to_copy = (if sp_ecx p < len then sp_ecx p else len)
           in Inr (Some p, s\<lparr>os_mem := write_all (os_mem s) (sp_ebx p) (map of_char (take (unat to_copy) path))\<rparr>)))"

definition sys_setcwd :: "syscall_params \<Rightarrow> os \<Rightarrow> sys_result" where
  "sys_setcwd p s =
     rbind (str_arg s (sp_ebx p)) (\<lambda>path.
     rbind (cur_task s) (\<lambda>t.
     rbind (vfs_node_from_path (os_vfs s) (t_cwd t) path) (\<lambda>node.
       if node = 0 then Inr (Some p, s)
       else rbind (upd_cur s (\<lambda>x. x\<lparr>t_cwd := node\<rparr>)) (\<lambda>s1. Inr (Some p, s1)))))"

definition sys_getfb :: "syscall_params \<Rightarrow> os \<Rightarrow> sys_result" where
  "sys_getfb p s = Inr (Some p, s)"

section \<open>Dispatch\<close>

datatype syscall = Sys_hello | Sys_exit | Sys_read | Sys_write | Sys_open | Sys_close | Sys_getpid
  | Sys_getppid | Sys_run | Sys_wait | Sys_getcwd | Sys_setcwd | Sys_getfb

definition syscall_list :: "syscall option list" where
  "syscall_list = [Some Sys_hello, Some Sys_exit, None, Some Sys_read, Some Sys_write, Some Sys_open,
     Some Sys_close, Some Sys_getpid, Some Sys_getppid, Some Sys_run, Some Sys_wait, None, Some Sys_getcwd,
     Some Sys_setcwd, Some Sys_getfb]"

fun run_syscall :: "syscall \<Rightarrow> kenv \<Rightarrow> syscall_params \<Rightarrow> os \<Rightarrow> sys_result" where
  "run_syscall Sys_hello e = sys_hello"
| "run_syscall Sys_exit e = sys_exit e"
| "run_syscall Sys_read e = sys_read e"
| "run_syscall Sys_write e = sys_write e"
| "run_syscall Sys_open e = sys_open e"
| "run_syscall Sys_close e = sys_close"
| "run_syscall Sys_getpid e = sys_getpid"
| "run_syscall Sys_getppid e = sys_getppid"
| "run_syscall Sys_run e = sys_run e"
| "run_syscall Sys_wait e = sys_wait e"
| "run_syscall Sys_getcwd e = sys_getcwd"
| "run_syscall Sys_setcwd e = sys_setcwd"
| "run_syscall Sys_getfb e = sys_getfb"

definition params_of :: "registers \<Rightarrow> syscall_params" where
  "params_of r = \<lparr>sp_eax = rg_eax r, sp_ebx = rg_ebx r, sp_ecx = rg_ecx r, sp_edx = rg_edx r,
     sp_esi = rg_esi r, sp_edi = rg_edi r, sp_ebp = rg_ebp r\<rparr>"

text \<open>
  The number is not tested: past the table the call goes to whatever lies there, and a null entry is
  called.
\<close>

definition syscall_handler :: "kenv \<Rightarrow> registers \<Rightarrow> os \<Rightarrow> (registers option \<times> os) res" where
  "syscall_handler e r s =
     rbind (get_at syscall_list (unat (rg_eax r))) (\<lambda>f.
       case f of None \<Rightarrow> Inl Null_deref
       | Some c \<Rightarrow>
           rbind (run_syscall c e (params_of r) s) (\<lambda>(q, s1).
             case q of None \<Rightarrow> Inr (None, s1)
             | Some p \<Rightarrow> Inr (Some (r\<lparr>rg_eax := sp_eax p, rg_ebx := sp_ebx p, rg_ecx := sp_ecx p, rg_edx := sp_edx p,
                 rg_esi := sp_esi p, rg_edi := sp_edi p, rg_ebp := sp_ebp p\<rparr>), s1)))"

section \<open>Calls through the dispatcher\<close>

definition chars :: "u8 list \<Rightarrow> string" where
  "chars bs = map (\<lambda>b. char_of (unat b)) bs"

lemma str_arg_ok: "cstr (os_mem s) p bs \<Longrightarrow> str_arg s p = Inr (chars bs)"
  by (simp add: str_arg_def str_at_cstr chars_def)

lemma upd_cur_ok:
  assumes "cur_task s = Inr t"
  shows "upd_cur s f = Inr (s\<lparr>os_sched := (os_sched s)\<lparr>sc_store := (sc_store (os_sched s))(mt_get_current_task (os_sched s) \<mapsto> f t)\<rparr>\<rparr>)"
  using assms by (simp add: cur_task_def upd_cur_def upd_task_def)

lemma cur_task_upd:
  assumes "cur_task s = Inr t" and "upd_cur s f = Inr s1"
  shows "cur_task s1 = Inr (f t)" "os_mem s1 = os_mem s" "os_vfs s1 = os_vfs s" "os_files s1 = os_files s"
  using assms upd_cur_ok [OF assms(1), of f] by (auto simp: cur_task_def mt_get_current_task_def)

lemma params_same: "sp_eax p = rg_eax r \<Longrightarrow> sp_ebx p = rg_ebx r \<Longrightarrow> sp_ecx p = rg_ecx r \<Longrightarrow> sp_edx p = rg_edx r \<Longrightarrow>
    sp_esi p = rg_esi r \<Longrightarrow> sp_edi p = rg_edi r \<Longrightarrow> sp_ebp p = rg_ebp r \<Longrightarrow> p = params_of r"
  by (cases p) (simp add: params_of_def)

lemmas handler_defs = syscall_handler_def syscall_list_def get_at_def params_of_def

text \<open>A kernel with one task, the tree of \<open>Vfs\<close> and the path \<^verbatim>\<open>/dev/con\<close> in memory at 0x1000.\<close>

definition demo_task :: task where
  "demo_task = \<lparr>t_esp = 0, t_pid = 7, t_uid = 0, t_esp0 = 0, t_cr3 = 0, t_allocated_stack = 0, t_stack_size = 0,
     t_time_slice = 1, t_time_remaining = 1, t_ppid = 0, t_next = 0, t_prev = 0,
     t_fds = \<lparr>dl_data = [0, 0], dl_used = 0, dl_size = 2\<rparr>, t_cwd = 16, t_state = 2, t_name = ''sh''\<rparr>"

definition demo_path :: "u8 list" where
  "demo_path = [47, 100, 101, 118, 47, 99, 111, 110]"

definition demo_os :: os where
  "demo_os = \<lparr>os_mem = (\<lambda>a. if unat (a - 0x1000) < 8 then demo_path ! unat (a - 0x1000) else if in_region 0x9000 4 a then 42 else 0),
     os_vfs = demo_file_vfs\<lparr>vs_files := [144 \<mapsto> demo_file\<lparr>vf_inode := 0x9000, vf_size := 4\<rparr>]\<rparr>, os_files = demo_fds,
     os_sched = \<lparr>sc_enabled = 1, sc_tasks = 0x700, sc_tasks_count = 2, sc_cur = 0x700, sc_fg = 0, sc_terminated = 0,
       sc_store = [0x700 \<mapsto> demo_task], sc_next_pid = 8, sc_tss_esp0 = 0, sc_cr3 = 0\<rparr>,
     os_stacks = (\<lambda>_. 0)\<rparr>"

definition demo_regs :: "u32 \<Rightarrow> u32 \<Rightarrow> u32 \<Rightarrow> u32 \<Rightarrow> registers" where
  "demo_regs a b c d = \<lparr>rg_gs = 0, rg_fs = 0, rg_es = 0, rg_ds = 0, rg_eax = a, rg_ecx = c, rg_edx = d, rg_ebx = b,
     rg_ebp = 0, rg_esi = 0, rg_edi = 0, rg_int = 0x80, rg_err = 0, rg_eip = 0, rg_cs = 0, rg_eflags = 0,
     rg_esp = 0, rg_ss = 0\<rparr>"

definition demo_kenv :: kenv where
  "demo_kenv = \<lparr>ke_cells = (\<lambda>n. replicate n 0), ke_node = demo_vnode [] 0 0 0, ke_file = demo_file, ke_rb = 0,
     ke_rb_read = 1, ke_rb_write = 2,
     ke_task = \<lparr>tr_ptr = 0x800, tr_stack = 0, tr_fds = \<lparr>dl_data = [], dl_used = 0, dl_size = 0\<rparr>, tr_root = 16, tr_ker_cr3 = 0,
       tr_iret = 0, tr_garbage = demo_task\<rparr>,
     ke_exec = 0, ke_user_dir = 0,
     ke_read = (\<lambda>b m a f off n. if a = 7 then Inr (initrd_read m f off n b) else Inl Wild_access),
     ke_write = (\<lambda>b m a f off n. Inl Wild_access), ke_esp = 0, ke_waits = []\<rparr>"

lemma chars_demo: "chars demo_path = ''/dev/con''"
  by code_simp

lemma demo_cstr: "cstr (os_mem demo_os) 0x1000 demo_path"
  by (simp add: demo_os_def demo_path_def in_region_def)

lemma demo_cur: "cur_task demo_os = Inr demo_task"
  by (simp add: cur_task_def demo_os_def mt_get_current_task_def)

lemma demo_walk: "vfs_node_from_path (os_vfs demo_os) root (chars demo_path) = Inr 48"
  unfolding chars_demo
  by (simp add: vfs_node_from_path_def tokens.simps demo_os_def demo_file_vfs_def demo_vfs_def vfs_get_root_def
    vfs_get_child_by_name_def search_child.simps demo_vnode_def)

text \<open>
  C25. After a successful change of directory the call for the current directory stores the absolute
  path of the node the given path leads to, byte for byte, and nothing behind it.
\<close>

theorem setcwd_getcwd:
  assumes "rg_eax r = 13" and path: "cstr (os_mem s) (rg_ebx r) bs" and cur: "cur_task s = Inr t"
    and node: "vfs_node_from_path (os_vfs s) (t_cwd t) (chars bs) = Inr node" "node \<noteq> 0"
    and full: "vfs_abs_path_to (os_vfs s) node = Inr (Some full)" "length full < 2 ^ 32"
    and "rg_eax r' = 12" and room: "length full \<le> unat (rg_ecx r')"
  shows "\<exists>s1 s2. syscall_handler e r s = Inr (Some r, s1) \<and> syscall_handler e r' s1 = Inr (Some r', s2) \<and>
    bytes (os_mem s2) (rg_ebx r') (length full) = map of_char full \<and>
    (\<forall>a. \<not> in_region (rg_ebx r') (length full) a \<longrightarrow> os_mem s2 a = os_mem s a)"
proof -
  obtain s1 where s1: "upd_cur s (\<lambda>x. x\<lparr>t_cwd := node\<rparr>) = Inr s1"
    using upd_cur_ok [OF cur] by blast
  note cur1 = cur_task_upd [OF cur s1]
  have 1: "syscall_handler e r s = Inr (Some r, s1)"
    using assms(1) str_arg_ok [OF path] cur node s1 by (cases r) (simp add: handler_defs sys_setcwd_def)
  have len: "unat (of_nat (length full) :: u32) = length full"
    using full(2) by (intro unat_of_nat_u32) simp
  then have cp: "\<not> rg_ecx r' < of_nat (length full)"
    using room by (simp add: word_less_nat_alt)
  let ?bs = "map of_char full :: u8 list"
  let ?s2 = "s1\<lparr>os_mem := write_all (os_mem s1) (rg_ebx r') ?bs\<rparr>"
  have "syscall_handler e r' s1 = Inr (Some r', ?s2)"
    using assms(8) cur1 full len cp by (cases r') (simp add: handler_defs sys_getcwd_def Let_def)
  moreover have "bytes (os_mem ?s2) (rg_ebx r') (length full) = ?bs"
    using bytes_write_all [of ?bs] full(2) by simp
  moreover have "os_mem ?s2 a = os_mem s a" if "\<not> in_region (rg_ebx r') (length full) a" for a
    using that cur1 full(2) write_all_apply [of ?bs] by simp
  ultimately show ?thesis using 1 by blast
qed

theorem setcwd_getcwd_witness:
  "\<exists>s1 s2. syscall_handler demo_kenv (demo_regs 13 0x1000 0 0) demo_os = Inr (Some (demo_regs 13 0x1000 0 0), s1) \<and>
    syscall_handler demo_kenv (demo_regs 12 0x5000 64 0) s1 = Inr (Some (demo_regs 12 0x5000 64 0), s2) \<and>
    bytes (os_mem s2) (rg_ebx (demo_regs 12 0x5000 64 0)) (length ''/dev/con'') = map of_char ''/dev/con'' \<and>
    (\<forall>a. \<not> in_region (rg_ebx (demo_regs 12 0x5000 64 0)) (length ''/dev/con'') a \<longrightarrow> os_mem s2 a = os_mem demo_os a)"
proof (rule setcwd_getcwd [where bs = demo_path and node = 48 and t = demo_task])
  show "vfs_abs_path_to (os_vfs demo_os) 48 = Inr (Some ''/dev/con'')"
    by (simp add: vfs_abs_path_to_def abs_loop.simps demo_os_def demo_file_vfs_def demo_vfs_def demo_vnode_def prepend_def)
qed (use demo_cstr demo_cur demo_walk in \<open>simp_all add: demo_regs_def\<close>)

text \<open>
  C26. A task that opens a file of the ramdisk by its path and reads it with a buffer of at least its
  size gets exactly the contents of the file, and the number of its bytes as the result.
\<close>

theorem open_read_ramdisk:
  assumes r: "rg_eax r = 5" "cstr (os_mem s) (rg_ebx r) bs" "rg_ecx r AND O_RDONLY \<noteq> 0"
    and cur: "cur_task s = Inr t"
    and room: "fd_room (fs_table (os_files s))" "fd_room (t_fds t)" and cells: "\<And>n. length (ke_cells e n) = n"
    and fresh: "fs_fresh (os_files s) \<noteq> 0" "fs_fresh (os_files s) + 12 \<noteq> 0"
    and path: "vfs_node_from_path (os_vfs s) (vfs_get_root (os_vfs s)) (chars bs) = Inr node"
    and nf: "node_file (os_vfs s) node = Inr f" "vf_read f = rd" "rd \<noteq> 0" "0 < vf_size f"
    and ops: "ke_read e = (\<lambda>b m a f off n. if a = rd then Inr (initrd_read m f off n b) else Inl Wild_access)"
    and r': "rg_eax r' = 3" "rg_ebx r' = dl_used (t_fds t)" "unat (vf_size f) \<le> unat (rg_edx r')"
    and ap: "apart (rg_ecx r') (unat (vf_size f)) (vf_inode f) (unat (vf_size f))"
  shows "\<exists>s1 s2. syscall_handler e r s = Inr (Some (r\<lparr>rg_eax := dl_used (t_fds t)\<rparr>), s1) \<and>
    syscall_handler e r' s1 = Inr (Some (r'\<lparr>rg_eax := vf_size f\<rparr>), s2) \<and>
    bytes (os_mem s2) (rg_ecx r') (unat (vf_size f)) = bytes (os_mem s) (vf_inode f) (unat (vf_size f))"
proof -
  let ?fs = "(os_files s)\<lparr>fs_list := t_fds t, fs_pid := t_pid t\<rparr>"
  obtain l gt where op: "file_open (ke_cells e) (os_vfs s) ?fs (chars bs) (rg_ecx r) (rg_edx r) =
      Inr (dl_used (t_fds t), ?fs\<lparr>fs_table := gt, fs_entries := (fs_entries (os_files s))
          (fs_fresh (os_files s) \<mapsto> \<lparr>ge_node = node, ge_locked_by = 0, ge_ref_count = 1\<rparr>),
        fs_fds := (fs_fds (os_files s))(fs_fresh (os_files s) + 12 \<mapsto> \<lparr>fd_gft_index = dl_used (fs_table (os_files s)),
          fd_offset = 0, fd_read = 1,
          fd_write = (if rg_ecx r AND O_RDWR \<noteq> 0 \<or> rg_ecx r AND O_WRONLY \<noteq> 0 then 1 else 0)\<rparr>),
        fs_fresh := fs_fresh (os_files s) + 24, fs_list := l\<rparr>)" (is "_ = Inr (_, ?fs1)")
    and gt: "list_get gt (dl_used (fs_table (os_files s))) = Inr (Some (fs_fresh (os_files s)))"
    and l: "list_get l (dl_used (t_fds t)) = Inr (Some (fs_fresh (os_files s) + 12))"
    using file_open_ok [of ?fs "ke_cells e" "os_vfs s" "chars bs" node "rg_ecx r" "rg_edx r"] room cells fresh path r(3)
    by auto
  obtain s1 where s1: "upd_cur s (\<lambda>x. x\<lparr>t_fds := l\<rparr>) = Inr s1"
    using upd_cur_ok [OF cur] by blast
  note cur1 = cur_task_upd [OF cur s1]
  let ?s1 = "s1\<lparr>os_files := ?fs1\<rparr>"
  have 1: "syscall_handler e r s = Inr (Some (r\<lparr>rg_eax := dl_used (t_fds t)\<rparr>), ?s1)"
    using r(1) str_arg_ok [OF r(2)] cur s1 op
    by (cases r) (simp add: handler_defs sys_open_def with_files_def)
  have cur2: "cur_task ?s1 = Inr (t\<lparr>t_fds := l\<rparr>)" using cur1(1) by (simp add: cur_task_def)
  let ?fs2 = "?fs1\<lparr>fs_list := l, fs_pid := t_pid t\<rparr>"
  let ?m = "copied (os_mem s) (rg_ecx r') (vf_inode f) (unat (vf_size f))"
  have "initrd_read (os_mem s) f 0 (rg_edx r') (rg_ecx r') = (vf_size f, ?m)"
    using initrd.whole [OF nf(4) r'(3)] ap by (simp add: memcpy_copied)
  then have rd: "file_read (ke_read e (rg_ecx r') (os_mem s)) (os_mem s) (os_vfs s) ?fs2 (dl_used (t_fds t)) (rg_edx r') =
      Inr ((vf_size f, ?m), ?fs2)"
    using fresh nf l gt ops
    by (auto simp: file_read_def fd_to_node_def list_deref_def fd_flags vfs_read_def)
  obtain s2 where s2: "upd_cur ?s1 (\<lambda>x. x\<lparr>t_fds := l\<rparr>) = Inr s2"
    using upd_cur_ok [OF cur2] by blast
  let ?s2 = "s2\<lparr>os_files := ?fs2, os_mem := ?m\<rparr>"
  have "syscall_handler e r' ?s1 = Inr (Some (r'\<lparr>rg_eax := vf_size f\<rparr>), ?s2)"
    using r'(1,2) cur2 cur1(2,3) rd s2
    by (cases r') (simp add: handler_defs sys_read_def with_files_def)
  moreover have "bytes (os_mem ?s2) (rg_ecx r') (unat (vf_size f)) = bytes (os_mem s) (vf_inode f) (unat (vf_size f))"
    by (simp add: copied_bytes unat_u32_le del: power_numeral)
  ultimately show ?thesis using 1 by blast
qed

theorem open_read_ramdisk_witness:
  "\<exists>s1 s2. syscall_handler demo_kenv (demo_regs 5 0x1000 1 0) demo_os =
      Inr (Some ((demo_regs 5 0x1000 1 0)\<lparr>rg_eax := dl_used (t_fds demo_task)\<rparr>), s1) \<and>
    syscall_handler demo_kenv (demo_regs 3 0 0x5000 64) s1 = Inr (Some ((demo_regs 3 0 0x5000 64)\<lparr>rg_eax :=
      vf_size (demo_file\<lparr>vf_inode := 0x9000, vf_size := 4\<rparr>)\<rparr>), s2) \<and>
    bytes (os_mem s2) (rg_ecx (demo_regs 3 0 0x5000 64)) (unat (vf_size (demo_file\<lparr>vf_inode := 0x9000, vf_size := 4\<rparr>))) =
      bytes (os_mem demo_os) (vf_inode (demo_file\<lparr>vf_inode := 0x9000, vf_size := 4\<rparr>))
        (unat (vf_size (demo_file\<lparr>vf_inode := 0x9000, vf_size := 4\<rparr>)))"
proof (rule open_read_ramdisk [where bs = demo_path and node = 48 and t = demo_task and rd = 7])
  show "node_file (os_vfs demo_os) 48 = Inr (demo_file\<lparr>vf_inode := 0x9000, vf_size := 4\<rparr>)"
    by (simp add: node_file_def demo_os_def demo_file_vfs_def demo_vnode_def)
  show "fd_room (fs_table (os_files demo_os))" "fd_room (t_fds demo_task)"
    by (simp_all add: fd_room_def dl_inv_def demo_os_def demo_fds_def demo_task_def)
  show "fs_fresh (os_files demo_os) \<noteq> 0" "fs_fresh (os_files demo_os) + 12 \<noteq> 0"
    by (simp_all add: demo_os_def demo_fds_def)
  show "apart (rg_ecx (demo_regs 3 0 0x5000 64)) (unat (vf_size (demo_file\<lparr>vf_inode := 0x9000, vf_size := 4\<rparr>)))
      (vf_inode (demo_file\<lparr>vf_inode := 0x9000, vf_size := 4\<rparr>)) (unat (vf_size (demo_file\<lparr>vf_inode := 0x9000, vf_size := 4\<rparr>)))"
    by (simp add: demo_regs_def apart_intervalI)
qed (use demo_cstr demo_cur demo_walk in \<open>simp_all add: demo_regs_def demo_kenv_def demo_file_def demo_task_def\<close>)

text \<open>Only the numbers of existing calls are safe.\<close>

lemma syscall_number:
  assumes "syscall_handler e r s = Inr x"
  shows "rg_eax r < 15 \<and> rg_eax r \<noteq> 2 \<and> rg_eax r \<noteq> 11"
proof -
  have "unat (rg_eax r) < length syscall_list \<and> syscall_list ! unat (rg_eax r) \<noteq> None"
    using assms by (auto simp: syscall_handler_def get_at_def split: if_splits option.splits)
  then show ?thesis
    by (auto simp: syscall_list_def word_less_nat_alt)
qed

end
