(* ===== verification/Io_Ports.thy ===== *)
theory Io_Ports
  imports Prelude
begin

text \<open>
  \<^verbatim>\<open>kernel/io/io.c\<close>: the port instructions. The hardware behind the ports is an argument of the drivers:
  \<open>'d\<close> is the state of the devices, reading a port gives a value and may change it.
\<close>

record 'd ports =
  pt_inb :: "u16 \<Rightarrow> 'd \<Rightarrow> u8 \<times> 'd"
  pt_outb :: "u16 \<Rightarrow> u8 \<Rightarrow> 'd \<Rightarrow> 'd"
  pt_inw :: "u16 \<Rightarrow> 'd \<Rightarrow> u16 \<times> 'd"
  pt_outw :: "u16 \<Rightarrow> u16 \<Rightarrow> 'd \<Rightarrow> 'd"
  pt_inl :: "u16 \<Rightarrow> 'd \<Rightarrow> u32 \<times> 'd"
  pt_outl :: "u16 \<Rightarrow> u32 \<Rightarrow> 'd \<Rightarrow> 'd"

definition io_inb :: "'d ports \<Rightarrow> u16 \<Rightarrow> 'd \<Rightarrow> u8 \<times> 'd" where
  "io_inb P port d = pt_inb P port d"

definition io_outb :: "'d ports \<Rightarrow> u16 \<Rightarrow> u8 \<Rightarrow> 'd \<Rightarrow> 'd" where
  "io_outb P port v d = pt_outb P port v d"

definition io_inw :: "'d ports \<Rightarrow> u16 \<Rightarrow> 'd \<Rightarrow> u16 \<times> 'd" where
  "io_inw P port d = pt_inw P port d"

definition io_outw :: "'d ports \<Rightarrow> u16 \<Rightarrow> u16 \<Rightarrow> 'd \<Rightarrow> 'd" where
  "io_outw P port v d = pt_outw P port v d"

definition io_inl :: "'d ports \<Rightarrow> u16 \<Rightarrow> 'd \<Rightarrow> u32 \<times> 'd" where
  "io_inl P port d = pt_inl P port d"

definition io_outl :: "'d ports \<Rightarrow> u16 \<Rightarrow> u32 \<Rightarrow> 'd \<Rightarrow> 'd" where
  "io_outl P port v d = pt_outl P port v d"

text \<open>A sequence of byte writes, and waiting until a port's value satisfies a condition.\<close>

definition out_all :: "'d ports \<Rightarrow> (u16 \<times> u8) list \<Rightarrow> 'd \<Rightarrow> 'd" where
  "out_all P ws d = fold (\<lambda>(port, v). io_outb P port v) ws d"

lemma out_all_simps [simp]:
  "out_all P [] d = d"
  "out_all P ((port, v) # ws) d = out_all P ws (io_outb P port v d)"
  by (simp_all add: out_all_def)

partial_function (option) in_until :: "'d ports \<Rightarrow> u16 \<Rightarrow> (u8 \<Rightarrow> bool) \<Rightarrow> 'd \<Rightarrow> 'd option" where
  "in_until P port stop d =
     (case io_inb P port d of (v, d1) \<Rightarrow> if stop v then Some d1 else in_until P port stop d1)"

lemma in_until_now: "io_inb P port d = (v, d1) \<Longrightarrow> stop v \<Longrightarrow> in_until P port stop d = Some d1"
  by (subst in_until.simps) simp

end
