(* ===== verification/Ata.thy ===== *)
theory Ata
  imports Io_Ports
begin

text \<open>
  \<^verbatim>\<open>kernel/drivers/ata.c\<close>: detection of the drives and the transfer of sectors by programmed I/O. The
  contract of a block device is the locale \<open>block_device\<close>; it is shown for the driver on a drive that
  behaves as the ATA standard says (\<open>ata_dev\<close>).
\<close>

section \<open>State\<close>

record ata_channel =
  ch_base :: u16
  ch_ctrl :: u16
  ch_bus_master :: u16

record ata_drive =
  ad_mtpts :: "u32 list"
  ad_present :: u8
  ad_ps :: u8
  ad_ms :: u8
  ad_type :: u8
  ad_sig :: u16
  ad_cap :: u16
  ad_com :: u32
  ad_sectors :: u32
  ad_name :: "u8 list"


text \<open>The registers, status bits, commands and positions of the identification in \<^verbatim>\<open>ata.h\<close> that the driver uses.\<close>

abbreviation (input) IDE_ATA :: u8 where "IDE_ATA \<equiv> 0"
abbreviation (input) ATA_PRIMARY :: u8 where "ATA_PRIMARY \<equiv> 0"
abbreviation (input) ATA_SECONDARY :: u8 where "ATA_SECONDARY \<equiv> 1"
abbreviation (input) ATA_CMD_READ_PIO :: u8 where "ATA_CMD_READ_PIO \<equiv> 0x20"
abbreviation (input) ATA_CMD_WRITE_PIO :: u8 where "ATA_CMD_WRITE_PIO \<equiv> 0x30"
abbreviation (input) ATA_CMD_IDENTIFY_PACKET :: u8 where "ATA_CMD_IDENTIFY_PACKET \<equiv> 0xA1"
abbreviation (input) ATA_CMD_IDENTIFY :: u8 where "ATA_CMD_IDENTIFY \<equiv> 0xEC"
abbreviation (input) ATA_IDENTIFY_DEVICE_TYPE :: nat where "ATA_IDENTIFY_DEVICE_TYPE \<equiv> 0"
abbreviation (input) ATA_IDENTIFY_MODEL :: nat where "ATA_IDENTIFY_MODEL \<equiv> 54"
abbreviation (input) ATA_IDENTIFY_CAPABILITIES :: nat where "ATA_IDENTIFY_CAPABILITIES \<equiv> 98"
abbreviation (input) ATA_IDENTIFY_MAX_LBA :: nat where "ATA_IDENTIFY_MAX_LBA \<equiv> 120"
abbreviation (input) ATA_IDENTIFY_COMMAND_SETS :: nat where "ATA_IDENTIFY_COMMAND_SETS \<equiv> 164"
abbreviation (input) ATA_IDENTIFY_MAX_LBA_EXT :: nat where "ATA_IDENTIFY_MAX_LBA_EXT \<equiv> 200"
abbreviation (input) ATA_STATUS_BUSY :: u8 where "ATA_STATUS_BUSY \<equiv> 0x80"
abbreviation (input) ATA_STATUS_DATA_REQUEST_READY :: u8 where "ATA_STATUS_DATA_REQUEST_READY \<equiv> 0x08"
abbreviation (input) ATA_STATUS_ERROR :: u8 where "ATA_STATUS_ERROR \<equiv> 0x01"
abbreviation (input) ATA_ERR_CMD_ABORTED :: u8 where "ATA_ERR_CMD_ABORTED \<equiv> 4"
abbreviation (input) ATA_REG_ERROR :: u16 where "ATA_REG_ERROR \<equiv> 1"
abbreviation (input) ATA_REG_SECCOUNT0 :: u16 where "ATA_REG_SECCOUNT0 \<equiv> 2"
abbreviation (input) ATA_REG_LBA0 :: u16 where "ATA_REG_LBA0 \<equiv> 3"
abbreviation (input) ATA_REG_LBA1 :: u16 where "ATA_REG_LBA1 \<equiv> 4"
abbreviation (input) ATA_REG_LBA2 :: u16 where "ATA_REG_LBA2 \<equiv> 5"
abbreviation (input) ATA_REG_HDDEVSEL :: u16 where "ATA_REG_HDDEVSEL \<equiv> 6"
abbreviation (input) ATA_REG_COMMAND :: u16 where "ATA_REG_COMMAND \<equiv> 7"
abbreviation (input) ATA_REG_STATUS :: u16 where "ATA_REG_STATUS \<equiv> 7"
abbreviation (input) ATA_REG_SECCOUNT1 :: u16 where "ATA_REG_SECCOUNT1 \<equiv> 8"
abbreviation (input) ATA_REG_LBA3 :: u16 where "ATA_REG_LBA3 \<equiv> 9"
abbreviation (input) ATA_REG_LBA4 :: u16 where "ATA_REG_LBA4 \<equiv> 0x0A"
abbreviation (input) ATA_REG_LBA5 :: u16 where "ATA_REG_LBA5 \<equiv> 0x0B"
abbreviation (input) ATA_REG_CONTROL :: u16 where "ATA_REG_CONTROL \<equiv> 0x0C"
abbreviation (input) ATA_REG_ALTSTATUS :: u16 where "ATA_REG_ALTSTATUS \<equiv> 0x0C"

section \<open>Commands\<close>

definition ATA_400_nano_sec :: "'d ports \<Rightarrow> u16 \<Rightarrow> 'd \<Rightarrow> 'd" where
  "ATA_400_nano_sec P base d = ((\<lambda>x. snd (io_inb P (base + ATA_REG_ALTSTATUS) x)) ^^ 4) d"

definition ATA_print_error :: "'d ports \<Rightarrow> u16 \<Rightarrow> 'd \<Rightarrow> 'd" where
  "ATA_print_error P base d = snd (io_inb P (base + ATA_REG_ERROR) (ATA_400_nano_sec P base d))"

text \<open>The error code is passed on as the base address of the error report.\<close>

definition ATA_check_for_errors :: "'d ports \<Rightarrow> u16 \<Rightarrow> 'd \<Rightarrow> u8 \<times> 'd" where
  "ATA_check_for_errors P base d =
     (let (status, d1) = io_inb P (base + ATA_REG_STATUS) d in
      if status AND ATA_STATUS_ERROR \<noteq> 0 then
        let (err, d2) = io_inb P (base + ATA_REG_ERROR) d1 in (err, ATA_print_error P (ucast err) d2)
      else if status AND ATA_STATUS_DATA_REQUEST_READY = 0 then (- 1, d1)
      else (0, d1))"

definition ATA_PIO_prepare :: "'d ports \<Rightarrow> u16 \<Rightarrow> u8 \<Rightarrow> u64 \<Rightarrow> u64 \<Rightarrow> 'd \<Rightarrow> 'd option" where
  "ATA_PIO_prepare P base ms block n d =
     Option.bind
       (in_until P (base + ATA_REG_STATUS) (\<lambda>st. st AND ATA_STATUS_BUSY = 0 \<and> st AND ATA_STATUS_DATA_REQUEST_READY = 0)
         (ATA_400_nano_sec P base
           (io_outb P (base + ATA_REG_HDDEVSEL) ((if ms \<noteq> 0 then 0xE0 else 0xF0) OR ucast (drop_bit 24 block AND 0x0F)) d)))
       (\<lambda>d1. Some (out_all P
         [(base + ATA_REG_ERROR, 0), (base + ATA_REG_SECCOUNT0, ucast n), (base + ATA_REG_SECCOUNT1, 0),
          (base + ATA_REG_LBA0, ucast block), (base + ATA_REG_LBA1, ucast (drop_bit 8 block)),
          (base + ATA_REG_LBA2, ucast (drop_bit 16 block)), (base + ATA_REG_LBA3, 0), (base + ATA_REG_LBA4, 0), (base + ATA_REG_LBA5, 0)] d1))"

text \<open>Words still to come, in the order of the transfer; each is stored low byte first.\<close>

definition wait_drq :: "'d ports \<Rightarrow> u16 \<Rightarrow> 'd \<Rightarrow> 'd option" where
  "wait_drq P base d =
     in_until P (base + ATA_REG_STATUS) (\<lambda>st. st AND ATA_STATUS_BUSY = 0 \<and> st AND ATA_STATUS_DATA_REQUEST_READY \<noteq> 0) (snd (io_inb P (base + ATA_REG_ALTSTATUS) d))"

fun read_words :: "'d ports \<Rightarrow> u16 \<Rightarrow> nat \<Rightarrow> 'd \<Rightarrow> (u8 list \<times> 'd) option" where
  "read_words P base 0 d = Some ([], d)"
| "read_words P base (Suc n) d =
     Option.bind (wait_drq P base d) (\<lambda>d1.
       let (w, d2) = io_inw P base d1 in
       Option.bind (read_words P base n d2) (\<lambda>(bs, d3). Some (ucast w # ucast (drop_bit 8 w) # bs, d3)))"

definition read_end :: "'d ports \<Rightarrow> u16 \<Rightarrow> 'd \<Rightarrow> 'd" where
  "read_end P base d = snd (io_inb P (base + ATA_REG_STATUS) (snd (io_inb P (base + ATA_REG_ALTSTATUS) d)))"

text \<open>The result is the return value, the bytes stored from the start of the buffer on, and the state.\<close>

definition ATA_PIO_read :: "'d ports \<Rightarrow> u16 \<Rightarrow> u8 \<Rightarrow> u64 \<Rightarrow> u64 \<Rightarrow> 'd \<Rightarrow> (u32 \<times> u8 list \<times> 'd) option" where
  "ATA_PIO_read P base ms block n d =
     Option.bind (ATA_PIO_prepare P base ms block n d) (\<lambda>d1.
       let (err, d2) = ATA_check_for_errors P base (io_outb P (base + ATA_REG_COMMAND) ATA_CMD_READ_PIO d1) in
       if err = ATA_ERR_CMD_ABORTED then Some (0, [], d2)
       else Option.bind (read_words P base (unat (256 * n)) d2) (\<lambda>(bs, d3). Some (ucast n, bs, read_end P base d3)))"

fun write_words :: "'d ports \<Rightarrow> u16 \<Rightarrow> u8 list \<Rightarrow> nat \<Rightarrow> 'd \<Rightarrow> 'd res option" where
  "write_words P base buf 0 d = Some (Inr d)"
| "write_words P base buf (Suc n) d =
     Option.bind (wait_drq P base d) (\<lambda>d1.
       case buf of lo # hi # bs \<Rightarrow> write_words P base bs n (io_outw P base (push_bit 8 (ucast hi) OR ucast lo) d1)
       | _ \<Rightarrow> Some (Inl Wild_access))"

definition ATA_PIO_write :: "'d ports \<Rightarrow> u16 \<Rightarrow> u8 \<Rightarrow> u64 \<Rightarrow> u64 \<Rightarrow> u8 list \<Rightarrow> 'd \<Rightarrow> (u32 \<times> 'd) res option" where
  "ATA_PIO_write P base ms block n buf d =
     Option.bind (ATA_PIO_prepare P base ms block n d) (\<lambda>d1.
     Option.bind (in_until P (base + ATA_REG_STATUS) (\<lambda>st. st AND ATA_STATUS_BUSY = 0 \<and> st AND ATA_STATUS_DATA_REQUEST_READY = 0) d1) (\<lambda>d2.
       let (err, d3) = ATA_check_for_errors P base (io_outb P (base + ATA_REG_COMMAND) ATA_CMD_WRITE_PIO d2) in
       if err = ATA_ERR_CMD_ABORTED then Some (Inr (0, d3))
       else Option.bind (write_words P base buf (unat (256 * n)) d3) (\<lambda>r.
              Some (rbind r (\<lambda>d4. Inr (ucast n, read_end P base d4))))))"

definition ATA_read :: "'d ports \<Rightarrow> ata_channel list \<Rightarrow> ata_drive \<Rightarrow> u64 \<Rightarrow> u64 \<Rightarrow> 'd \<Rightarrow> (u32 \<times> u8 list \<times> 'd) res" where
  "ATA_read P chs drv block n d =
     rbind (get_at chs (unat (ad_ps drv))) (\<lambda>ch.
       case ATA_PIO_read P (ch_base ch) (ad_ms drv) block n d of None \<Rightarrow> Inl Diverges | Some r \<Rightarrow> Inr r)"

definition ATA_write :: "'d ports \<Rightarrow> ata_channel list \<Rightarrow> ata_drive \<Rightarrow> u64 \<Rightarrow> u64 \<Rightarrow> u8 list \<Rightarrow> 'd \<Rightarrow> (u32 \<times> 'd) res" where
  "ATA_write P chs drv block n buf d =
     rbind (get_at chs (unat (ad_ps drv))) (\<lambda>ch. returned (ATA_PIO_write P (ch_base ch) (ad_ms drv) block n buf d))"

text \<open>\<open>stack k\<close> is what the \<open>k\<close> bytes of the local array hold before the read.\<close>

definition ATA_read_b :: "'d ports \<Rightarrow> (nat \<Rightarrow> u8 list) \<Rightarrow> ata_channel list \<Rightarrow> ata_drive \<Rightarrow> u64 \<Rightarrow> u64 \<Rightarrow> 'd \<Rightarrow>
    (u8 list \<times> 'd) res" where
  "ATA_read_b P stack chs drv offset n d =
     (let start = offset div 512; stop = (offset + n) div 512; N = stop - start + 1 in
      rbind (ATA_read P chs drv start N d) (\<lambda>(_, bs, d1).
        let whole = bs @ drop (length bs) (stack (unat (N * 512)));
            off = unat (offset mod 512); k = unat (ucast n :: u32)
        in if off + k \<le> length whole then Inr (take k (drop off whole), d1) else Inl Wild_access))"

definition ATA_get_drive :: "ata_drive list \<Rightarrow> u8 \<Rightarrow> u8 \<Rightarrow> ata_drive option res" where
  "ATA_get_drive drives ps ms =
     rbind (get_at drives (2 * unat ps + unat ms)) (\<lambda>drv. Inr (if ad_present drv \<noteq> 0 then Some drv else None))"

section \<open>Detection\<close>

definition ata_channels :: "u32 list \<Rightarrow> ata_channel list" where
  "ata_channels bar =
     [\<lparr>ch_base = ucast ((bar ! 0 AND 0xFFFFFFFC) + (if bar ! 0 = 0 then 0x1F0 else 0)),
       ch_ctrl = ucast ((bar ! 1 AND 0xFFFFFFFC) + (if bar ! 1 = 0 then 0x3F6 else 0)),
       ch_bus_master = ucast (bar ! 4 AND 0xFFFFFFFC)\<rparr>,
      \<lparr>ch_base = ucast ((bar ! 2 AND 0xFFFFFFFC) + (if bar ! 2 = 0 then 0x170 else 0)),
       ch_ctrl = ucast ((bar ! 3 AND 0xFFFFFFFC) + (if bar ! 3 = 0 then 0x376 else 0)),
       ch_bus_master = ucast ((bar ! 4 AND 0xFFFFFFFC) + 8)\<rparr>]"

definition soft_reset :: "'d ports \<Rightarrow> u16 \<Rightarrow> u16 \<Rightarrow> 'd \<Rightarrow> 'd" where
  "soft_reset P base ctrl d = io_outb P ctrl 0 (ATA_400_nano_sec P base (io_outb P ctrl 0x04 d))"

datatype poll = Poll_ready | Poll_error | Poll_skip

text \<open>The first argument is the value of \<open>timeout\<close>, which counts down from 20; \<open>sleep\<close> lets time pass.\<close>

fun identify_poll :: "nat \<Rightarrow> 'd ports \<Rightarrow> (u64 \<Rightarrow> 'd \<Rightarrow> 'd) \<Rightarrow> u16 \<Rightarrow> u16 \<Rightarrow> 'd \<Rightarrow> poll \<times> 'd" where
  "identify_poll 0 P sleep base ctrl d = (Poll_skip, d)"
| "identify_poll (Suc t) P sleep base ctrl d =
     (let (st, d1) = io_inb P (base + ATA_REG_STATUS) d in
      if st AND ATA_STATUS_ERROR \<noteq> 0 then (Poll_error, d1)
      else if st AND ATA_STATUS_BUSY = 0 \<and> st AND ATA_STATUS_DATA_REQUEST_READY \<noteq> 0 then (Poll_ready, d1)
      else
        let d2 = sleep 100 d1; d3 = (if t = 10 then soft_reset P base ctrl d2 else d2)
        in if t = 0 then (Poll_skip, d3) else identify_poll t P sleep base ctrl d3)"

fun identify_words :: "'d ports \<Rightarrow> u16 \<Rightarrow> nat \<Rightarrow> 'd \<Rightarrow> u8 list \<times> 'd" where
  "identify_words P base 0 d = ([], d)"
| "identify_words P base (Suc n) d =
     (let (w, d1) = io_inw P base d; (bs, d2) = identify_words P base n d1
      in (ucast (w AND 0xFF) # ucast (drop_bit 8 w AND 0xFF) # bs, d2))"

definition le16 :: "u8 list \<Rightarrow> nat \<Rightarrow> u16" where
  "le16 bs i = ucast (bs ! i) OR push_bit 8 (ucast (bs ! (i + 1)))"

definition le32 :: "u8 list \<Rightarrow> nat \<Rightarrow> u32" where
  "le32 bs i = ucast (bs ! i) OR push_bit 8 (ucast (bs ! (i + 1))) OR push_bit 16 (ucast (bs ! (i + 2)))
     OR push_bit 24 (ucast (bs ! (i + 3)))"

text \<open>The bytes of the model name come in swapped pairs; byte 40 is the terminator.\<close>

definition model_name :: "u8 list \<Rightarrow> u8 list" where
  "model_name buf = concat (map (\<lambda>i. [buf ! (ATA_IDENTIFY_MODEL + 2 * i + 1), buf ! (ATA_IDENTIFY_MODEL + 2 * i)]) [0..<20])"

definition identified :: "ata_drive \<Rightarrow> u8 list \<Rightarrow> ata_drive" where
  "identified drv buf =
     (let com = ucast (le16 buf ATA_IDENTIFY_COMMAND_SETS) in
      drv\<lparr>ad_present := 1, ad_sig := le16 buf ATA_IDENTIFY_DEVICE_TYPE, ad_cap := le16 buf ATA_IDENTIFY_CAPABILITIES, ad_com := com,
          ad_sectors := (if com AND push_bit 26 1 \<noteq> 0 then le32 buf ATA_IDENTIFY_MAX_LBA_EXT else le32 buf ATA_IDENTIFY_MAX_LBA),
          ad_name := model_name buf @ 0 # drop 41 (ad_name drv)\<rparr>)"

definition ata_default :: "ata_drive \<Rightarrow> u8 \<Rightarrow> u8 \<Rightarrow> ata_drive" where
  "ata_default drv ps ms =
     drv\<lparr>ad_mtpts := [0, 0, 0, 0], ad_present := 0, ad_ps := ps, ad_ms := ms, ad_type := IDE_ATA\<rparr>"

definition detect_drive :: "'d ports \<Rightarrow> (u64 \<Rightarrow> 'd \<Rightarrow> 'd) \<Rightarrow> ata_channel \<Rightarrow> ata_drive \<Rightarrow> u8 \<Rightarrow> u8 \<Rightarrow> 'd \<Rightarrow>
    (ata_drive \<times> 'd) option" where
  "detect_drive P sleep ch old ps ms d =
     (let base = ch_base ch; ctrl = ch_ctrl ch; drv = ata_default old ps ms; idle = (\<lambda>st. st AND ATA_STATUS_BUSY = (0 :: u8)) in
      Option.bind (in_until P (base + ATA_REG_STATUS) idle (soft_reset P base ctrl d)) (\<lambda>d1.
      let d2 = ATA_400_nano_sec P base (io_outb P (base + ATA_REG_HDDEVSEL) (if ms \<noteq> 0 then 0xA0 else 0xB0) d1);
          d3 = out_all P [(base + ATA_REG_SECCOUNT0, 0), (base + ATA_REG_LBA0, 0), (base + ATA_REG_LBA1, 0), (base + ATA_REG_LBA2, 0)] d2 in
      Option.bind (in_until P (base + ATA_REG_STATUS) idle d3) (\<lambda>d4.
      let (st, d5) = io_inb P (base + ATA_REG_STATUS) (ATA_400_nano_sec P base (io_outb P (base + ATA_REG_COMMAND) ATA_CMD_IDENTIFY d4)) in
      if st = 0 then Some (drv, d5)
      else case identify_poll 20 P sleep base ctrl d5 of
          (Poll_skip, d6) \<Rightarrow> Some (drv, d6)
        | (Poll_error, d6) \<Rightarrow>
            let (_, d7) = io_inb P (base + ATA_REG_LBA1) d6; (_, d8) = io_inb P (base + ATA_REG_LBA2) d7
            in Some (drv, ATA_400_nano_sec P base (io_outb P (base + ATA_REG_COMMAND) ATA_CMD_IDENTIFY_PACKET d8))
        | (Poll_ready, d6) \<Rightarrow>
            let (buf, d7) = identify_words P base 256 d6 in Some (identified drv buf, d7))))"

text \<open>The four drives in the order of the loops; interrupts of both channels are disabled first.\<close>

fun detect_all :: "'d ports \<Rightarrow> (u64 \<Rightarrow> 'd \<Rightarrow> 'd) \<Rightarrow> ata_channel list \<Rightarrow> ata_drive list \<Rightarrow> (u8 \<times> u8) list \<Rightarrow> 'd \<Rightarrow>
    (ata_drive list \<times> 'd) option" where
  "detect_all P sleep chs drives [] d = Some (drives, d)"
| "detect_all P sleep chs drives ((ps, ms) # rest) d =
     (let k = 2 * unat ps + unat ms in
      Option.bind (detect_drive P sleep (chs ! unat ps) (drives ! k) ps ms d) (\<lambda>(drv, d1).
      detect_all P sleep chs (drives[k := drv]) rest d1))"

definition ATA_init :: "'d ports \<Rightarrow> (u64 \<Rightarrow> 'd \<Rightarrow> 'd) \<Rightarrow> u32 list \<Rightarrow> ata_drive list \<Rightarrow> 'd \<Rightarrow>
    (ata_channel list \<times> ata_drive list \<times> 'd) option" where
  "ATA_init P sleep bar drives d =
     (let chs = ata_channels bar;
          d1 = out_all P [(ch_ctrl (chs ! 0) + ATA_REG_CONTROL, 2), (ch_ctrl (chs ! 1) + ATA_REG_CONTROL, 2)] d in
      Option.bind (detect_all P sleep chs drives [(ATA_PRIMARY, 0), (ATA_PRIMARY, 1), (ATA_SECONDARY, 0), (ATA_SECONDARY, 1)] d1) (\<lambda>(drives1, d2).
      Some (chs, drives1, d2)))"

section \<open>A drive\<close>

text \<open>
  A drive as the ATA standard describes it for the commands in use: the registers of the address, the
  sector count and the queue of words of the transfer. Data is ready as soon as the command is given.
\<close>

record ata_dev =
  dv_disk :: "nat \<Rightarrow> u8"
  dv_lba0 :: u8
  dv_lba1 :: u8
  dv_lba2 :: u8
  dv_select :: u8
  dv_count :: u8
  dv_queue :: "u16 list"

definition dev_word :: "(nat \<Rightarrow> u8) \<Rightarrow> nat \<Rightarrow> u16" where
  "dev_word disk a = ucast (disk a) OR push_bit 8 (ucast (disk (a + 1)))"

definition dev_lba :: "ata_dev \<Rightarrow> nat" where
  "dev_lba d = unat (dv_lba0 d) + 256 * unat (dv_lba1 d) + 65536 * unat (dv_lba2 d) + 16777216 * unat (dv_select d AND 0x0F)"

definition dev_sectors :: "ata_dev \<Rightarrow> nat" where
  "dev_sectors d = (if dv_count d = 0 then 256 else unat (dv_count d))"

definition dev_command :: "ata_dev \<Rightarrow> ata_dev" where
  "dev_command d = d\<lparr>dv_queue := map (\<lambda>i. dev_word (dv_disk d) (512 * dev_lba d + 2 * i)) [0..<256 * dev_sectors d]\<rparr>"

definition ata_ports :: "u16 \<Rightarrow> ata_dev ports" where
  "ata_ports base = \<lparr>
     pt_inb = (\<lambda>p d. (if p = base + 7 then (if dv_queue d = [] then 0x40 else 0x48) else 0, d)),
     pt_outb = (\<lambda>p v d. if p = base + 2 then d\<lparr>dv_count := v\<rparr> else if p = base + 3 then d\<lparr>dv_lba0 := v\<rparr>
       else if p = base + 4 then d\<lparr>dv_lba1 := v\<rparr> else if p = base + 5 then d\<lparr>dv_lba2 := v\<rparr>
       else if p = base + 6 then d\<lparr>dv_select := v\<rparr> else if p = base + 7 \<and> v = 0x20 then dev_command d else d),
     pt_inw = (\<lambda>p d. if p = base then (case dv_queue d of [] \<Rightarrow> (0, d) | w # ws \<Rightarrow> (w, d\<lparr>dv_queue := ws\<rparr>)) else (0, d)),
     pt_outw = (\<lambda>p v d. d), pt_inl = (\<lambda>p d. (0, d)), pt_outl = (\<lambda>p v d. d)\<rparr>"

lemma ata_inb [simp]: "io_inb (ata_ports base) p d = (if p = base + 7 then (if dv_queue d = [] then 0x40 else 0x48) else 0, d)"
  by (simp add: io_inb_def ata_ports_def)

lemma ata_outb: "io_outb (ata_ports base) p v d = (if p = base + 2 then d\<lparr>dv_count := v\<rparr>
    else if p = base + 3 then d\<lparr>dv_lba0 := v\<rparr> else if p = base + 4 then d\<lparr>dv_lba1 := v\<rparr>
    else if p = base + 5 then d\<lparr>dv_lba2 := v\<rparr> else if p = base + 6 then d\<lparr>dv_select := v\<rparr>
    else if p = base + 7 \<and> v = 0x20 then dev_command d else d)"
  by (simp add: io_outb_def ata_ports_def)

lemma ata_wait_ns [simp]: "ATA_400_nano_sec (ata_ports base) b d = d"
  by (simp add: ATA_400_nano_sec_def numeral_eq_Suc)

lemma ata_read_end [simp]: "read_end (ata_ports base) base d = d"
  by (simp add: read_end_def)

lemma ata_wait_drq: "dv_queue d \<noteq> [] \<Longrightarrow> wait_drq (ata_ports base) base d = Some d"
  by (simp add: wait_drq_def in_until.simps)

lemma ata_inw: "dv_queue d = w # ws \<Longrightarrow> io_inw (ata_ports base) base d = (w, d\<lparr>dv_queue := ws\<rparr>)"
  by (simp add: io_inw_def ata_ports_def)

lemma ata_read_words:
  "dv_queue d = ws \<Longrightarrow> read_words (ata_ports base) base (length ws) d =
     Some (concat (map (\<lambda>w. [ucast w, ucast (drop_bit 8 w)]) ws), d\<lparr>dv_queue := []\<rparr>)"
  by (induction ws arbitrary: d) (simp_all add: ata_wait_drq ata_inw)

lemma ata_prepare:
  assumes "dv_queue d = []"
  shows "ATA_PIO_prepare (ata_ports base) base ms block n d = Some (d\<lparr>
    dv_select := (if ms \<noteq> 0 then 0xE0 else 0xF0) OR ucast (drop_bit 24 block AND 0x0F), dv_count := ucast n,
    dv_lba0 := ucast block, dv_lba1 := ucast (drop_bit 8 block), dv_lba2 := ucast (drop_bit 16 block)\<rparr>)"
  using assms by (simp add: ATA_PIO_prepare_def in_until.simps ata_outb)

lemma dev_word_bytes: "ucast (dev_word disk a) = disk a" "ucast (drop_bit 8 (dev_word disk a)) = disk (a + 1)"
  by (auto simp: dev_word_def bit_eq_iff bit_simps dest: bit_imp_le_length)

lemma dev_words_bytes:
  "concat (map (\<lambda>w. [ucast w, ucast (drop_bit 8 w)]) (map (\<lambda>i. dev_word disk (a + 2 * i)) [0..<k])) =
     map disk [a..<a + 2 * k]"
  by (induction k) (simp_all add: dev_word_bytes)

text \<open>The registers hold the address of any block below 2^28.\<close>

lemma split_lba:
  fixes b :: nat
  assumes "b < 268435456"
  shows "b mod 256 + 256 * (b div 256 mod 256) + 65536 * (b div 65536 mod 256) + 16777216 * (b div 16777216 mod 16) = b"
proof -
  have "b div 16777216 mod 16 = b div 16777216" using assms by simp
  moreover have "b div 65536 = b div 65536 mod 256 + 256 * (b div 16777216)"
    using mod_mult_div_eq [of "b div 65536" 256] by (simp add: div_mult2_eq [symmetric])
  moreover have "b div 256 = b div 256 mod 256 + 256 * (b div 65536)"
    using mod_mult_div_eq [of "b div 256" 256] by (simp add: div_mult2_eq [symmetric])
  moreover have "b = b mod 256 + 256 * (b div 256)" by simp
  ultimately show ?thesis by linarith
qed

lemma select_low: "(sel OR y) AND 0x0F = y AND (0x0F :: u8)" if "sel AND 0x0F = 0"
  using that by (simp add: bit.conj_disj_distrib2)

lemma unat_low4: "unat ((ucast (x AND 0x0F :: u64) :: u8) AND 0x0F) = unat x mod 16"
proof -
  have "(ucast (x AND 0x0F) :: u8) AND 0x0F = ucast (take_bit 4 x)"
    by (auto simp: bit_eq_iff bit_simps take_bit_eq_mask mask_eq_exp_minus_1 dest: bit_imp_le_length)
  then show ?thesis
    by (simp add: unsigned_ucast_eq take_bit_eq_mod unat_mod mod_mod_cancel mod_less)
qed

lemma dev_lba_set:
  assumes "unat block < 268435456" and "sel AND 0x0F = 0"
  shows "dev_lba (d\<lparr>dv_select := sel OR ucast (drop_bit 24 block AND 0x0F), dv_count := c,
    dv_lba0 := ucast block, dv_lba1 := ucast (drop_bit 8 block), dv_lba2 := ucast (drop_bit 16 block)\<rparr>) = unat (block :: u64)"
proof -
  have 1: "unat (ucast block :: u8) = unat block mod 256"
    and 2: "unat (ucast (drop_bit 8 block) :: u8) = unat block div 256 mod 256"
    and 3: "unat (ucast (drop_bit 16 block) :: u8) = unat block div 65536 mod 256"
    and 4: "unat (drop_bit 24 block) = unat block div 16777216"
    by (simp_all add: unsigned_ucast_eq take_bit_eq_mod unsigned_drop_bit_eq drop_bit_eq_div unat_div)
  show ?thesis
    using split_lba [OF assms(1)] unat_low4 [of "drop_bit 24 block"]
    by (cases d) (simp only: dev_lba_def ata_dev.simps select_low [OF assms(2)] 1 2 3 4)
qed

text \<open>Reading \<open>n\<close> sectors, no more than the count register holds, below the 28-bit limit.\<close>

lemma ATA_PIO_read_ok:
  assumes idle: "dv_queue d = []" and "unat block < 268435456" and n: "0 < n" "n < 256"
  shows "\<exists>d'. ATA_PIO_read (ata_ports base) base ms block n d =
      Some (ucast n, map (dv_disk d) [512 * unat block..<512 * (unat block + unat n)], d') \<and>
    dv_queue d' = [] \<and> dv_disk d' = dv_disk d"
proof -
  define d1 where "d1 = d\<lparr>dv_select := (if ms \<noteq> 0 then 0xE0 else 0xF0) OR ucast (drop_bit 24 block AND 0x0F),
    dv_count := ucast n, dv_lba0 := ucast block, dv_lba1 := ucast (drop_bit 8 block), dv_lba2 := ucast (drop_bit 16 block)\<rparr>"
  have lba: "dev_lba d1 = unat block"
    unfolding d1_def by (rule dev_lba_set [OF assms(2)]) simp
  have un: "0 < unat n" "unat n < 256" using n by (simp_all add: word_less_nat_alt)
  then have "unat (ucast n :: u8) = unat n" by (simp add: unsigned_ucast_eq take_bit_eq_mod)
  moreover from this un have "(ucast n :: u8) \<noteq> 0" by (metis less_numeral_extra(3) unsigned_0)
  ultimately have secs: "dev_sectors d1 = unat n" by (simp add: dev_sectors_def d1_def)
  have disk: "dv_disk d1 = dv_disk d" by (simp add: d1_def)
  define ws where "ws = map (\<lambda>i. dev_word (dv_disk d) (512 * unat block + 2 * i)) [0..<256 * unat n]"
  have cmd: "dev_command d1 = d1\<lparr>dv_queue := ws\<rparr>" by (simp add: dev_command_def lba secs disk ws_def)
  have ne: "ws \<noteq> []" using un by (simp add: ws_def)
  have len: "unat (256 * n) = length ws"
    using un by (simp add: ws_def unat_word_ariths)
  have bytes: "concat (map (\<lambda>w. [ucast w, ucast (drop_bit 8 w)]) ws) =
      map (dv_disk d) [512 * unat block..<512 * (unat block + unat n)]"
    using dev_words_bytes [of "dv_disk d" "512 * unat block" "256 * unat n"] by (simp add: ws_def algebra_simps)
  show ?thesis
    using ne by (simp add: ATA_PIO_read_def ata_prepare [OF idle] d1_def [symmetric] ata_outb cmd
      ATA_check_for_errors_def len ata_read_words [of "d1\<lparr>dv_queue := ws\<rparr>" ws, simplified] bytes disk)
qed

text \<open>The blocks that a range of bytes lies in.\<close>

lemma sector_bounds:
  fixes a k :: nat
  assumes "k \<le> 129536"
  shows "a div 512 \<le> (a + k) div 512" "(a + k) div 512 - a div 512 + 1 < 256"
    "a + k \<le> 512 * (a div 512 + ((a + k) div 512 - a div 512 + 1))"
proof -
  let ?q = "a div 512" and ?s = "(a + k) div 512"
  have a: "512 * ?q + a mod 512 = a" "a mod 512 < 512" and b: "512 * ?s + (a + k) mod 512 = a + k" "(a + k) mod 512 < 512"
    by simp_all
  show le: "?q \<le> ?s" by (simp add: div_le_mono)
  show "?s - ?q + 1 < 256" using a b assms le by linarith
  show "a + k \<le> 512 * (?q + (?s - ?q + 1))" using b le by simp
qed

lemma ATA_read_b_ok:
  assumes "get_at chs (unat (ad_ps drv)) = Inr ch" and idle: "dv_queue d = []"
    and off: "unat off + unat n < 2 ^ 37" and n: "unat n \<le> 129536"
  shows "\<exists>d'. ATA_read_b (ata_ports (ch_base ch)) stack chs drv off n d =
      Inr (map (dv_disk d) [unat off..<unat off + unat n], d') \<and> dv_queue d' = [] \<and> dv_disk d' = dv_disk d"
proof -
  let ?o = "unat off" and ?k = "unat n"
  let ?q = "?o div 512" and ?s = "(?o + ?k) div 512"
  note sb = sector_bounds [OF n, of ?o]
  have sum: "unat (off + n) = ?o + ?k" using unat_add_of_nat [of off ?k] off by simp
  define st where "st = off div 512"
  define N where "N = (off + n) div 512 - off div 512 + 1"
  have st: "unat st = ?q" by (simp add: st_def unat_div)
  have s: "unat ((off + n) div 512) = ?s" by (simp add: unat_div sum)
  have "off div 512 \<le> (off + n) div 512" using sb(1) by (simp add: word_le_nat_alt unat_div sum)
  then have "unat ((off + n) div 512 - off div 512) = ?s - ?q" by (simp add: unat_sub unat_div sum)
  then have N: "unat N = ?s - ?q + 1"
    using sb(2) unat_Suc_less [of "(off + n) div 512 - off div 512"] by (simp add: N_def)
  have "?q < 268435456" using off by simp
  then have st': "unat st < 268435456" using st by simp
  have N': "0 < N" "N < 256" using N sb(2) by (simp_all add: word_less_nat_alt)
  obtain d' where r: "ATA_PIO_read (ata_ports (ch_base ch)) (ch_base ch) (ad_ms drv) st N d =
      Some (ucast N, map (dv_disk d) [512 * ?q..<512 * (?q + unat N)], d')"
    and d': "dv_queue d' = []" "dv_disk d' = dv_disk d"
    using ATA_PIO_read_ok [OF idle st' N'] st by metis
  let ?bs = "map (dv_disk d) [512 * ?q..<512 * (?q + unat N)]"
  let ?whole = "?bs @ drop (length ?bs) (stack (unat (N * 512)))"
  have N2: "(off + n) div 512 - st + 1 = N" by (simp add: N_def st_def)
  have k: "unat (ucast n :: u32) = ?k" using n by (simp add: unsigned_ucast_eq take_bit_eq_mod)
  have m: "unat (off mod 512) = ?o mod 512" by (simp add: unat_mod)
  have fit: "?o mod 512 + ?k \<le> 512 * unat N"
    using sb(3) mult_div_mod_eq [of 512 ?o] unfolding N [symmetric] distrib_left by linarith
  have "take ?k (drop (?o mod 512) ?whole) = take ?k (drop (?o mod 512) ?bs)"
    using fit by simp
  also have "\<dots> = map (dv_disk d) (take ?k [?o..<512 * (?q + unat N)])"
    by (simp add: drop_map take_map)
  also have "\<dots> = map (dv_disk d) [?o..<?o + ?k]"
    using sb(3) by (simp only: N [symmetric] take_upt)
  finally show ?thesis
    using assms(1) r d' fit by (simp add: ATA_read_b_def Let_def st_def [symmetric] N2 ATA_read_def k m)
qed

lemma ATA_read_b_length:
  assumes "ATA_read_b P stack chs drv off n d = Inr (bs, d')"
  shows "length bs \<le> unat n"
proof -
  have "unat (ucast n :: u32) \<le> unat n" by (simp add: unsigned_ucast_eq take_bit_nat_less_eq_self)
  then show ?thesis using assms by (auto simp: ATA_read_b_def Let_def split: if_splits)
qed

section \<open>The contract of a block device\<close>

locale block_device =
  fixes rd :: "u64 \<Rightarrow> u64 \<Rightarrow> u8 list res" and disk :: "nat \<Rightarrow> u8"
  assumes read: "unat off + unat n < 2 ^ 37 \<Longrightarrow> unat n \<le> 129536 \<Longrightarrow>
    rd off n = Inr (map disk [unat off..<unat off + unat n])"
    and short: "rd off n = Inr bs \<Longrightarrow> length bs \<le> unat n"
begin

lemma read_length: "unat off + unat n < 2 ^ 37 \<Longrightarrow> unat n \<le> 129536 \<Longrightarrow> \<exists>bs. rd off n = Inr bs \<and> length bs = unat n"
  by (simp add: read)

lemma read_append:
  assumes "unat off + unat n + unat k < 2 ^ 37" and "unat n + unat k \<le> 129536"
  shows "rbind (rd off n) (\<lambda>xs. rbind (rd (off + n) k) (\<lambda>ys. Inr (xs @ ys))) = rd off (n + k)"
proof -
  have u: "unat (off + n) = unat off + unat n" "unat (n + k) = unat n + unat k"
    using assms unat_add_of_nat [of off "unat n"] unat_add_of_nat [of n "unat k"] by simp_all
  have "rd off n = Inr (map disk [unat off..<unat off + unat n])"
    and "rd (off + n) k = Inr (map disk [unat off + unat n..<unat off + unat n + unat k])"
    and "rd off (n + k) = Inr (map disk [unat off..<unat off + (unat n + unat k)])"
    using assms u by (simp_all add: read)
  then show ?thesis
    using upt_add_eq_append [of "unat off" "unat off + unat n" "unat k"]
    by (simp add: add.assoc flip: map_append)
qed

end

text \<open>The driver on a drive at the primary channel that is ready for a command.\<close>

definition idle_dev :: "(nat \<Rightarrow> u8) \<Rightarrow> ata_dev" where
  "idle_dev disk = \<lparr>dv_disk = disk, dv_lba0 = 0, dv_lba1 = 0, dv_lba2 = 0, dv_select = 0, dv_count = 0, dv_queue = []\<rparr>"

definition ata_disk :: "(nat \<Rightarrow> u8 list) \<Rightarrow> u16 \<Rightarrow> ata_drive \<Rightarrow> (nat \<Rightarrow> u8) \<Rightarrow> u64 \<Rightarrow> u64 \<Rightarrow> u8 list res" where
  "ata_disk stack base drv disk off n =
     rbind (ATA_read_b (ata_ports base) stack [\<lparr>ch_base = base, ch_ctrl = 0x3F6, ch_bus_master = 0\<rparr>]
       (drv\<lparr>ad_ps := 0\<rparr>) off n (idle_dev disk)) (\<lambda>(bs, _). Inr bs)"

interpretation ata: block_device "ata_disk stack base drv disk" disk for stack base drv disk
proof
  fix off n :: u64
  assume "unat off + unat n < 2 ^ 37" and "unat n \<le> 129536"
  then show "ata_disk stack base drv disk off n = Inr (map disk [unat off..<unat off + unat n])"
    using ATA_read_b_ok [of "[\<lparr>ch_base = base, ch_ctrl = 0x3F6, ch_bus_master = 0\<rparr>]" "drv\<lparr>ad_ps := 0\<rparr>" _ "idle_dev disk" off n stack]
    by (auto simp: ata_disk_def idle_dev_def)
next
  fix off n :: u64 and bs
  assume "ata_disk stack base drv disk off n = Inr bs"
  then show "length bs \<le> unat n"
    unfolding ata_disk_def by (auto dest: ATA_read_b_length)
qed

text \<open>A device that also transfers whole blocks.\<close>

locale sector_device = block_device +
  fixes rs :: "u64 \<Rightarrow> u64 \<Rightarrow> u8 list res"
  assumes sectors: "unat blk < 268435456 \<Longrightarrow> 0 < n \<Longrightarrow> n < 256 \<Longrightarrow>
    rs blk n = Inr (map disk [512 * unat blk..<512 * (unat blk + unat n)])"
begin

lemma sector_bytes:
  assumes "unat blk < 1048576"
  shows "rs blk 1 = rd (512 * blk) 512"
proof -
  have u: "unat (512 * blk) = 512 * unat blk" using assms by (simp add: unat_word_ariths)
  have "rs blk 1 = Inr (map disk [512 * unat blk..<512 * (unat blk + 1)])"
    using sectors [of blk 1] assms by simp
  moreover have "rd (512 * blk) 512 = Inr (map disk [512 * unat blk..<512 * unat blk + 512])"
    using read [of "512 * blk" 512] assms by (simp add: u)
  moreover have "512 * (unat blk + 1) = 512 * unat blk + 512" by simp
  ultimately show ?thesis by (simp only:)
qed

end

definition ata_sectors :: "u16 \<Rightarrow> ata_drive \<Rightarrow> (nat \<Rightarrow> u8) \<Rightarrow> u64 \<Rightarrow> u64 \<Rightarrow> u8 list res" where
  "ata_sectors base drv disk blk n =
     rbind (ATA_read (ata_ports base) [\<lparr>ch_base = base, ch_ctrl = 0x3F6, ch_bus_master = 0\<rparr>]
       (drv\<lparr>ad_ps := 0\<rparr>) blk n (idle_dev disk)) (\<lambda>(_, bs, _). Inr bs)"

interpretation ata: sector_device "ata_disk stack base drv disk" disk "ata_sectors base drv disk" for stack base drv disk
proof
  fix blk n :: u64
  assume "unat blk < 268435456" and "0 < n" and "n < 256"
  then obtain d' where "ATA_PIO_read (ata_ports base) base (ad_ms drv) blk n (idle_dev disk) =
      Some (ucast n, map disk [512 * unat blk..<512 * (unat blk + unat n)], d')"
    using ATA_PIO_read_ok [of "idle_dev disk" blk n base "ad_ms drv"] by (auto simp: idle_dev_def)
  then show "ata_sectors base drv disk blk n = Inr (map disk [512 * unat blk..<512 * (unat blk + unat n)])"
    by (simp add: ata_sectors_def ATA_read_def)
qed

section \<open>Property\<close>

text \<open>
  C27. On a drive that follows the standard, reads of bytes through the sector commands return exactly
  the bytes of the disk, wherever they lie in the sectors, and leave the drive ready for the next read.
\<close>

theorem ata_reads_in_sequence:
  assumes "get_at chs (unat (ad_ps drv)) = Inr ch" and "dv_queue d = []"
    and "unat off + unat n < 2 ^ 37" "unat n \<le> 129536" and "unat off' + unat n' < 2 ^ 37" "unat n' \<le> 129536"
  shows "rbind (ATA_read_b (ata_ports (ch_base ch)) stack chs drv off n d) (\<lambda>(xs, d1).
      rbind (ATA_read_b (ata_ports (ch_base ch)) stack chs drv off' n' d1) (\<lambda>(ys, _). Inr (xs, ys))) =
    Inr (map (dv_disk d) [unat off..<unat off + unat n], map (dv_disk d) [unat off'..<unat off' + unat n'])"
proof -
  obtain d1 where 1: "ATA_read_b (ata_ports (ch_base ch)) stack chs drv off n d =
      Inr (map (dv_disk d) [unat off..<unat off + unat n], d1)" "dv_queue d1 = []" "dv_disk d1 = dv_disk d"
    using ATA_read_b_ok [OF assms(1-4)] by blast
  show ?thesis
    using ATA_read_b_ok [OF assms(1) 1(2) assms(5,6), of stack] 1 by auto
qed

theorem ata_reads_in_sequence_witness:
  "rbind (ATA_read_b (ata_ports 0x1F0) (\<lambda>k. replicate k 0) [\<lparr>ch_base = 0x1F0, ch_ctrl = 0x3F6, ch_bus_master = 0\<rparr>]
      \<lparr>ad_mtpts = [], ad_present = 1, ad_ps = 0, ad_ms = 1, ad_type = 0, ad_sig = 0, ad_cap = 0, ad_com = 0,
       ad_sectors = 0, ad_name = []\<rparr> 1000 48 (idle_dev of_nat)) (\<lambda>(xs, d1).
      rbind (ATA_read_b (ata_ports 0x1F0) (\<lambda>k. replicate k 0) [\<lparr>ch_base = 0x1F0, ch_ctrl = 0x3F6, ch_bus_master = 0\<rparr>]
      \<lparr>ad_mtpts = [], ad_present = 1, ad_ps = 0, ad_ms = 1, ad_type = 0, ad_sig = 0, ad_cap = 0, ad_com = 0,
       ad_sectors = 0, ad_name = []\<rparr> 5 2 d1) (\<lambda>(ys, _). Inr (xs, ys))) =
    Inr (map of_nat [unat (1000 :: u64)..<unat (1000 :: u64) + unat (48 :: u64)],
      map of_nat [unat (5 :: u64)..<unat (5 :: u64) + unat (2 :: u64)])"
proof -
  let ?drv = "\<lparr>ad_mtpts = [], ad_present = 1, ad_ps = 0, ad_ms = 1, ad_type = 0, ad_sig = 0, ad_cap = 0, ad_com = 0,
    ad_sectors = 0, ad_name = []\<rparr>" and ?ch = "\<lparr>ch_base = 0x1F0, ch_ctrl = 0x3F6, ch_bus_master = 0\<rparr>"
  have "get_at [?ch] (unat (ad_ps ?drv)) = Inr ?ch" by simp
  note ata_reads_in_sequence [OF this, of "idle_dev of_nat" 1000 48 5 2 "\<lambda>k. replicate k 0"]
  then show ?thesis by (simp add: idle_dev_def del: upt.simps)
qed

text \<open>The test of bit 26 of the command sets, which are read as 16 bits, never succeeds.\<close>

lemma com_bit_26: "(ucast (le16 buf 164) :: u32) AND push_bit 26 1 = 0"
  unfolding push_bit_of_1 and_exp_eq_0_iff_not_bit by (auto simp: bit_simps dest: bit_imp_le_length)

end
