(* ===== verification/Ext2.thy ===== *)
theory Ext2
  imports Ata Vfs
begin

text \<open>
  \<^verbatim>\<open>kernel/fs/ext2fs/ext2.c\<close>, \<^verbatim>\<open>kernel/misc/mbr.c\<close> and the mounting functions of \<^verbatim>\<open>kernel/fs/vfs.c\<close>: reading
  partitions, inodes, directories and files of an ext2 disk. The operations take the reads of the block
  device, \<open>rd\<close> by bytes and \<open>rs\<close> by sectors, whose contracts are the locales of \<open>Ata\<close>. Structures are
  decoded from the bytes read; allocations are taken to succeed.
\<close>

section \<open>The partition table\<close>

record partition_entry =
  pe_attr :: u8
  pe_type :: u8
  pe_lba_start :: u32
  pe_sector_count :: u32

definition partition_at :: "u8 list \<Rightarrow> nat \<Rightarrow> partition_entry" where
  "partition_at bs i = \<lparr>pe_attr = bs ! i, pe_type = bs ! (i + 4), pe_lba_start = le32 bs (i + 8),
     pe_sector_count = le32 bs (i + 12)\<rparr>"

type_synonym reader = "u64 \<Rightarrow> u64 \<Rightarrow> u8 list res"

definition mbr_parse :: "reader \<Rightarrow> partition_entry list res" where
  "mbr_parse rs = rbind (rs 0 1) (\<lambda>bs.
     if length bs < 512 then Inl Wild_access else Inr (map (\<lambda>i. partition_at bs (446 + 16 * i)) [0..<4]))"

text \<open>The partition types of \<^verbatim>\<open>mbr.h\<close>.\<close>

abbreviation (input) MBR_PART_TYPE_LINUX :: u8 where "MBR_PART_TYPE_LINUX \<equiv> 0x83"
abbreviation (input) MBR_PART_TYPE_LINUX_SWAP :: u8 where "MBR_PART_TYPE_LINUX_SWAP \<equiv> 0x82"
abbreviation (input) MBR_PART_TYPE_EXTENDED :: u8 where "MBR_PART_TYPE_EXTENDED \<equiv> 0x5"

definition partition_type_str :: "u8 \<Rightarrow> string" where
  "partition_type_str type =
     (if type = MBR_PART_TYPE_LINUX then ''Linux'' else if type = MBR_PART_TYPE_LINUX_SWAP then ''Linux swap''
      else if type = MBR_PART_TYPE_EXTENDED then ''Extended'' else ''UNKNOWN'')"

section \<open>Structures of the disk\<close>

text \<open>The constants of \<^verbatim>\<open>ext2.h\<close> that the driver uses.\<close>

abbreviation (input) EXT2_SIGNATURE :: u16 where "EXT2_SIGNATURE \<equiv> 0xEF53"
abbreviation (input) EXT2_FS_STATE_ERROR :: u16 where "EXT2_FS_STATE_ERROR \<equiv> 2"
abbreviation (input) EXT2_ERR_PANIC :: u16 where "EXT2_ERR_PANIC \<equiv> 3"
abbreviation (input) EXT2_INODE_TYPE_DIR :: u16 where "EXT2_INODE_TYPE_DIR \<equiv> 0x4000"
abbreviation (input) EXT2_INODE_TYPE_FILE :: u16 where "EXT2_INODE_TYPE_FILE \<equiv> 0x8000"
abbreviation (input) EXT2_DIR_ENTRY_TYPE_DIR :: u8 where "EXT2_DIR_ENTRY_TYPE_DIR \<equiv> 2"
abbreviation (input) EXT2_DIR_ENTRY_TYPE_CHAR_DEV :: u8 where "EXT2_DIR_ENTRY_TYPE_CHAR_DEV \<equiv> 3"
abbreviation (input) EXT2_DIR_ENTRY_TYPE_BLOCK_DEV :: u8 where "EXT2_DIR_ENTRY_TYPE_BLOCK_DEV \<equiv> 4"
abbreviation (input) EXT2_DIR_ENTRY_TYPE_FIFO :: u8 where "EXT2_DIR_ENTRY_TYPE_FIFO \<equiv> 5"
abbreviation (input) EXT2_DIR_ENTRY_TYPE_SOCKET :: u8 where "EXT2_DIR_ENTRY_TYPE_SOCKET \<equiv> 6"
abbreviation (input) EXT2_DIR_ENTRY_TYPE_SYMLINK :: u8 where "EXT2_DIR_ENTRY_TYPE_SYMLINK \<equiv> 7"

record ext2_superblock =
  sb_inodes_count :: u32
  sb_blocks_count :: u32
  sb_log2_block_size :: u32
  sb_blocks_per_group :: u32
  sb_inodes_per_group :: u32
  sb_signature :: u16
  sb_state :: u16
  sb_error_method :: u16
  sb_inode_size :: u16

definition superblock_at :: "u8 list \<Rightarrow> ext2_superblock res" where
  "superblock_at bs = (if length bs < 236 then Inl Wild_access else Inr \<lparr>
     sb_inodes_count = le32 bs 0, sb_blocks_count = le32 bs 4, sb_log2_block_size = le32 bs 24,
     sb_blocks_per_group = le32 bs 32, sb_inodes_per_group = le32 bs 40, sb_signature = le16 bs 56,
     sb_state = le16 bs 58, sb_error_method = le16 bs 60, sb_inode_size = le16 bs 88\<rparr>)"

text \<open>Of a group descriptor (32 bytes) only the start of the inode table is used.\<close>

definition group_at :: "u8 list \<Rightarrow> nat \<Rightarrow> u32" where
  "group_at bs i = le32 bs (32 * i + 8)"

record ext2_inode =
  in_type_permissions :: u16
  in_size :: u32
  in_direct :: "u32 list"
  in_singly :: u32
  in_doubly :: u32
  in_triply :: u32

definition inode_at :: "u8 list \<Rightarrow> ext2_inode res" where
  "inode_at bs = (if length bs < 128 then Inl Wild_access else Inr \<lparr>
     in_type_permissions = le16 bs 0, in_size = le32 bs 4, in_direct = map (\<lambda>i. le32 bs (40 + 4 * i)) [0..<12],
     in_singly = le32 bs 88, in_doubly = le32 bs 92, in_triply = le32 bs 96\<rparr>)"

record ext2_info =
  ei_superblock :: ext2_superblock
  ei_gd :: "u32 list"
  ei_groups_count :: u32
  ei_block_size :: u32

record ext2_fs =
  fs_info :: ext2_info
  fs_p_offset :: u64
  fs_partition :: u8

definition read_ptr :: "reader \<Rightarrow> u64 \<Rightarrow> u32 res" where
  "read_ptr rd offset = rbind (rd offset 4) (\<lambda>bs. if length bs < 4 then Inl Wild_access else Inr (le32 bs 0))"

section \<open>Inodes\<close>

text \<open>The product of the block number and the block size is taken in 32 bits.\<close>

definition ext2_get_inode_offset :: "ext2_info \<Rightarrow> u32 \<Rightarrow> u64 res" where
  "ext2_get_inode_offset e ino =
     (let sb = ei_superblock e in
      if sb_inodes_per_group sb = 0 then Inl Div_by_zero
      else rbind (get_at (ei_gd e) (unat ((ino - 1) div sb_inodes_per_group sb))) (\<lambda>table.
        Inr (ucast (table * ei_block_size e) + ucast ((ino - 1) mod sb_inodes_per_group sb) * ucast (sb_inode_size sb))))"

definition ext2_get_inode :: "reader \<Rightarrow> ext2_fs \<Rightarrow> u32 \<Rightarrow> ext2_inode res" where
  "ext2_get_inode rd fs ino =
     rbind (ext2_get_inode_offset (fs_info fs) ino) (\<lambda>offset.
     rbind (rd (fs_p_offset fs + offset) (ucast (sb_inode_size (ei_superblock (fs_info fs))))) inode_at)"

definition round_up_div :: "u32 \<Rightarrow> u32 \<Rightarrow> u32" where
  "round_up_div a b = a div b + (if a mod b \<noteq> 0 then 1 else 0)"

text \<open>
  \<^term>\<open>None\<close> is the null pointer of a partition without the signature. The shift counts modulo 32, as
  the processor does.
\<close>

definition ext2_init :: "reader \<Rightarrow> reader \<Rightarrow> u8 \<Rightarrow> ext2_fs option res" where
  "ext2_init rd rs pn =
     rbind (mbr_parse rs) (\<lambda>mbr.
     rbind (get_at mbr (unat pn)) (\<lambda>part.
     let offset = ucast (pe_lba_start part * 512) :: u64 in
     rbind (rd (offset + 1024) 236) (\<lambda>bs.
     rbind (superblock_at bs) (\<lambda>sb.
       if sb_signature sb \<noteq> EXT2_SIGNATURE then Inr None
       else if sb_state sb = EXT2_FS_STATE_ERROR \<and> sb_error_method sb = EXT2_ERR_PANIC then Inl (Panic ''EXT2 filesystem not clean'')
       else
         let block_size = push_bit (unat (sb_log2_block_size sb AND 31)) (1024 :: u32) in
         if sb_blocks_per_group sb = 0 \<or> sb_inodes_per_group sb = 0 then Inl Div_by_zero
         else
           let a = round_up_div (sb_blocks_count sb) (sb_blocks_per_group sb);
               b = round_up_div (sb_inodes_count sb) (sb_inodes_per_group sb);
               count = (if a > b then a else b);
               gd_offset = (if block_size = 1024 then 2048 else ucast block_size)
           in rbind (rd (offset + gd_offset) (ucast (count * 32))) (\<lambda>gbs.
              Inr (Some \<lparr>fs_info = \<lparr>ei_superblock = sb, ei_gd = map (group_at gbs) [0..<length gbs div 32],
                  ei_groups_count = count, ei_block_size = block_size\<rparr>,
                fs_p_offset = ucast (pe_lba_start part * 512), fs_partition = pn\<rparr>))))))"

section \<open>Blocks of a file\<close>

definition ext2_get_sbptr_offset :: "reader \<Rightarrow> ext2_fs \<Rightarrow> u32 \<Rightarrow> u32 \<Rightarrow> u64 res" where
  "ext2_get_sbptr_offset rd fs ino index =
     rbind (ext2_get_inode rd fs ino) (\<lambda>inode. let bs = ei_block_size (fs_info fs) in
     rbind (read_ptr rd (fs_p_offset fs + ucast (in_singly inode * bs + index))) (\<lambda>ptr.
     Inr (fs_p_offset fs + ucast (ptr * bs))))"

text \<open>The second read leaves out the offset of the partition.\<close>

definition ext2_get_dbptr_offset :: "reader \<Rightarrow> ext2_fs \<Rightarrow> u32 \<Rightarrow> u32 \<Rightarrow> u32 \<Rightarrow> u64 res" where
  "ext2_get_dbptr_offset rd fs ino index_1 index_2 =
     (let bs = ei_block_size (fs_info fs) in
      rbind (ext2_get_sbptr_offset rd fs ino index_1) (\<lambda>o1.
      rbind (read_ptr rd o1) (\<lambda>ptr_1.
      rbind (read_ptr rd (ucast (ptr_1 * bs + index_2))) (\<lambda>ptr_2.
      Inr (fs_p_offset fs + ucast (ptr_2 * bs))))))"

definition ext2_get_tbptr_offset :: "reader \<Rightarrow> ext2_fs \<Rightarrow> u32 \<Rightarrow> u32 \<Rightarrow> u32 \<Rightarrow> u32 \<Rightarrow> u64 res" where
  "ext2_get_tbptr_offset rd fs ino index_1 index_2 index_3 =
     (let bs = ei_block_size (fs_info fs) in
      rbind (ext2_get_dbptr_offset rd fs ino index_1 index_2) (\<lambda>o2.
      rbind (read_ptr rd o2) (\<lambda>ptr_1.
      rbind (read_ptr rd (ucast (ptr_1 * bs + index_3))) (\<lambda>ptr_2.
      Inr (fs_p_offset fs + ucast (ptr_2 * bs))))))"

text \<open>The result is cut to the 32 bits of the local variable.\<close>

definition ext2_get_block_offset :: "reader \<Rightarrow> ext2_fs \<Rightarrow> u32 \<Rightarrow> u64 \<Rightarrow> u64 res" where
  "ext2_get_block_offset rd fs ino blk =
     (let bs = ei_block_size (fs_info fs); ppb = bs div 4 in
      rbind (ext2_get_inode rd fs ino) (\<lambda>inode.
      if blk < 12 then Inr (ucast (in_direct inode ! unat blk * bs))
      else rbind
        (if blk < ucast (12 + ppb) then ext2_get_sbptr_offset rd fs ino (ucast ((blk - 12) * 4))
         else if blk < ucast (12 + ppb + ppb * ppb) then
           let index = ucast (blk - 12 - ucast ppb) :: u32 in
           if ppb = 0 then Inl Div_by_zero
           else ext2_get_dbptr_offset rd fs ino (index div ppb) (index mod ppb)
         else if blk < ucast (12 + ppb + ppb * ppb + ppb * ppb * ppb) then
           let index = ucast (blk - 12 - ucast ppb - ucast (ppb * ppb)) :: u32 in
           if ppb * ppb = 0 then Inl Div_by_zero
           else let tmp = index mod (ppb * ppb)
                in ext2_get_tbptr_offset rd fs ino (index div (ppb * ppb)) (tmp div ppb) (tmp mod ppb)
         else Inr 0) (\<lambda>offset. Inr (ucast (ucast offset :: u32)))))"

section \<open>Directories\<close>

record dirent =
  de_inode_number :: u32
  de_size :: u64
  de_type :: u8
  de_permissions :: u16
  de_name :: string

record dirstream =
  ds_inode_number :: u32
  ds_block :: "u8 list"
  ds_bp_index :: u32
  ds_so_far :: u32
  ds_next :: u32
  ds_ent :: dirent

text \<open>
  \<open>memset(dir, 0, sizeof(dir))\<close> clears four bytes: the index of the block and the entry keep what the
  memory held (\<open>garbage\<close>). The position \<open>ds_next\<close> is an offset in the block.
\<close>

definition ext2_opendir :: "dirstream \<Rightarrow> reader \<Rightarrow> ext2_fs \<Rightarrow> u32 \<Rightarrow> dirstream option res" where
  "ext2_opendir garbage rd fs ino =
     rbind (ext2_get_inode rd fs ino) (\<lambda>inode. let bs = ei_block_size (fs_info fs) in
       if in_type_permissions inode AND EXT2_INODE_TYPE_DIR = 0 then Inr None
       else rbind (rd (fs_p_offset fs + ucast (in_direct inode ! 0 * bs)) (ucast bs)) (\<lambda>block.
         Inr (Some (garbage\<lparr>ds_inode_number := ino, ds_block := block, ds_next := 0, ds_so_far := 0\<rparr>))))"

definition ext2_make_dirent :: "reader \<Rightarrow> ext2_fs \<Rightarrow> dirstream \<Rightarrow> nat \<Rightarrow> dirstream res" where
  "ext2_make_dirent rd fs dir e =
     (let b = ds_block dir; entry_size = ucast (le16 b (e + 4)); len = unat (b ! (e + 6)) in
      if length b < e + 8 + len then Inl Wild_access
      else rbind (ext2_get_inode rd fs (le32 b e)) (\<lambda>inode.
        Inr (dir\<lparr>ds_next := of_nat e + entry_size, ds_so_far := ds_so_far dir + entry_size,
          ds_ent := \<lparr>de_inode_number = le32 b e, de_size = ucast (in_size inode), de_type = b ! (e + 7),
            de_permissions = in_type_permissions inode,
            de_name = map (\<lambda>c. char_of (unat c)) (takeWhile (\<lambda>c. c \<noteq> 0) (take len (drop (e + 8) b)))\<rparr>\<rparr>)))"

text \<open>\<^term>\<open>None\<close> is the null pointer at the end; an entry without an inode ends the directory, too.\<close>

partial_function (option) ext2_readdir :: "reader \<Rightarrow> ext2_fs \<Rightarrow> dirstream \<Rightarrow> (dirent option \<times> dirstream) res option" where
  "ext2_readdir rd fs dir =
     (if ds_so_far dir < ei_block_size (fs_info fs) then
        let e = unat (ds_next dir) in
        Some (if length (ds_block dir) < e + 8 then Inl Wild_access
              else if le32 (ds_block dir) e = 0 then Inr (None, dir)
              else rbind (ext2_make_dirent rd fs dir e) (\<lambda>d1. Inr (Some (ds_ent d1), d1)))
      else
        let d1 = dir\<lparr>ds_bp_index := ds_bp_index dir + 1\<rparr> in
        case ext2_get_block_offset rd fs (ds_inode_number d1) (ucast (ds_bp_index d1)) of Inl x \<Rightarrow> Some (Inl x)
        | Inr b_offset \<Rightarrow>
            if b_offset = 0 then Some (Inr (None, d1))
            else case rd (fs_p_offset fs + b_offset) (ucast (ei_block_size (fs_info fs))) of Inl x \<Rightarrow> Some (Inl x)
              | Inr block \<Rightarrow> ext2_readdir rd fs (d1\<lparr>ds_block := block, ds_next := 0, ds_so_far := 0\<rparr>))"

section \<open>Files\<close>

definition store_bytes :: "mem \<Rightarrow> u32 \<Rightarrow> u8 list \<Rightarrow> mem" where
  "store_bytes m a bs = (\<lambda>x. if unat (x - a) < length bs then bs ! unat (x - a) else m x)"

text \<open>
  The loop over the blocks: \<open>n\<close> blocks from \<open>blk\<close> on. Every transfer goes to the start of the buffer, and
  only the first block is transferred; a missing block ends the loop with \<^term>\<open>False\<close>.
\<close>

fun read_blocks :: "reader \<Rightarrow> ext2_fs \<Rightarrow> u32 \<Rightarrow> u32 \<Rightarrow> u64 \<Rightarrow> u64 \<Rightarrow> u32 \<Rightarrow> u32 \<Rightarrow> nat \<Rightarrow> u64 \<Rightarrow> mem \<Rightarrow> (bool \<times> mem) res" where
  "read_blocks rd fs ino start_offset block_start block_end end_offset buffer 0 blk m = Inr (True, m)"
| "read_blocks rd fs ino start_offset block_start block_end end_offset buffer (Suc n) blk m =
     rbind (ext2_get_block_offset rd fs ino blk) (\<lambda>b_offset.
       if b_offset = 0 then Inr (False, m)
       else rbind
         (if blk = block_start then
            rbind (rd (fs_p_offset fs + b_offset + ucast start_offset) (ucast (ei_block_size (fs_info fs)) - ucast start_offset))
              (\<lambda>bs. Inr (store_bytes m buffer bs))
          else if blk = block_end then
            rbind (rd (fs_p_offset fs + b_offset + ucast end_offset) (ucast end_offset)) (\<lambda>bs. Inr (store_bytes m buffer bs))
          else Inr m) (\<lambda>m1.
         read_blocks rd fs ino start_offset block_start block_end end_offset buffer n (blk + 1) m1))"

definition ext2_readfile :: "reader \<Rightarrow> ext2_fs \<Rightarrow> u32 \<Rightarrow> u64 \<Rightarrow> u64 \<Rightarrow> u32 \<Rightarrow> mem \<Rightarrow> (u32 \<times> mem) res" where
  "ext2_readfile rd fs ino offset n buffer m =
     (if n = 0 then Inr (0, m)
      else rbind (ext2_get_inode rd fs ino) (\<lambda>inode.
        if in_type_permissions inode AND EXT2_INODE_TYPE_FILE = 0 then Inr (0, m)
        else if in_size inode = 0 \<or> n > ucast (in_size inode) then Inr (0, m)
        else
          let stop = (if offset + n > ucast (in_size inode) then ucast (in_size inode) else offset + n);
              bs = ucast (ei_block_size (fs_info fs)) :: u64
          in if bs = 0 then Inl Div_by_zero
             else
               let block_start = offset div bs; block_end = stop div bs; start_offset = ucast (offset mod bs) :: u32;
                   end_offset = ucast (stop mod bs) :: u32
               in if block_start = block_end then
                    rbind (ext2_get_block_offset rd fs ino block_start) (\<lambda>b_offset.
                    rbind (rd (fs_p_offset fs + b_offset + ucast start_offset) n) (\<lambda>xs. Inr (ucast n, store_bytes m buffer xs)))
                  else
                    rbind (read_blocks rd fs ino start_offset block_start block_end end_offset buffer
                             (unat block_end - unat block_start) block_start m) (\<lambda>(ok, m1).
                      if \<not> ok then Inr (0, m1) else Inr (ucast n, m1(buffer + in_size inode := 0)))))"

definition ext2_vfs_read :: "reader \<Rightarrow> ext2_fs \<Rightarrow> vfile \<Rightarrow> u32 \<Rightarrow> u32 \<Rightarrow> u32 \<Rightarrow> mem \<Rightarrow> (u32 \<times> mem) res" where
  "ext2_vfs_read rd fs node offset n buffer m = ext2_readfile rd fs (vf_inode node) (ucast offset) (ucast n) buffer m"

section \<open>Mounting\<close>


definition ext2_type_translate :: "u8 \<Rightarrow> u8" where
  "ext2_type_translate type =
     (if type = EXT2_DIR_ENTRY_TYPE_DIR then VFS_DIR
      else if type = EXT2_DIR_ENTRY_TYPE_CHAR_DEV then VFS_CDEV
      else if type = EXT2_DIR_ENTRY_TYPE_BLOCK_DEV then VFS_BDEV
      else if type = EXT2_DIR_ENTRY_TYPE_FIFO then VFS_PIPE
      else if type = EXT2_DIR_ENTRY_TYPE_SOCKET then VFS_SOCKET
      else if type = EXT2_DIR_ENTRY_TYPE_SYMLINK then VFS_SYMLNK
      else VFS_FILE)"

definition add_entry :: "vnode \<Rightarrow> vfile \<Rightarrow> u32 \<Rightarrow> u32 \<Rightarrow> vfs \<Rightarrow> u32 \<Rightarrow> dirent \<Rightarrow> (u32 \<times> vfs) res" where
  "add_entry gn gf fs_ptr fn s root ent =
     rbind (vfs_add_child gn gf s root (de_name ent) (ext2_type_translate (de_type ent))) (\<lambda>(n, s1).
     rbind (upd_node_file s1 n (\<lambda>f. f\<lparr>vf_permissions := de_permissions ent, vf_fs := fs_ptr,
       vf_inode := de_inode_number ent, vf_read := fn, vf_size := ucast (de_size ent)\<rparr>)) (\<lambda>s2. Inr (n, s2)))"

text \<open>
  \<open>gdir\<close> is what the memory of a directory stream held, \<open>fs_ptr\<close> and \<open>fn\<close> the addresses of the file system
  object and of the read operation. A null stream is dereferenced.
\<close>

partial_function (option) ext2_populate ::
    "dirstream \<Rightarrow> vnode \<Rightarrow> vfile \<Rightarrow> u32 \<Rightarrow> u32 \<Rightarrow> reader \<Rightarrow> ext2_fs \<Rightarrow> vfs \<Rightarrow> u32 \<Rightarrow> dirstream \<Rightarrow> vfs res option" where
  "ext2_populate gdir gn gf fs_ptr fn rd fs s root dir =
     Option.bind (ext2_readdir rd fs dir) (\<lambda>r. case r of Inl x \<Rightarrow> Some (Inl x) | Inr (entry, dir1) \<Rightarrow>
       (case entry of None \<Rightarrow> Some (Inr s)
        | Some ent \<Rightarrow>
            if de_name ent = ''.'' \<or> de_name ent = ''..'' then ext2_populate gdir gn gf fs_ptr fn rd fs s root dir1
            else case add_entry gn gf fs_ptr fn s root ent of Inl x \<Rightarrow> Some (Inl x)
              | Inr (n, s1) \<Rightarrow>
                  if ext2_type_translate (de_type ent) = VFS_DIR then
                    (case ext2_opendir gdir rd fs (de_inode_number ent) of Inl x \<Rightarrow> Some (Inl x)
                     | Inr None \<Rightarrow> Some (Inl Null_deref)
                     | Inr (Some sub) \<Rightarrow>
                         Option.bind (ext2_populate gdir gn gf fs_ptr fn rd fs s1 n sub) (\<lambda>r1.
                           case r1 of Inl x \<Rightarrow> Some (Inl x)
                           | Inr s2 \<Rightarrow> ext2_populate gdir gn gf fs_ptr fn rd fs s2 root dir1))
                  else ext2_populate gdir gn gf fs_ptr fn rd fs s1 root dir1))"

definition vfs_mount_ext2 :: "dirstream \<Rightarrow> vnode \<Rightarrow> vfile \<Rightarrow> u32 \<Rightarrow> u32 \<Rightarrow> reader \<Rightarrow> ext2_fs \<Rightarrow> vfs \<Rightarrow> u32 \<Rightarrow> (u8 \<times> vfs) res" where
  "vfs_mount_ext2 gdir gn gf fs_ptr fn rd fs s mtpt =
     rbind (ext2_opendir gdir rd fs 2) (\<lambda>dir.
       case dir of None \<Rightarrow> Inl Null_deref
       | Some d \<Rightarrow> rbind (returned (ext2_populate gdir gn gf fs_ptr fn rd fs s mtpt d)) (\<lambda>s1. Inr (0, s1)))"

text \<open>A path that is the null pointer is only read when there is something to mount.\<close>

definition vfs_mount_partition :: "dirstream \<Rightarrow> vnode \<Rightarrow> vfile \<Rightarrow> u32 \<Rightarrow> u32 \<Rightarrow> reader \<Rightarrow> reader \<Rightarrow> ata_drive \<Rightarrow> vfs \<Rightarrow>
    u8 \<Rightarrow> string option \<Rightarrow> u32 \<Rightarrow> (u8 \<times> ata_drive \<times> vfs) res" where
  "vfs_mount_partition gdir gn gf fs_ptr fn rd rs drv s pn path rel =
     rbind (get_at (ad_mtpts drv) (unat pn)) (\<lambda>mounted.
       if mounted \<noteq> 0 then Inr (255, drv, s)
       else
         rbind (mbr_parse rs) (\<lambda>mbr.
         rbind (get_at mbr (unat pn)) (\<lambda>part.
           if pe_type part \<noteq> MBR_PART_TYPE_LINUX then Inr (1, drv, s)
           else rbind (ext2_init rd rs pn) (\<lambda>fs.
             case fs of None \<Rightarrow> Inr (1, drv, s)
             | Some f \<Rightarrow>
                 rbind (case path of None \<Rightarrow> Inl Null_deref | Some x \<Rightarrow> vfs_node_from_path s rel x) (\<lambda>mtpt.
                   if mtpt = 0 then Inr (2, drv, s)
                   else rbind (deref (vs_nodes s) mtpt) (\<lambda>n.
                     if vn_childs n \<noteq> 0 then Inr (3, drv, s)
                     else rbind (vfs_mount_ext2 gdir gn gf fs_ptr fn rd f s mtpt) (\<lambda>(result, s1).
                       if result \<noteq> 0 then Inr (result, drv, s1)
                       else rbind (upd_node_file s1 mtpt (\<lambda>x. x\<lparr>vf_type := VFS_MTPT\<rparr>)) (\<lambda>s2.
                            Inr (result, drv\<lparr>ad_mtpts := (ad_mtpts drv)[unat pn := mtpt]\<rparr>, s2)))))))))"

definition vfs_umount_partition :: "ata_drive \<Rightarrow> vfs \<Rightarrow> u8 \<Rightarrow> (u8 \<times> ata_drive \<times> vfs) res" where
  "vfs_umount_partition drv s pn =
     rbind (get_at (ad_mtpts drv) (unat pn)) (\<lambda>mtpt.
       if mtpt = 0 then Inr (1, drv, s)
       else rbind (vfs_free_child_nodes s mtpt) (\<lambda>s1.
            rbind (upd_node_file s1 mtpt (\<lambda>x. x\<lparr>vf_type := VFS_DIR\<rparr>)) (\<lambda>s2.
            Inr (0, drv\<lparr>ad_mtpts := (ad_mtpts drv)[unat pn := 0]\<rparr>, s2))))"

section \<open>Reading files\<close>

lemma unat_ucast_64: "unat (ucast (x :: u32) :: u64) = unat x"
  using unat_u32_less [of x] by (simp add: unsigned_ucast_eq take_bit_nat_eq_self)

lemma store_bytes_frame: "\<not> in_region a (length bs) x \<Longrightarrow> store_bytes m a bs x = m x"
  by (simp add: store_bytes_def in_region_def)

lemma bytes_store_bytes: "length bs < 4294967296 \<Longrightarrow> bytes (store_bytes m a bs) a (length bs) = bs"
  by (rule nth_equalityI) (simp_all add: store_bytes_def unat_of_nat_u32)

lemma in_region_mono: "in_region a k x \<Longrightarrow> k \<le> n \<Longrightarrow> in_region a n x"
  by (simp add: in_region_def)

context block_device
begin

text \<open>A range inside one of the first twelve blocks.\<close>

lemma readfile_in_block:
  assumes ino: "ext2_get_inode rd fs ino = Inr inode" "in_type_permissions inode AND 0x8000 \<noteq> 0"
    and n: "0 < n" "unat off + unat n \<le> unat (in_size inode)" "unat n \<le> 129536"
    and bs: "bs = ei_block_size (fs_info fs)" "0 < bs"
    and blk: "b < 12" "unat off div unat bs = b" "(unat off + unat n) div unat bs = b"
    and ptr: "unat (in_direct inode ! b) * unat bs < 2 ^ 32"
    and lim: "unat (fs_p_offset fs) + unat (in_direct inode ! b) * unat bs + unat bs + 129536 < 2 ^ 37"
  shows "ext2_readfile rd fs ino off n buffer m = Inr (ucast n, store_bytes m buffer
    (map disk [unat (fs_p_offset fs) + unat (in_direct inode ! b) * unat bs + unat off mod unat bs..<
      unat (fs_p_offset fs) + unat (in_direct inode ! b) * unat bs + unat off mod unat bs + unat n]))"
proof -
  let ?B = "ucast bs :: u64"
  have B: "unat ?B = unat bs" "?B \<noteq> 0" using bs(2) by (auto simp: unat_ucast_64 word_less_nat_alt unat_eq_0 [symmetric])
  have size: "unat (ucast (in_size inode) :: u64) = unat (in_size inode)" by (rule unat_ucast_64)
  have sum: "unat (off + n) = unat off + unat n"
    using unat_add_of_nat [of off "unat n"] n(2) unat_u32_less [of "in_size inode"] by simp
  have guards: "\<not> ucast (in_size inode) < n" "\<not> ucast (in_size inode) < off + n" "in_size inode \<noteq> 0" "n \<noteq> 0"
    using n size sum by (auto simp: word_less_nat_alt)
  have start: "unat (off div ?B) = b" and stop: "unat ((off + n) div ?B) = b"
    using blk B sum by (simp_all add: unat_div)
  then have same: "off div ?B = (off + n) div ?B" by (simp add: word_unat_eq_iff)
  have lt: "unat off mod unat bs < unat bs" using bs(2) by (simp add: word_less_nat_alt)
  have so: "unat (ucast (ucast (off mod ?B) :: u32) :: u64) = unat off mod unat bs"
    using lt unat_u32_less [of bs] by (subst unat_ucast_64) (simp add: unsigned_ucast_eq take_bit_eq_mod unat_mod B)
  have po: "unat (ucast (in_direct inode ! b * bs) :: u64) = unat (in_direct inode ! b) * unat bs"
    using ptr by (subst unat_ucast_64) (simp add: unat_word_ariths)
  have "off div ?B < 12" using start blk(1) by (simp add: word_less_nat_alt)
  then have bo: "ext2_get_block_offset rd fs ino (off div ?B) = Inr (ucast (in_direct inode ! b * bs))"
    using ino(1) start by (simp add: ext2_get_block_offset_def bs(1) [symmetric] Let_def)
  have "unat (fs_p_offset fs + ucast (in_direct inode ! b * bs) + ucast (ucast (off mod ?B) :: u32)) =
      unat (fs_p_offset fs) + unat (in_direct inode ! b) * unat bs + unat off mod unat bs"
    using lim lt unat_add_of_nat [of "fs_p_offset fs" "unat (in_direct inode ! b) * unat bs"]
      unat_add_of_nat [of "fs_p_offset fs + ucast (in_direct inode ! b * bs)" "unat off mod unat bs"]
    by (simp flip: po so)
  then have "rd (fs_p_offset fs + ucast (in_direct inode ! b * bs) + ucast (ucast (off mod ?B) :: u32)) n =
      Inr (map disk [unat (fs_p_offset fs) + unat (in_direct inode ! b) * unat bs + unat off mod unat bs..<
        unat (fs_p_offset fs) + unat (in_direct inode ! b) * unat bs + unat off mod unat bs + unat n])"
    using lim lt n(3) by (subst read) simp_all
  then show ?thesis
    using ino guards B(2) same bo by (simp add: ext2_readfile_def bs(1) [symmetric] Let_def)
qed

lemma read_blocks_frame:
  assumes "read_blocks rd fs ino so bstart bend eo buffer n blk m = Inr (ok, m')"
    and "unat eo \<le> unat (ei_block_size (fs_info fs))" and "unat so \<le> unat (ei_block_size (fs_info fs))"
    and "\<not> in_region buffer (unat (ei_block_size (fs_info fs))) a"
  shows "m' a = m a"
  using assms(1)
proof (induction n arbitrary: blk m)
  case (Suc n)
  let ?bs = "ei_block_size (fs_info fs)"
  have len: "length xs \<le> unat ?bs" if "rd o1 (ucast ?bs - ucast so) = Inr xs \<or> rd o1 (ucast eo) = Inr xs" for o1 xs
  proof -
    have "unat (ucast ?bs - ucast so :: u64) \<le> unat ?bs"
      using assms(3) by (subst unat_sub) (simp_all add: word_le_nat_alt unat_ucast_64)
    moreover have "unat (ucast eo :: u64) \<le> unat ?bs" using assms(2) by (simp add: unat_ucast_64)
    ultimately show ?thesis using that short by (meson order.trans)
  qed
  have keep: "store_bytes m buffer xs a = m a"
    if "rd o1 (ucast ?bs - ucast so) = Inr xs \<or> rd o1 (ucast eo) = Inr xs" for o1 xs
    using store_bytes_frame [of buffer xs a m] len [OF that] assms(4) in_region_mono by blast
  obtain r where r: "ext2_get_block_offset rd fs ino blk = Inr r" using Suc.prems by auto
  show ?case
  proof (cases "r = 0")
    case False
    then obtain m1 where "read_blocks rd fs ino so bstart bend eo buffer n (blk + 1) m1 = Inr (ok, m')" "m1 a = m a"
      using Suc.prems r keep by (auto split: if_splits)
    then show ?thesis using Suc.IH by metis
  qed (use Suc.prems r in simp)
qed simp

end

section \<open>Properties\<close>

text \<open>
  A disk with the inode table in block 1: inode 1 is a regular file of 1500 bytes in the blocks 2 and 3
  of 1024 bytes.
\<close>

definition demo_disk :: "nat \<Rightarrow> u8" where
  "demo_disk a = (if a = 1025 then 0x80 else if a = 1028 then 0xDC else if a = 1029 then 5 else if a = 1064 then 2
     else if a = 1068 then 3 else if a < 2048 then 0 else of_nat a)"

definition demo_drive :: ata_drive where
  "demo_drive = \<lparr>ad_mtpts = [0, 0, 0, 0], ad_present = 1, ad_ps = 0, ad_ms = 1, ad_type = 0, ad_sig = 0, ad_cap = 0,
     ad_com = 0, ad_sectors = 64, ad_name = []\<rparr>"

definition demo_rd :: reader where
  "demo_rd = ata_disk (\<lambda>k. replicate k 0) 0x1F0 demo_drive demo_disk"

definition demo_ext2 :: ext2_fs where
  "demo_ext2 = \<lparr>fs_info = \<lparr>ei_superblock = \<lparr>sb_inodes_count = 8, sb_blocks_count = 64, sb_log2_block_size = 0,
     sb_blocks_per_group = 64, sb_inodes_per_group = 8, sb_signature = 0xEF53, sb_state = 1, sb_error_method = 1,
     sb_inode_size = 128\<rparr>, ei_gd = [1], ei_groups_count = 1, ei_block_size = 1024\<rparr>, fs_p_offset = 0, fs_partition = 0\<rparr>"

definition demo_inode :: ext2_inode where
  "demo_inode = \<lparr>in_type_permissions = 0x8000, in_size = 1500, in_direct = [2, 3, 0, 0, 0, 0, 0, 0, 0, 0, 0, 0],
     in_singly = 0, in_doubly = 0, in_triply = 0\<rparr>"

lemma demo_read: "demo_rd 1024 128 = Inr (map demo_disk [1024..<1152])"
  unfolding demo_rd_def by (subst ata.read) simp_all

lemma demo_get_inode: "ext2_get_inode demo_rd demo_ext2 1 = Inr demo_inode"
proof -
  have "demo_disk a = 0" if "a < 2048" "a \<noteq> 1025" "a \<noteq> 1028" "a \<noteq> 1029" "a \<noteq> 1064" "a \<noteq> 1068" for a
    using that by (simp add: demo_disk_def)
  moreover have "demo_disk 1025 = 0x80" "demo_disk 1028 = 0xDC" "demo_disk 1029 = 5" "demo_disk 1064 = 2" "demo_disk 1068 = 3"
    by (simp_all add: demo_disk_def)
  moreover have "[0..<12] = [0, 1, 2, 3, 4, 5, 6, 7, 8, 9, 10, 11 :: nat]" by code_simp
  ultimately have "inode_at (map demo_disk [1024..<1152]) = Inr demo_inode"
    by (simp add: inode_at_def le16_def le32_def demo_inode_def del: upt_rec_numeral)
  then show ?thesis
    using demo_read by (simp add: ext2_get_inode_def ext2_get_inode_offset_def demo_ext2_def)
qed

lemma demo_rd_ata: "ata_disk (\<lambda>k. replicate k 0) 0x1F0 demo_drive demo_disk = demo_rd"
  by (simp add: demo_rd_def)

text \<open>
  C28. Reading a range of a regular file that lies inside one of its first twelve blocks stores exactly
  the bytes of the disk at the block's place in the partition, through the driver and from the drive.
\<close>

theorem ext2_read_in_block:
  assumes "ext2_get_inode (ata_disk stack base drv disk) fs ino = Inr inode" "in_type_permissions inode AND 0x8000 \<noteq> 0"
    and "0 < n" "unat off + unat n \<le> unat (in_size inode)" "unat n \<le> 129536"
    and "bs = ei_block_size (fs_info fs)" "0 < bs"
    and "b < 12" "unat off div unat bs = b" "(unat off + unat n) div unat bs = b"
    and "unat (in_direct inode ! b) * unat bs < 2 ^ 32"
    and "unat (fs_p_offset fs) + unat (in_direct inode ! b) * unat bs + unat bs + 129536 < 2 ^ 37"
  shows "\<exists>m'. ext2_readfile (ata_disk stack base drv disk) fs ino off n buffer m = Inr (ucast n, m') \<and>
    bytes m' buffer (unat n) = map disk
      [unat (fs_p_offset fs) + unat (in_direct inode ! b) * unat bs + unat off mod unat bs..<
       unat (fs_p_offset fs) + unat (in_direct inode ! b) * unat bs + unat off mod unat bs + unat n]"
  using ata.readfile_in_block [OF assms] assms(5)
    bytes_store_bytes [of "map disk [unat (fs_p_offset fs) + unat (in_direct inode ! b) * unat bs + unat off mod unat bs..<
       unat (fs_p_offset fs) + unat (in_direct inode ! b) * unat bs + unat off mod unat bs + unat n]" m buffer]
  by simp

theorem ext2_read_in_block_witness:
  "\<exists>m'. ext2_readfile demo_rd demo_ext2 1 10 20 0x5000 (\<lambda>_. 0) = Inr (ucast (20 :: u64), m') \<and>
    bytes m' 0x5000 (unat (20 :: u64)) = map demo_disk
      [unat (fs_p_offset demo_ext2) + unat (in_direct demo_inode ! 0) * unat (1024 :: u32) + unat (10 :: u64) mod unat (1024 :: u32)..<
       unat (fs_p_offset demo_ext2) + unat (in_direct demo_inode ! 0) * unat (1024 :: u32) + unat (10 :: u64) mod unat (1024 :: u32) +
       unat (20 :: u64)]"
  unfolding demo_rd_def
  by (rule ext2_read_in_block) (simp_all add: demo_rd_ata demo_get_inode del: upt_rec_numeral, simp_all add: demo_inode_def demo_ext2_def)

text \<open>
  C29. A read that extends over more than one block stores at most one block, whatever the number of
  bytes it reports: no byte of the buffer behind the first block is written, except a final zero.
\<close>

theorem ext2_read_stores_one_block:
  assumes run: "ext2_readfile (ata_disk stack base drv disk) fs ino off n buffer m = Inr (k, m')"
    and ino: "ext2_get_inode (ata_disk stack base drv disk) fs ino = Inr inode"
    and n: "unat off + unat n \<le> unat (in_size inode)"
    and bs: "bs = ei_block_size (fs_info fs)"
    and two: "unat off div unat bs \<noteq> (unat off + unat n) div unat bs"
    and a: "\<not> in_region buffer (unat bs) a" "a \<noteq> buffer + in_size inode"
  shows "m' a = m a"
proof -
  let ?B = "ucast bs :: u64"
  have B: "unat ?B = unat bs" by (rule unat_ucast_64)
  have sum: "unat (off + n) = unat off + unat n"
    using unat_add_of_nat [of off "unat n"] n unat_u32_less [of "in_size inode"] by simp
  have ne: "off div ?B \<noteq> (off + n) div ?B"
    using two by (metis B sum unat_div)
  have rest: "unat (ucast (x mod ?B) :: u32) \<le> unat bs" for x
  proof (cases "unat bs = 0")
    case False
    then have "unat x mod unat bs < unat bs" by simp
    then show ?thesis using unat_u32_less [of bs] by (simp add: unsigned_ucast_eq take_bit_eq_mod unat_mod B)
  qed (use two in simp)
  have stop: "(if ucast (in_size inode) < off + n then ucast (in_size inode) else off + n) = off + n"
    using n by (simp add: word_less_nat_alt unat_ucast_64 sum)
  show ?thesis
    using run ino ne rest a ata.read_blocks_frame [of stack base drv disk fs ino, OF _ _ _ a(1) [unfolded bs]]
    by (auto simp: ext2_readfile_def Let_def stop bs [symmetric] split: if_splits)
qed

theorem ext2_read_stores_one_block_witness:
  "\<exists>m'. ext2_readfile demo_rd demo_ext2 1 0 1500 0x5000 (\<lambda>_. 9) = Inr (1500, m') \<and> m' (0x5000 + 1200) = 9"
proof -
  have "ext2_get_block_offset demo_rd demo_ext2 1 0 = Inr 2048"
    using demo_get_inode by (simp add: ext2_get_block_offset_def demo_inode_def demo_ext2_def Let_def)
  moreover have "demo_rd 2048 1024 = Inr (map demo_disk [2048..<3072])"
    unfolding demo_rd_def by (subst ata.read) simp_all
  ultimately obtain m' where run: "ext2_readfile demo_rd demo_ext2 1 0 1500 0x5000 (\<lambda>_. 9) = Inr (1500, m')"
    using demo_get_inode by (simp add: ext2_readfile_def demo_inode_def demo_ext2_def Let_def del: upt_rec_numeral)
  have "m' (0x5000 + 1200) = (\<lambda>_. 9 :: u8) (0x5000 + 1200 :: u32)"
    by (rule ext2_read_stores_one_block [where bs = 1024, OF run [unfolded demo_rd_def] demo_get_inode [unfolded demo_rd_def]])
      (simp_all add: demo_inode_def demo_ext2_def in_region_def)
  then show ?thesis using run by blast
qed

end
