(* ===== verification/Libc_String.thy ===== *)
theory Libc_String
  imports Libk_String
begin

text \<open>
  \<^verbatim>\<open>libc/string/string.c\<close>: the string functions of user programs. Characters are signed and widened to
  \<^verbatim>\<open>int\<close> where the code compares them with one. Loops that \<open>Libk_String\<close> already models, written the
  same way in the kernel's library, are used again; the others are shown to compute the same.
\<close>

section \<open>Blocks\<close>

definition libc_memcpy :: "mem \<Rightarrow> u32 \<Rightarrow> u32 \<Rightarrow> u32 \<Rightarrow> u32 \<times> mem" where
  "libc_memcpy m s1 s2 n = (s1, copy_up m s1 s2 (unat n))"

text \<open>The bytes pass through a local array.\<close>

definition libc_memmove :: "mem \<Rightarrow> u32 \<Rightarrow> u32 \<Rightarrow> u32 \<Rightarrow> u32 \<times> mem" where
  "libc_memmove m s1 s2 n = (s1, write_all m s1 (bytes m s2 (unat n)))"

fun libc_memcmp_loop :: "mem \<Rightarrow> u32 \<Rightarrow> u32 \<Rightarrow> nat \<Rightarrow> int" where
  "libc_memcmp_loop m p1 p2 0 = 0"
| "libc_memcmp_loop m p1 p2 (Suc n) =
     (if sint (m p1) < sint (m p2) then - 1
      else if sint (m p1) > sint (m p2) then 1
      else libc_memcmp_loop m (p1 + 1) (p2 + 1) n)"

definition libc_memcmp :: "mem \<Rightarrow> u32 \<Rightarrow> u32 \<Rightarrow> u32 \<Rightarrow> int" where
  "libc_memcmp m s1 s2 n = libc_memcmp_loop m s1 s2 (unat n)"

definition libc_memset :: "mem \<Rightarrow> u32 \<Rightarrow> u32 \<Rightarrow> u32 \<Rightarrow> u32 \<times> mem" where
  "libc_memset m s c n = (s, fill m s (ucast c) (unat n))"

text \<open>A count of 0 wraps around before it is tested.\<close>

definition loop_count :: "u32 \<Rightarrow> nat" where
  "loop_count n = (if n = 0 then 2 ^ 32 else unat n)"

fun libc_memchr_loop :: "mem \<Rightarrow> u32 \<Rightarrow> u32 \<Rightarrow> nat \<Rightarrow> u32" where
  "libc_memchr_loop m p c 0 = 0"
| "libc_memchr_loop m p c (Suc k) =
     (if scast (m p) \<noteq> c then (if k = 0 then 0 else libc_memchr_loop m (p + 1) c k) else p)"

definition libc_memchr :: "mem \<Rightarrow> u32 \<Rightarrow> u32 \<Rightarrow> u32 \<Rightarrow> u32" where
  "libc_memchr m s c n = libc_memchr_loop m s c (loop_count n)"

section \<open>Copying and comparing strings\<close>

definition libc_strlen :: "mem \<Rightarrow> u32 \<Rightarrow> u32 option" where
  "libc_strlen m s = strlen_loop m s 0"

definition libc_strcpy :: "mem \<Rightarrow> u32 \<Rightarrow> u32 \<Rightarrow> (u32 \<times> mem) option" where
  "libc_strcpy m s1 s2 = map_option (\<lambda>m'. (s1, m')) (strcpy_loop m s1 s2)"

fun strncpy_loop :: "mem \<Rightarrow> u32 \<Rightarrow> u32 \<Rightarrow> nat \<Rightarrow> mem" where
  "strncpy_loop m d s 0 = m"
| "strncpy_loop m d s (Suc k) =
     (let m1 = m(d := m s) in
      if m s = 0 then fill m1 (d + 1) 0 k else strncpy_loop m1 (d + 1) (s + 1) k)"

definition libc_strncpy :: "mem \<Rightarrow> u32 \<Rightarrow> u32 \<Rightarrow> u32 \<Rightarrow> u32 \<times> mem" where
  "libc_strncpy m s1 s2 n = (s1, strncpy_loop m s1 s2 (loop_count n))"

definition libc_strcat :: "mem \<Rightarrow> u32 \<Rightarrow> u32 \<Rightarrow> (u32 \<times> mem) option" where
  "libc_strcat m s1 s2 =
     Option.bind (libc_strlen m s1) (\<lambda>n.
     Option.bind (libc_strcpy m (s1 + n) s2) (\<lambda>(_, m'). Some (s1, m')))"

partial_function (option) find_end :: "mem \<Rightarrow> u32 \<Rightarrow> u32 option" where
  "find_end m d = (if m d \<noteq> 0 then find_end m (d + 1) else Some d)"

text \<open>The result is the memory and the place of the terminator.\<close>

fun strncat_loop :: "mem \<Rightarrow> u32 \<Rightarrow> u32 \<Rightarrow> nat \<Rightarrow> mem \<times> u32" where
  "strncat_loop m d s 0 = (m, d)"
| "strncat_loop m d s (Suc k) =
     (let m1 = m(d := m s) in if m s = 0 then (m1, d) else strncat_loop m1 (d + 1) (s + 1) k)"

definition libc_strncat :: "mem \<Rightarrow> u32 \<Rightarrow> u32 \<Rightarrow> u32 \<Rightarrow> (u32 \<times> mem) option" where
  "libc_strncat m s1 s2 n =
     Option.bind (find_end m s1) (\<lambda>d.
       let (m1, d1) = strncat_loop m d s2 (loop_count n) in Some (s1, m1(d1 := 0)))"

partial_function (option) libc_strcmp_loop :: "mem \<Rightarrow> u32 \<Rightarrow> u32 \<Rightarrow> u32 \<Rightarrow> int option" where
  "libc_strcmp_loop m s1 s2 i =
     (if m (s1 + i) = m (s2 + i) then if m (s2 + i) = 0 then Some 0 else libc_strcmp_loop m s1 s2 (i + 1)
      else Some 1)"

definition libc_strcmp :: "mem \<Rightarrow> u32 \<Rightarrow> u32 \<Rightarrow> int option" where
  "libc_strcmp m s1 s2 = libc_strcmp_loop m s1 s2 0"

definition libc_strcoll :: "mem \<Rightarrow> u32 \<Rightarrow> u32 \<Rightarrow> int option" where
  "libc_strcoll m s1 s2 = libc_strcmp m s1 s2"

fun strncmp_loop :: "mem \<Rightarrow> u32 \<Rightarrow> u32 \<Rightarrow> nat \<Rightarrow> int" where
  "strncmp_loop m s1 s2 0 = 0"
| "strncmp_loop m s1 s2 (Suc k) =
     (if m s1 \<noteq> 0 \<and> m s2 \<noteq> 0 then if m s1 \<noteq> m s2 then 1 else strncmp_loop m (s1 + 1) (s2 + 1) k
      else 0)"

definition libc_strncmp :: "mem \<Rightarrow> u32 \<Rightarrow> u32 \<Rightarrow> u32 \<Rightarrow> int" where
  "libc_strncmp m s1 s2 n = strncmp_loop m s1 s2 (unat n)"

definition libc_strxfrm :: "mem \<Rightarrow> u32 \<Rightarrow> u32 \<Rightarrow> u32 \<Rightarrow> (u32 \<times> mem) option" where
  "libc_strxfrm m s1 s2 n =
     Option.bind (libc_strlen m s2) (\<lambda>l.
       let s2_len = l + 1; to_copy = (if s2_len > n then n else s2_len)
       in Some (s2_len - 1, snd (libc_memcpy m s1 s2 to_copy)))"

section \<open>Searching\<close>

partial_function (option) libc_strchr :: "mem \<Rightarrow> u32 \<Rightarrow> u32 \<Rightarrow> u32 option" where
  "libc_strchr m s c =
     (if scast (m s) \<noteq> c then if m s = 0 then Some 0 else libc_strchr m (s + 1) c
      else Some s)"

partial_function (option) libc_strcspn_loop :: "mem \<Rightarrow> u32 \<Rightarrow> u32 \<Rightarrow> u32 \<Rightarrow> u32 option" where
  "libc_strcspn_loop m s1 s2 ret =
     (if m s1 = 0 then Some ret
      else Option.bind (libc_strchr m s2 (scast (m s1))) (\<lambda>r.
        if r \<noteq> 0 then Some ret else libc_strcspn_loop m (s1 + 1) s2 (ret + 1)))"

definition libc_strcspn :: "mem \<Rightarrow> u32 \<Rightarrow> u32 \<Rightarrow> u32 option" where
  "libc_strcspn m s1 s2 = libc_strcspn_loop m s1 s2 0"

partial_function (option) libc_strspn_loop :: "mem \<Rightarrow> u32 \<Rightarrow> u32 \<Rightarrow> u32 \<Rightarrow> u32 option" where
  "libc_strspn_loop m s1 s2 ret =
     (if m s1 = 0 then Some ret
      else Option.bind (libc_strchr m s2 (scast (m s1))) (\<lambda>r.
        if r \<noteq> 0 then libc_strspn_loop m (s1 + 1) s2 (ret + 1) else Some ret))"

definition libc_strspn :: "mem \<Rightarrow> u32 \<Rightarrow> u32 \<Rightarrow> u32 option" where
  "libc_strspn m s1 s2 = libc_strspn_loop m s1 s2 0"

partial_function (option) one_of :: "mem \<Rightarrow> u8 \<Rightarrow> u32 \<Rightarrow> bool option" where
  "one_of m x p = (if m p = 0 then Some False else if m p = x then Some True else one_of m x (p + 1))"

partial_function (option) libc_strpbrk :: "mem \<Rightarrow> u32 \<Rightarrow> u32 \<Rightarrow> u32 option" where
  "libc_strpbrk m s1 s2 =
     (if m s1 = 0 then Some 0
      else Option.bind (one_of m (m s1) s2) (\<lambda>f. if f then Some s1 else libc_strpbrk m (s1 + 1) s2))"

partial_function (option) libc_strrchr_loop :: "mem \<Rightarrow> u32 \<Rightarrow> u32 \<Rightarrow> u32 \<Rightarrow> u32 \<Rightarrow> u32 option" where
  "libc_strrchr_loop m s c ret i =
     (if m (s + i) = 0 then Some ret
      else libc_strrchr_loop m s c (if scast (m (s + i)) = c then s + i else ret) (i + 1))"

definition libc_strrchr :: "mem \<Rightarrow> u32 \<Rightarrow> u32 \<Rightarrow> u32 option" where
  "libc_strrchr m s c = libc_strrchr_loop m s c 0 0"

fun libc_strstr_loop :: "mem \<Rightarrow> u32 \<Rightarrow> u32 \<Rightarrow> u32 \<Rightarrow> nat \<Rightarrow> u32" where
  "libc_strstr_loop m p s2 N2 0 = 0"
| "libc_strstr_loop m p s2 N2 (Suc n) =
     (if libc_memcmp m p s2 N2 = 0 then p else libc_strstr_loop m (p + 1) s2 N2 n)"

definition libc_strstr :: "mem \<Rightarrow> u32 \<Rightarrow> u32 \<Rightarrow> u32 option" where
  "libc_strstr m s1 s2 =
     Option.bind (libc_strlen m s1) (\<lambda>N1.
     Option.bind (libc_strlen m s2) (\<lambda>N2.
       if N1 < N2 then Some 0
       else Some (libc_strstr_loop m s1 s2 N2 (unat (N1 - N2 + 1)))))"

definition libc_strtok :: "mem \<Rightarrow> u32 \<Rightarrow> u32 \<Rightarrow> u32 \<Rightarrow> (mem \<times> u32 \<times> u32) option" where
  "libc_strtok m i s1 s2 =
     (if s1 = 0 \<and> i = 0 then Some (m, i, 0)
      else
        let i0 = (if s1 \<noteq> 0 then s1 else i)
        in Option.bind (libc_strspn m i0 s2) (\<lambda>n.
           let s1' = i0 + n
           in Option.bind (libc_strcspn m s1' s2) (\<lambda>k.
              let i' = s1' + k
              in if i' = s1' then Some (m, 0, 0)
                 else if m i' \<noteq> 0 then Some (m(i' := 0), i' + 1, s1')
                 else Some (m, 0, s1'))))"

definition libc_strerror :: "u32 \<Rightarrow> u32" where
  "libc_strerror errnum = 0"

section \<open>The functions of the kernel's library\<close>

lemma ucast_scast8: "ucast (scast (x :: u8) :: u32) = x"
  by (auto simp: bit_eq_iff bit_simps dest: bit_imp_le_length)

lemma scast_inj8: "(scast (x :: u8) :: u32) = scast y \<longleftrightarrow> x = y"
  by (metis ucast_scast8)

lemma option_eqI: "(\<And>x. a = Some x \<Longrightarrow> b = Some x) \<Longrightarrow> (\<And>x. b = Some x \<Longrightarrow> a = Some x) \<Longrightarrow> a = b"
  by (cases a; cases b) auto

lemma libc_strchr_same: "libc_strchr m s (scast c) = strchr m s c"
proof (rule option_eqI)
  fix x assume "libc_strchr m s (scast c) = Some x"
  then have "\<forall>d :: u8. scast c = (scast d :: u32) \<longrightarrow> strchr m s d = Some x"
  proof (rule libc_strchr.raw_induct [where P = "\<lambda>m s c r. \<forall>d :: u8. c = scast d \<longrightarrow> strchr m s d = Some r",
        rotated], goal_cases)
    case (1 f m s c r)
    show ?case
    proof (intro allI impI)
      fix d :: u8 assume d: "c = scast d"
      show "strchr m s d = Some r"
        using 1(1) [of m "s + 1" c r] 1(2) d
        by (subst strchr.simps) (auto simp: scast_inj8 split: if_splits)
    qed
  qed
  then show "strchr m s c = Some x" by blast
next
  fix x assume "strchr m s c = Some x"
  then show "libc_strchr m s (scast c) = Some x"
  proof (rule strchr.raw_induct [where P = "\<lambda>m s c r. libc_strchr m s (scast c) = Some r", rotated], goal_cases)
    case (1 f m s c r)
    then show ?case
      by (subst libc_strchr.simps) (auto simp: scast_inj8 split: if_splits)
  qed
qed

lemma libc_strspn_loop_same: "libc_strspn_loop m s1 s2 ret = strspn_loop m s1 s2 ret"
proof (rule option_eqI)
  fix x assume "libc_strspn_loop m s1 s2 ret = Some x"
  then show "strspn_loop m s1 s2 ret = Some x"
  proof (rule libc_strspn_loop.raw_induct [where P = "\<lambda>m s1 s2 ret r. strspn_loop m s1 s2 ret = Some r",
        rotated], goal_cases)
    case (1 f m s1 s2 ret r)
    then show ?case
      by (subst strspn_loop.simps) (auto simp: libc_strchr_same split: if_splits bind_splits)
  qed
next
  fix x assume "strspn_loop m s1 s2 ret = Some x"
  then show "libc_strspn_loop m s1 s2 ret = Some x"
  proof (rule strspn_loop.raw_induct [where P = "\<lambda>m s1 s2 ret r. libc_strspn_loop m s1 s2 ret = Some r",
        rotated], goal_cases)
    case (1 f m s1 s2 ret r)
    then show ?case
      by (subst libc_strspn_loop.simps) (auto simp: libc_strchr_same split: if_splits bind_splits)
  qed
qed

lemma libc_strcspn_loop_same: "libc_strcspn_loop m s1 s2 ret = strcspn_loop m s1 s2 ret"
proof (rule option_eqI)
  fix x assume "libc_strcspn_loop m s1 s2 ret = Some x"
  then show "strcspn_loop m s1 s2 ret = Some x"
  proof (rule libc_strcspn_loop.raw_induct [where P = "\<lambda>m s1 s2 ret r. strcspn_loop m s1 s2 ret = Some r",
        rotated], goal_cases)
    case (1 f m s1 s2 ret r)
    then show ?case
      by (subst strcspn_loop.simps) (auto simp: libc_strchr_same split: if_splits bind_splits)
  qed
next
  fix x assume "strcspn_loop m s1 s2 ret = Some x"
  then show "libc_strcspn_loop m s1 s2 ret = Some x"
  proof (rule strcspn_loop.raw_induct [where P = "\<lambda>m s1 s2 ret r. libc_strcspn_loop m s1 s2 ret = Some r",
        rotated], goal_cases)
    case (1 f m s1 s2 ret r)
    then show ?case
      by (subst libc_strcspn_loop.simps) (auto simp: libc_strchr_same split: if_splits bind_splits)
  qed
qed

lemma libc_memcmp_loop_zero: "libc_memcmp_loop m p q n = 0 \<longleftrightarrow> memcmp_loop m p q n = 0"
proof (induction n arbitrary: p q)
  case (Suc n)
  consider "m p = m q" | "sint (m p) \<noteq> sint (m q)" "m p \<noteq> m q"
    by (metis signed_word_eqI)
  then show ?case
  proof cases
    case 1
    then show ?thesis using Suc.IH [of "p + 1" "q + 1"] by simp
  next
    case 2
    then have "libc_memcmp_loop m p q (Suc n) \<noteq> 0" by simp
    moreover have "memcmp_loop m p q (Suc n) \<noteq> 0" using 2(2)
      by (cases "m p" "m q" rule: linorder_cases) (simp_all add: not_less_iff_gr_or_eq)
    ultimately show ?thesis by blast
  qed
qed simp

lemma libc_memcmp_zero: "libc_memcmp m p q n = 0 \<longleftrightarrow> memcmp m p q n = 0"
  by (simp only: libc_memcmp_def memcmp_def libc_memcmp_loop_zero)

lemma libc_strstr_loop_same: "libc_strstr_loop m p s2 N2 n = strstr_loop m p s2 N2 n"
  by (induction n arbitrary: p) (simp_all add: libc_memcmp_zero)

text \<open>
  C30. The tokenizer and the search for a substring of the user library compute exactly what those of
  the kernel's library compute, including where they do not return.
\<close>

theorem libc_strtok_strstr_same:
  "libc_strtok m i s1 s2 = strtok m i s1 s2 \<and> libc_strstr m s1 s2 = strstr m s1 s2"
  by (simp add: libc_strtok_def strtok_def libc_strspn_def strspn_def libc_strcspn_def strcspn_def libc_strspn_loop_same
    libc_strcspn_loop_same libc_strstr_def strstr_def libc_strlen_def strlen_def libc_strstr_loop_same
    cong: if_cong)

section \<open>Copies with a bound\<close>

text \<open>Through the local array the copy is right whatever the overlap.\<close>

lemma libc_memmove_copied: "libc_memmove m s1 s2 n = (s1, copied m s1 s2 (unat n))"
  using unat_u32_less [of n]
  by (auto simp: libc_memmove_def write_all_apply copied_def fun_eq_iff in_region_def)

lemma fill_write_all: "fill m d v k = write_all m d (replicate k v)"
  by (induction k arbitrary: m d) simp_all

lemma apart_Suc:
  assumes "apart d (Suc k) s (Suc n)" and "k < 2 ^ 32" and "n < 2 ^ 32"
  shows "apart (d + 1) k (s + 1) n" and "\<not> in_region (s + 1) n d"
  using assms in_region_Suc [of k d] in_region_Suc [of n s] unfolding apart_def by blast+

lemma strncpy_loop_cstr:
  "cstr m s xs \<Longrightarrow> k < 2 ^ 32 \<Longrightarrow> apart d k s (Suc (length xs)) \<Longrightarrow>
     strncpy_loop m d s k = write_all m d (take k (xs @ replicate k 0))"
proof (induction xs arbitrary: m d s k)
  case Nil
  then show ?case by (cases k) (simp_all add: fill_write_all)
next
  case (Cons x xs)
  show ?case
  proof (cases k)
    case (Suc j)
    have len: "Suc (length xs) < 2 ^ 32" using cstr_length [OF Cons.prems(1)] by simp
    note ap = apart_Suc [OF Cons.prems(3) [unfolded Suc list.size(4) add_Suc_right add_0_right] _ len]
    have "cstr (m(d := x)) (s + 1) xs"
      using Cons.prems(1,2) Suc ap(2) by (intro cstr_upd) auto
    then have "strncpy_loop (m(d := x)) (d + 1) (s + 1) j =
        write_all (m(d := x)) (d + 1) (take j (xs @ replicate j 0))"
      using Cons.prems(2) Suc ap(1) by (intro Cons.IH) (simp_all add: fun_upd_def)
    moreover have "take j (xs @ replicate (Suc j) 0) = take j (xs @ replicate j 0)"
      by (simp del: replicate_Suc)
    ultimately show ?thesis
      using Cons.prems(1) Suc by (simp add: Let_def del: replicate_Suc take_append)
  qed simp
qed

text \<open>
  C31. \<^verbatim>\<open>strncpy\<close> with a count that is not 0 writes exactly that many bytes: the string cut off at
  the count, padded with terminators; no byte outside the destination's bound changes.
\<close>

theorem strncpy_bounds:
  assumes "cstr m s2 xs" and "n \<noteq> 0" and "apart s1 (unat n) s2 (Suc (length xs))"
    and "libc_strncpy m s1 s2 n = (r, m')"
  shows "r = s1 \<and> bytes m' s1 (unat n) = take (unat n) (xs @ replicate (unat n) 0) \<and>
    (\<forall>a. \<not> in_region s1 (unat n) a \<longrightarrow> m' a = m a)"
proof -
  define bs where "bs = take (unat n) (xs @ replicate (unat n) 0)"
  have len: "length bs = unat n" "length bs < 2 ^ 32"
    using unat_u32_less [of n] by (simp_all add: bs_def)
  have "m' = write_all m s1 bs" and "r = s1"
    using assms strncpy_loop_cstr [OF assms(1) _ assms(3)] unat_u32_less [of n]
    by (auto simp: libc_strncpy_def loop_count_def bs_def)
  then show ?thesis
    using bytes_write_all [OF len(2), of m s1] write_all_apply [OF len(2), of m s1] len(1)
    by (simp add: bs_def)
qed

theorem strncpy_bounds_witness:
  "\<exists>m'. libc_strncpy ((\<lambda>_. 7)(300 := 97, 301 := 98, 302 := 0)) 100 300 4 = (100, m') \<and>
     bytes m' 100 4 = take 4 ([97, 98] @ replicate 4 0) \<and>
     (\<forall>a. \<not> in_region 100 4 a \<longrightarrow> m' a = ((\<lambda>_. 7)(300 := 97, 301 := 98, 302 := 0)) a)"
proof -
  have s: "cstr ((\<lambda>_. 7)(300 := 97, 301 := 98, 302 := 0)) 300 [97, 98]" by simp
  have a: "apart 100 (unat (4 :: u32)) 300 (Suc (length [97, 98 :: u8]))"
    by (rule apart_intervalI) simp_all
  obtain m' where m': "libc_strncpy ((\<lambda>_. 7)(300 := 97, 301 := 98, 302 := 0)) 100 300 4 = (100, m')"
    by (simp add: libc_strncpy_def)
  from strncpy_bounds [OF s _ a m'] show ?thesis using m' by (intro exI [of _ m']) simp
qed

end
