(* ===== verification/Cpu_Tables.thy ===== *)
theory Cpu_Tables
  imports Prelude
begin

text \<open>
  \<^verbatim>\<open>kernel/cpu/gdt.c\<close>, \<^verbatim>\<open>tss.c\<close> and \<^verbatim>\<open>idt.c\<close>: the segment descriptors, the task state segment and the
  interrupt gates. The addresses the linker gives to the tables and to the handlers of \<^verbatim>\<open>isr_as.s\<close> and
  \<^verbatim>\<open>irq_as.s\<close> are arguments (\<open>symbols\<close>); the registers the tables are loaded into are part of the state.
\<close>

section \<open>State\<close>

record gdt_entry =
  gd_limit_lo :: u16
  gd_base_lo :: u16
  gd_base_mid :: u8
  gd_rights :: u8
  gd_lim_hi_and_flags :: u8
  gd_base_hi :: u8

record table_ptr =
  tp_size :: u16
  tp_base :: u32

record idt_entry =
  id_base_lo :: u16
  id_segsel :: u16
  id_zero :: u8
  id_flags :: u8
  id_base_hi :: u16

text \<open>The fields of the task state segment that the kernel writes; the others stay 0.\<close>

record tss_ent =
  ts_esp0 :: u32
  ts_ss0 :: u32
  ts_esp :: u32
  ts_es :: u32
  ts_cs :: u32
  ts_ss :: u32
  ts_ds :: u32
  ts_fs :: u32
  ts_gs :: u32
  ts_iomap :: u16

record symbols =
  sy_gdt :: u32
  sy_tss :: u32
  sy_idt :: u32
  sy_isr :: "nat \<Rightarrow> u32"
  sy_irq :: "nat \<Rightarrow> u32"

record tables =
  cp_gdt :: "gdt_entry list"
  cp_tss :: tss_ent
  cp_idt :: "idt_entry list"
  cp_gdtr :: table_ptr
  cp_idtr :: table_ptr
  cp_tr :: u16
  cp_if :: bool

section \<open>Segments\<close>

definition gdt_set_entry :: "gdt_entry list \<Rightarrow> nat \<Rightarrow> u32 \<Rightarrow> u32 \<Rightarrow> u8 \<Rightarrow> u8 \<Rightarrow> gdt_entry list res" where
  "gdt_set_entry entries index base limit rights flags =
     put_at entries index
       \<lparr>gd_limit_lo = ucast (limit AND 0x0000FFFF), gd_base_lo = ucast (base AND 0x0000FFFF),
        gd_base_mid = ucast (drop_bit 16 (base AND 0x00FF0000)), gd_rights = rights,
        gd_lim_hi_and_flags = ucast (drop_bit 16 (limit AND 0xFFFF0000) AND 0x0F) OR (flags AND 0xF0),
        gd_base_hi = ucast (drop_bit 24 (base AND 0xFF000000))\<rparr>"

text \<open>The rights bits: writable or readable, executable, code or data, ring, present.\<close>

abbreviation (input) GDT_RW :: u8 where "GDT_RW \<equiv> 0x02"
abbreviation (input) GDT_X :: u8 where "GDT_X \<equiv> 0x08"
abbreviation (input) GDT_S :: u8 where "GDT_S \<equiv> 0x10"
abbreviation (input) GDT_RG :: "u8 \<Rightarrow> u8" where "GDT_RG k \<equiv> push_bit 5 k"
abbreviation (input) GDT_PR :: u8 where "GDT_PR \<equiv> 0x80"

text \<open>The segment has 104 bytes.\<close>

definition tss_init :: "symbols \<Rightarrow> tables \<Rightarrow> gdt_entry list \<Rightarrow> u8 \<Rightarrow> u32 \<Rightarrow> (gdt_entry list \<times> tables) res" where
  "tss_init sy c entries index ss0 =
     (let t = (cp_tss c)\<lparr>ts_ss0 := ss0, ts_ss := ss0, ts_ds := ss0, ts_fs := ss0, ts_gs := ss0, ts_es := ss0,
            ts_cs := 0x8, ts_iomap := 104\<rparr>;
          base = sy_tss sy; limit = base + 104
      in rbind (gdt_set_entry entries (unat index) base limit (1 OR GDT_X OR GDT_PR) 0x40) (\<lambda>es.
         Inr (es, c\<lparr>cp_tss := t\<rparr>)))"

definition tss_set_esp0 :: "tables \<Rightarrow> u32 \<Rightarrow> tables" where
  "tss_set_esp0 c esp0 = c\<lparr>cp_tss := (cp_tss c)\<lparr>ts_esp0 := esp0, ts_esp := esp0\<rparr>\<rparr>"

definition gdt_init :: "symbols \<Rightarrow> tables \<Rightarrow> tables res" where
  "gdt_init sy c =
     (let ptr = \<lparr>tp_size = 6 * 8 - 1, tp_base = sy_gdt sy\<rparr> in
      rbind (gdt_set_entry (cp_gdt c) 0 0 0 0 0) (\<lambda>e0.
      rbind (gdt_set_entry e0 1 0 0xFFFFFFFF (GDT_RW OR GDT_X OR GDT_S OR GDT_PR) 0xC0) (\<lambda>e1.
      rbind (gdt_set_entry e1 2 0 0xFFFFFFFF (GDT_RW OR GDT_S OR GDT_PR) 0xC0) (\<lambda>e2.
      rbind (gdt_set_entry e2 3 0 0xFFFFFFFF (GDT_RW OR GDT_X OR GDT_S OR GDT_RG 3 OR GDT_PR) 0xC0) (\<lambda>e3.
      rbind (gdt_set_entry e3 4 0 0xFFFFFFFF (GDT_RW OR GDT_S OR GDT_RG 3 OR GDT_PR) 0xC0) (\<lambda>e4.
      rbind (tss_init sy c e4 5 0x10) (\<lambda>(e5, c1).
      Inr (c1\<lparr>cp_gdt := e5, cp_gdtr := ptr, cp_tr := 0x28\<rparr>))))))))"

section \<open>Interrupt gates\<close>

definition idt_set_entry :: "idt_entry list \<Rightarrow> u8 \<Rightarrow> u32 \<Rightarrow> u16 \<Rightarrow> u8 \<Rightarrow> idt_entry list res" where
  "idt_set_entry entries index base segsel flags =
     put_at entries (unat index)
       \<lparr>id_base_lo = ucast (base AND 0xFFFF), id_segsel = segsel, id_zero = 0, id_flags = flags,
        id_base_hi = ucast (drop_bit 16 base AND 0xFFFF)\<rparr>"

abbreviation (input) I_GATETYPE_INT32 :: u8 where "I_GATETYPE_INT32 \<equiv> 0xE"
abbreviation (input) I_GATETYPE_TRAP32 :: u8 where "I_GATETYPE_TRAP32 \<equiv> 0xF"
abbreviation (input) I_DPL :: "u8 \<Rightarrow> u8" where "I_DPL r \<equiv> push_bit 5 r"
abbreviation (input) I_PRESENT :: u8 where "I_PRESENT \<equiv> 0x80"

text \<open>The calls of \<^verbatim>\<open>idt_init\<close>, one element for each: the number, the handler and the flags.\<close>

definition idt_calls :: "symbols \<Rightarrow> (u8 \<times> u32 \<times> u8) list" where
  "idt_calls sy =
     map (\<lambda>i. (of_nat i, sy_isr sy i, I_PRESENT OR I_GATETYPE_INT32)) [0..<32] @
     map (\<lambda>i. (of_nat (32 + i), sy_irq sy i, I_PRESENT OR I_GATETYPE_INT32)) [0..<16] @
     [(128, sy_isr sy 32, I_PRESENT OR I_DPL 3 OR I_GATETYPE_TRAP32)]"

fun idt_set_all :: "idt_entry list \<Rightarrow> (u8 \<times> u32 \<times> u8) list \<Rightarrow> idt_entry list res" where
  "idt_set_all es [] = Inr es"
| "idt_set_all es ((i, base, flags) # cs) =
     rbind (idt_set_entry es i base 0x08 flags) (\<lambda>es1. idt_set_all es1 cs)"

definition idt_zero :: idt_entry where
  "idt_zero = \<lparr>id_base_lo = 0, id_segsel = 0, id_zero = 0, id_flags = 0, id_base_hi = 0\<rparr>"

definition idt_init :: "symbols \<Rightarrow> tables \<Rightarrow> tables res" where
  "idt_init sy c =
     (let ptr = \<lparr>tp_size = 256 * 8 - 1, tp_base = sy_idt sy\<rparr> in
      rbind (idt_set_all (replicate 256 idt_zero) (idt_calls sy)) (\<lambda>es.
      Inr (c\<lparr>cp_idt := es, cp_idtr := ptr, cp_if := True\<rparr>)))"

section \<open>What the processor reads\<close>

text \<open>The fields of a descriptor and of a gate as the processor puts them together.\<close>

definition seg_base :: "gdt_entry \<Rightarrow> u32" where
  "seg_base e = ucast (gd_base_lo e) OR push_bit 16 (ucast (gd_base_mid e)) OR push_bit 24 (ucast (gd_base_hi e))"

definition seg_limit :: "gdt_entry \<Rightarrow> u32" where
  "seg_limit e = ucast (gd_limit_lo e) OR push_bit 16 (ucast (gd_lim_hi_and_flags e AND 0x0F))"

definition seg_ring :: "gdt_entry \<Rightarrow> u8" where
  "seg_ring e = drop_bit 5 (gd_rights e) AND 3"

definition gate_present :: "idt_entry \<Rightarrow> bool" where
  "gate_present g \<longleftrightarrow> bit (id_flags g) 7"

definition gate_ring :: "idt_entry \<Rightarrow> u8" where
  "gate_ring g = drop_bit 5 (id_flags g) AND 3"

definition gate_offset :: "idt_entry \<Rightarrow> u32" where
  "gate_offset g = ucast (id_base_lo g) OR push_bit 16 (ucast (id_base_hi g))"

definition int_allowed :: "idt_entry list \<Rightarrow> u8 \<Rightarrow> nat \<Rightarrow> bool" where
  "int_allowed es cpl n \<longleftrightarrow> n < length es \<and> gate_present (es ! n) \<and> cpl \<le> gate_ring (es ! n)"

text \<open>What a number of the table calls, and the handlers the kernel means to install.\<close>

definition gate_handler :: "idt_entry list \<Rightarrow> nat \<Rightarrow> u32 option" where
  "gate_handler es n = (if n < length es \<and> gate_present (es ! n) then Some (gate_offset (es ! n)) else None)"

definition vector_handler :: "symbols \<Rightarrow> nat \<Rightarrow> u32 option" where
  "vector_handler sy n =
     (if n < 32 then Some (sy_isr sy n)
      else if n < 48 then Some (sy_irq sy (n - 32))
      else if n = 128 then Some (sy_isr sy 32)
      else None)"

section \<open>Descriptors are read back as they were set\<close>

lemma u32_masks:
  "(0xFFFF :: u32) = mask 16" "(0xFFFF0000 :: u32) = push_bit 16 (mask 16)"
  "(0x00FF0000 :: u32) = push_bit 16 (mask 8)" "(0xFF000000 :: u32) = push_bit 24 (mask 8)"
  "(0x0F :: u32) = mask 4" "(0xFFFFF :: u32) = mask 20" "(0x0F :: u8) = mask 4" "(0xF0 :: u8) = push_bit 4 (mask 4)"
  by (simp_all add: mask_eq_exp_minus_1)

lemma gdt_set_entry_read:
  assumes "gdt_set_entry entries index base limit rights flags = Inr es"
  shows "seg_base (es ! index) = base" and "seg_limit (es ! index) = limit AND 0xFFFFF"
    and "gd_rights (es ! index) = rights"
proof -
  from assms have i: "index < length entries" and es: "es = entries[index :=
       \<lparr>gd_limit_lo = ucast (limit AND 0x0000FFFF), gd_base_lo = ucast (base AND 0x0000FFFF),
        gd_base_mid = ucast (drop_bit 16 (base AND 0x00FF0000)), gd_rights = rights,
        gd_lim_hi_and_flags = ucast (drop_bit 16 (limit AND 0xFFFF0000) AND 0x0F) OR (flags AND 0xF0),
        gd_base_hi = ucast (drop_bit 24 (base AND 0xFF000000))\<rparr>]"
    by (simp_all add: gdt_set_entry_def put_at_eq_Inr)
  show "seg_base (es ! index) = base"
  proof (rule bit_word_eqI)
    fix n assume "n < LENGTH(32)"
    then consider "n < 16" | "16 \<le> n" "n < 24" | "24 \<le> n" "n < 32" by fastforce
    then show "bit (seg_base (es ! index)) n = bit base n"
      using i unfolding es u32_masks by cases (auto simp: seg_base_def bit_simps)
  qed
  show "seg_limit (es ! index) = limit AND 0xFFFFF"
    using i unfolding es u32_masks seg_limit_def by (auto simp: bit_eq_iff bit_simps)
  show "gd_rights (es ! index) = rights" using i by (simp add: es)
qed

abbreviation idt_gate :: "u32 \<Rightarrow> u8 \<Rightarrow> idt_entry" where
  "idt_gate base flags \<equiv> \<lparr>id_base_lo = ucast (base AND 0xFFFF), id_segsel = 0x08, id_zero = 0, id_flags = flags,
     id_base_hi = ucast (drop_bit 16 base AND 0xFFFF)\<rparr>"

lemma gate_offset_gate: "gate_offset (idt_gate base flags) = base"
  unfolding gate_offset_def u32_masks by (auto simp: bit_eq_iff bit_simps)

lemma idt_set_all_gates:
  "length es = 256 \<Longrightarrow> distinct (map fst cs) \<Longrightarrow>
     \<exists>es'. idt_set_all es cs = Inr es' \<and> length es' = 256 \<and>
       (\<forall>i base flags. (i, base, flags) \<in> set cs \<longrightarrow> es' ! unat i = idt_gate base flags) \<and>
       (\<forall>i. i \<notin> fst ` set cs \<longrightarrow> es' ! unat i = es ! unat i)"
proof (induction cs arbitrary: es)
  case (Cons x cs)
  obtain i base flags where x: "x = (i, base, flags)" by (cases x)
  have i: "unat i < 256" using unsigned_less [of i, where 'a = nat] by simp
  let ?es = "es[unat i := idt_gate base flags]"
  obtain es' where es': "idt_set_all ?es cs = Inr es'" "length es' = 256"
      "\<forall>i base flags. (i, base, flags) \<in> set cs \<longrightarrow> es' ! unat i = idt_gate base flags"
      "\<forall>i. i \<notin> fst ` set cs \<longrightarrow> es' ! unat i = ?es ! unat i"
    using Cons.IH [of ?es] Cons.prems by auto
  have "idt_set_all es (x # cs) = Inr es'"
    using es'(1) i Cons.prems(1) by (simp add: x idt_set_entry_def)
  moreover have "es' ! unat i = idt_gate base flags"
    using es'(4) Cons.prems i by (auto simp: x)
  moreover have "es' ! unat j = es ! unat j" if "j \<notin> fst ` set (x # cs)" for j
  proof -
    have "unat i \<noteq> unat j" and "j \<notin> fst ` set cs" using that by (auto simp: x word_unat_eq_iff)
    then show ?thesis using es'(4) by simp
  qed
  ultimately show ?case using es'(2,3) by (auto simp: x)
qed simp

lemma idt_calls_numbers: "map fst (idt_calls sy) = map of_nat ([0..<48] @ [128])"
proof -
  have "[0..<48] = [0..<32] @ map (\<lambda>i. 32 + i) [0..<16]"
    by code_simp
  then show ?thesis by (simp add: idt_calls_def comp_def)
qed

lemma u8_of_nat_eq: "m < 256 \<Longrightarrow> n < 256 \<Longrightarrow> (of_nat m :: u8) = of_nat n \<longleftrightarrow> m = n"
  using of_nat_word_inj [where 'a = 8, of m n] by auto

lemma idt_calls_distinct: "distinct (map fst (idt_calls sy))"
  unfolding idt_calls_numbers distinct_map
  by (auto simp: inj_on_def u8_of_nat_eq u8_of_nat_eq [of _ 128, simplified])

lemma unat_of_nat_u8: "n < 256 \<Longrightarrow> unat (of_nat n :: u8) = n"
  by (simp add: unat_of_nat take_bit_nat_eq_self)

lemma idt_calls_mem:
  assumes "vector_handler sy n = Some base"
  shows "(of_nat n, base, if n = 128 then 0xEF else 0x8E) \<in> set (idt_calls sy)" and "n < 256"
proof -
  consider "n < 32" "base = sy_isr sy n" | k where "k < 16" "n = 32 + k" "base = sy_irq sy k"
    | "n = 128" "base = sy_isr sy 32"
  proof (cases "n < 32 \<or> n = 128")
    case True
    then show ?thesis using assms that by (auto simp: vector_handler_def split: if_splits)
  next
    case False
    then have "n - 32 < 16" "n = 32 + (n - 32)" "base = sy_irq sy (n - 32)"
      using assms by (auto simp: vector_handler_def split: if_splits)
    then show ?thesis by (rule that(2))
  qed
  then show "(of_nat n, base, if n = 128 then 0xEF else 0x8E) \<in> set (idt_calls sy)"
    by cases (auto simp: idt_calls_def image_iff)
  show "n < 256" using assms by (simp add: vector_handler_def split: if_splits)
qed

lemma idt_calls_none:
  assumes "vector_handler sy n = None" and "n < 256"
  shows "of_nat n \<notin> fst ` set (idt_calls sy)"
proof
  assume "of_nat n \<in> fst ` set (idt_calls sy)"
  then have "(of_nat n :: u8) \<in> of_nat ` set ([0..<48] @ [128])"
    unfolding set_map [symmetric] idt_calls_numbers .
  then obtain k where "k \<in> set ([0..<48] @ [128])" and k': "(of_nat n :: u8) = of_nat k" by (rule imageE)
  then have k: "k < 48 \<or> k = 128" by auto
  then have "n = k" using assms(2) u8_of_nat_eq [of n k] k' by auto
  then show False using assms(1) k by (auto simp: vector_handler_def split: if_splits)
qed

lemma gate_bits:
  "gate_present (idt_gate base 0x8E)" "gate_present (idt_gate base 0xEF)" "\<not> gate_present idt_zero"
  "gate_ring (idt_gate base 0x8E) = 0" "gate_ring (idt_gate base 0xEF) = 3"
  by (simp_all add: gate_present_def gate_ring_def idt_zero_def)

text \<open>
  C32. After \<^verbatim>\<open>idt_init\<close> every number calls exactly the handler meant for it - an exception, an interrupt
  line or the system call - or nothing, and a user program can raise number 128 only.
\<close>

theorem idt_init_gates:
  "\<exists>c'. idt_init sy c = Inr c' \<and> gate_handler (cp_idt c') n = vector_handler sy n \<and>
     (int_allowed (cp_idt c') 3 n \<longleftrightarrow> n = 128)"
proof -
  have "\<exists>es. idt_set_all (replicate 256 idt_zero) (idt_calls sy) = Inr es \<and> length es = 256 \<and>
      (\<forall>i base flags. (i, base, flags) \<in> set (idt_calls sy) \<longrightarrow> es ! unat i = idt_gate base flags) \<and>
      (\<forall>i. i \<notin> fst ` set (idt_calls sy) \<longrightarrow> es ! unat i = replicate 256 idt_zero ! unat i)"
    by (rule idt_set_all_gates) (simp_all add: idt_calls_distinct)
  then obtain es where es: "idt_set_all (replicate 256 idt_zero) (idt_calls sy) = Inr es" "length es = 256"
      and set: "\<And>i base flags. (i, base, flags) \<in> set (idt_calls sy) \<Longrightarrow> es ! unat i = idt_gate base flags"
      and unset: "\<And>i. i \<notin> fst ` set (idt_calls sy) \<Longrightarrow> es ! unat i = replicate 256 idt_zero ! unat i"
    by blast
  have "gate_handler es n = vector_handler sy n \<and> (int_allowed es 3 n \<longleftrightarrow> n = 128)"
  proof (cases "vector_handler sy n")
    case None
    then have "n \<noteq> 128" by (auto simp: vector_handler_def split: if_splits)
    moreover have "es ! n = idt_zero" if "n < 256"
      using unset [OF idt_calls_none [OF None that]] that by (simp add: unat_of_nat_u8)
    ultimately show ?thesis using None es(2) gate_bits(3) by (auto simp: gate_handler_def int_allowed_def)
  next
    case (Some base)
    from set [OF idt_calls_mem(1) [OF Some]] idt_calls_mem(2) [OF Some]
    have "es ! n = idt_gate base (if n = 128 then 0xEF else 0x8E)" by (simp only: unat_of_nat_u8)
    then show ?thesis
      using Some es(2) idt_calls_mem(2) [OF Some] gate_bits gate_offset_gate [of base]
      by (simp add: gate_handler_def int_allowed_def)
  qed
  then show ?thesis using es(1) by (simp add: idt_init_def)
qed

end
