(* ===== verification/Interrupts.thy ===== *)
theory Interrupts
  imports Io_Ports Cpu_Tables Syscall
begin

text \<open>
  \<^verbatim>\<open>kernel/cpu/pic.c\<close>, \<^verbatim>\<open>irq.c\<close>, \<^verbatim>\<open>isr.c\<close>, \<^verbatim>\<open>interrupts.c\<close> and \<^verbatim>\<open>drivers/pit.c\<close>: the interrupt
  controllers, the dispatch of interrupt lines and exceptions, and the timer that drives the scheduler.
\<close>

section \<open>The interrupt controllers\<close>

text \<open>The ports of \<^verbatim>\<open>pic.h\<close>.\<close>

abbreviation (input) PIC_1_CMD :: u16 where "PIC_1_CMD \<equiv> 0x20"
abbreviation (input) PIC_1_DATA :: u16 where "PIC_1_DATA \<equiv> 0x21"
abbreviation (input) PIC_1_MASK :: u16 where "PIC_1_MASK \<equiv> 0x21"
abbreviation (input) PIC_2_CMD :: u16 where "PIC_2_CMD \<equiv> 0xA0"
abbreviation (input) PIC_2_DATA :: u16 where "PIC_2_DATA \<equiv> 0xA1"
abbreviation (input) PIC_2_MASK :: u16 where "PIC_2_MASK \<equiv> 0xA1"

definition pic_init :: "'d ports \<Rightarrow> 'd \<Rightarrow> 'd" where
  "pic_init P d =
     out_all P [(PIC_1_CMD, 0x11), (PIC_2_CMD, 0x11), (PIC_1_DATA, 0x20), (PIC_2_DATA, 0x28), (PIC_1_DATA, 0x04), (PIC_2_DATA, 0x02),
       (PIC_1_DATA, 0x01), (PIC_2_DATA, 0x01), (PIC_1_MASK, 0xFB), (PIC_2_MASK, 0xFF)] d"

definition pic_get_mask :: "'d ports \<Rightarrow> u8 \<Rightarrow> 'd \<Rightarrow> u8 \<times> 'd" where
  "pic_get_mask P pic d =
     (if pic \<noteq> 1 \<and> pic \<noteq> 2 then (0, d)
      else let port = (if pic = 1 then PIC_1_MASK else PIC_2_MASK) in io_inb P port d)"

definition pic_set_mask :: "'d ports \<Rightarrow> u8 \<Rightarrow> u8 \<Rightarrow> 'd \<Rightarrow> 'd" where
  "pic_set_mask P pic v d =
     (if pic \<noteq> 1 \<and> pic \<noteq> 2 then d
      else let port = (if pic = 1 then PIC_1_MASK else PIC_2_MASK) in io_outb P port v d)"

definition pic_mask :: "'d ports \<Rightarrow> u8 \<Rightarrow> 'd \<Rightarrow> 'd" where
  "pic_mask P irq d =
     (let pic = (if irq < 8 then 1 else 2); irq' = irq - (if irq < 8 then 0 else 8);
          (m, d1) = pic_get_mask P pic d
      in pic_set_mask P pic (m OR push_bit (unat irq') 1) d1)"

definition pic_unmask :: "'d ports \<Rightarrow> u8 \<Rightarrow> 'd \<Rightarrow> 'd" where
  "pic_unmask P irq d =
     (let pic = (if irq < 8 then 1 else 2); irq' = irq - (if irq < 8 then 0 else 8);
          (m, d1) = pic_get_mask P pic d
      in pic_set_mask P pic (m AND NOT (push_bit (unat irq') 1)) d1)"

definition pic_eoi :: "'d ports \<Rightarrow> u8 \<Rightarrow> 'd \<Rightarrow> 'd" where
  "pic_eoi P irq d = (let d1 = (if irq \<ge> 8 then io_outb P PIC_2_CMD 0x20 d else d) in io_outb P PIC_1_CMD 0x20 d1)"

definition pic_is_irq7_sus :: "'d ports \<Rightarrow> 'd \<Rightarrow> u8 \<times> 'd" where
  "pic_is_irq7_sus P d = (case io_inb P PIC_1_CMD (io_outb P PIC_1_CMD 0x0B d) of (v, d1) \<Rightarrow> (v AND 0x80, d1))"

definition pic_is_irq15_sus :: "'d ports \<Rightarrow> 'd \<Rightarrow> u8 \<times> 'd" where
  "pic_is_irq15_sus P d =
     (case io_inb P PIC_2_CMD (io_outb P PIC_2_CMD 0x0B d) of (v, d1) \<Rightarrow>
        let sus = v AND 0x80 in (sus, if sus \<noteq> 0 then io_outb P PIC_1_CMD 0x20 d1 else d1))"

section \<open>Interrupt lines\<close>

text \<open>
  The handlers are code addresses; \<open>run\<close> gives what the code at an address does to the state, which holds
  the devices and what the handlers touch of the kernel.
\<close>

definition irq_register :: "u32 list \<Rightarrow> u8 \<Rightarrow> u32 \<Rightarrow> u32 list res" where
  "irq_register hs irq handler = put_at hs (unat irq) handler"

definition irq_common_handler ::
    "'d ports \<Rightarrow> (u32 \<Rightarrow> registers \<Rightarrow> 'd \<Rightarrow> 'd res) \<Rightarrow> u32 list \<Rightarrow> registers \<Rightarrow> 'd \<Rightarrow> 'd res" where
  "irq_common_handler P run hs r d =
     (let irq = ucast (rg_int r - 32) :: u8;
          (sus7, d1) = (if irq = 7 then pic_is_irq7_sus P d else (0, d))
      in if irq = 7 \<and> sus7 \<noteq> 0 then Inr d1
      else let (sus15, d2) = (if irq = 15 then pic_is_irq15_sus P d1 else (0, d1))
      in if irq = 15 \<and> sus15 \<noteq> 0 then Inr d2
      else
        let d3 = pic_eoi P irq d2
        in rbind (get_at hs (unat irq)) (\<lambda>h. if h \<noteq> 0 then run h r d3 else Inr d3))"

definition interrupts_init :: "'d ports \<Rightarrow> symbols \<Rightarrow> tables \<Rightarrow> 'd \<Rightarrow> (tables \<times> 'd) res" where
  "interrupts_init P sy c d = rbind (idt_init sy c) (\<lambda>c1. Inr (c1, pic_init P d))"

section \<open>Exceptions\<close>

text \<open>An exception the switch does not name is ignored; what is printed before a panic is left out.\<close>

definition exception_names :: "(u32 \<times> string) list" where
  "exception_names =
     [(0x0, ''Division by zero exception''), (0x1, ''Debug exception''), (0x2, ''Non maskable interrupt''),
      (0x3, ''Breakpoint exception''), (0x4, ''Overflow''), (0x5, ''Out of bounds exception''),
      (0x6, ''Invalid opcode exception''), (0x7, ''No coprocessor exception''), (0x8, ''Double fault''),
      (0x9, ''Coprocessor segment overrun''), (0xA, ''Bad TSS''), (0xB, ''Segment not present''),
      (0xC, ''Stack fault''), (0xD, ''General protection fault''), (0xE, ''Page fault''),
      (0xF, ''Unknown interrupt exception''), (0x10, ''Coprocessor fault''),
      (0x11, ''Alignment check exception''), (0x12, ''Machine check exception'')]"

definition isr_common_handler :: "kenv \<Rightarrow> registers \<Rightarrow> os \<Rightarrow> (registers option \<times> os) res" where
  "isr_common_handler e r s =
     (case map_of exception_names (rg_int r) of
        Some msg \<Rightarrow> Inl (Panic msg)
      | None \<Rightarrow> if rg_int r = 0x20 then syscall_handler e r s else Inr (Some r, s))"

section \<open>The timer\<close>

record pit_infos =
  pi_timer_value :: u64
  pi_freq :: u32

text \<open>
  The 12 bytes of the information record are placed by \<^verbatim>\<open>pmalloc\<close>; a frequency of 0 divides by zero.
  \<open>event\<close> is the address of the handler.
\<close>

definition pit_init :: "'d ports \<Rightarrow> u32 \<Rightarrow> u32 list \<Rightarrow> u32 \<Rightarrow> u32 \<Rightarrow> 'd \<Rightarrow> (pit_infos \<times> u32 \<times> u32 list \<times> 'd) res" where
  "pit_init P event hs placement freq d =
     (if 6 * freq = 0 then Inl Div_by_zero
      else
        let (_, placement1) = pmalloc placement 12;
            pit = \<lparr>pi_timer_value = 0, pi_freq = freq\<rparr>;
            dv = ucast ((7159090 + 3) div (6 * freq)) :: u16;
            d1 = out_all P [(0x43, 0x36), (0x40, ucast (dv AND 0xFF)), (0x40, ucast (drop_bit 8 dv AND 0xFF))] d;
            d2 = pic_unmask P 0 d1
        in rbind (irq_register hs 0 event) (\<lambda>hs1. Inr (pit, placement1, hs1, d2)))"

text \<open>\<open>ev i\<close> is what interrupts do to the timer between two tests of the loop.\<close>

partial_function (option) pit_wait :: "(nat \<Rightarrow> pit_infos \<Rightarrow> pit_infos) \<Rightarrow> nat \<Rightarrow> pit_infos \<Rightarrow> pit_infos option" where
  "pit_wait ev i pit = (if pi_timer_value pit > 0 then pit_wait ev (i + 1) (ev i pit) else Some pit)"

definition pit_sleep :: "(nat \<Rightarrow> pit_infos \<Rightarrow> pit_infos) \<Rightarrow> pit_infos \<Rightarrow> u64 \<Rightarrow> pit_infos option" where
  "pit_sleep ev pit t = pit_wait ev 0 (pit\<lparr>pi_timer_value := t\<rparr>)"

definition pit_event :: "u32 \<Rightarrow> pit_infos \<Rightarrow> sched \<Rightarrow> (u32 \<times> pit_infos \<times> sched) res" where
  "pit_event esp pit sc =
     (let pit1 = (if pi_timer_value pit > 0 then pit\<lparr>pi_timer_value := pi_timer_value pit - 1\<rparr> else pit) in
      rbind (mt_schedule sc esp) (\<lambda>(esp1, sc1). Inr (esp1, pit1, sc1)))"

section \<open>Dispatch\<close>

text \<open>A line that can not be spurious: its handler runs after the end of interrupt, exactly once.\<close>

lemma irq_registered_runs:
  assumes "irq_register hs irq h = Inr hs'" and "h \<noteq> 0" and "irq \<noteq> 7" and "irq \<noteq> 15"
    and "rg_int r = 32 + ucast irq"
  shows "irq_common_handler P run hs' r d = run h r (pic_eoi P irq d)"
proof -
  have "unat irq < length hs" and hs': "hs' = hs[unat irq := h]"
    using assms(1) by (simp_all add: irq_register_def put_at_eq_Inr)
  moreover have "(ucast (ucast irq :: u32) :: u8) = irq" by (simp add: bit_eq_iff bit_simps)
  ultimately show ?thesis using assms(2-5) by (simp add: irq_common_handler_def)
qed

text \<open>The registers of a line above the last one read past the end of the handler table.\<close>

lemma irq_out_of_table:
  assumes "length hs = 16" and "48 \<le> unat (rg_int r)" and "unat (rg_int r) < 256"
  shows "irq_common_handler P run hs r d = Inl Wild_access"
proof -
  have "unat (rg_int r - 32) = unat (rg_int r) - 32"
    using assms(2) by (simp add: unat_sub word_le_nat_alt)
  then have i: "unat (ucast (rg_int r - 32) :: u8) = unat (rg_int r) - 32"
    using assms(3) by (simp add: unsigned_ucast_eq take_bit_eq_mod)
  then have "(ucast (rg_int r - 32) :: u8) \<noteq> 7" and "(ucast (rg_int r - 32) :: u8) \<noteq> 15"
    using assms(2) by auto
  then show ?thesis using i assms(1,2) by (simp add: irq_common_handler_def get_at_wild)
qed

lemma isr_syscall: "rg_int r = 0x20 \<Longrightarrow> isr_common_handler e r s = syscall_handler e r s"
  by (simp add: isr_common_handler_def exception_names_def)

lemma isr_exception_panics: "unat (rg_int r) \<le> 18 \<Longrightarrow> \<exists>msg. isr_common_handler e r s = Inl (Panic msg)"
proof -
  assume "unat (rg_int r) \<le> 18"
  then have n: "unat (rg_int r) \<in> set [0..<19]" by simp
  have "\<forall>n \<in> set [0..<19]. map_of exception_names (of_nat n) \<noteq> None"
    by code_simp
  then have "map_of exception_names (of_nat (unat (rg_int r))) \<noteq> None" using n by blast
  then show ?thesis by (auto simp: isr_common_handler_def)
qed

lemma pit_wait_returns: "(\<lambda>p. pi_timer_value p = 0) (fold ev [i..<i + n] pit) \<Longrightarrow> \<exists>r. pit_wait ev i pit = Some r"
proof (induction n arbitrary: i pit)
  case 0
  then show ?case by (subst pit_wait.simps) simp
next
  case (Suc n)
  show ?case
  proof (cases "pi_timer_value pit > 0")
    case True
    have "[i..<i + Suc n] = i # [Suc i..<Suc i + n]" by (simp add: upt_conv_Cons)
    then show ?thesis using Suc.IH [of "i + 1" "ev i pit"] Suc.prems True
      by (subst pit_wait.simps) simp
  qed (subst pit_wait.simps, simp)
qed

end
