(* ===== verification/Ps2.thy ===== *)
theory Ps2
  imports Interrupts
begin

text \<open>
  \<^verbatim>\<open>kernel/drivers/ps2.c\<close>, \<^verbatim>\<open>kbd.c\<close> and \<^verbatim>\<open>mouse.c\<close>: the PS/2 controller and its devices. What is written to the
  log is left out. The keyboard hands its characters to the foreground task of the kernel state of \<open>Syscall\<close>.
\<close>

section \<open>The controller\<close>

text \<open>The ports, status bits and commands of \<^verbatim>\<open>ps2.h\<close> that the drivers use, and those of \<^verbatim>\<open>mouse.h\<close>.\<close>

abbreviation (input) PS2_DATA :: u16 where "PS2_DATA \<equiv> 0x60"
abbreviation (input) PS2_STATUS :: u16 where "PS2_STATUS \<equiv> 0x64"
abbreviation (input) PS2_CMD :: u16 where "PS2_CMD \<equiv> 0x64"
abbreviation (input) PS2_STATUS_OUT :: u8 where "PS2_STATUS_OUT \<equiv> 0x01"
abbreviation (input) PS2_STATUS_IN :: u8 where "PS2_STATUS_IN \<equiv> 0x02"
abbreviation (input) PS2_CMD_READ_CFG :: u8 where "PS2_CMD_READ_CFG \<equiv> 0x20"
abbreviation (input) PS2_CMD_WRITE_CFG :: u8 where "PS2_CMD_WRITE_CFG \<equiv> 0x60"
abbreviation (input) PS2_CMD_CTRLR_TEST :: u8 where "PS2_CMD_CTRLR_TEST \<equiv> 0xAA"
abbreviation (input) PS2_CTRLR_TEST_FAIL :: u8 where "PS2_CTRLR_TEST_FAIL \<equiv> 0xFC"
abbreviation (input) PS2_CMD_PORT2_DISABLE :: u8 where "PS2_CMD_PORT2_DISABLE \<equiv> 0xA7"
abbreviation (input) PS2_CMD_PORT2_ENABLE :: u8 where "PS2_CMD_PORT2_ENABLE \<equiv> 0xA8"
abbreviation (input) PS2_CMD_PORT2_TEST :: u8 where "PS2_CMD_PORT2_TEST \<equiv> 0xA9"
abbreviation (input) PS2_CMD_PORT1_DISABLE :: u8 where "PS2_CMD_PORT1_DISABLE \<equiv> 0xAD"
abbreviation (input) PS2_CMD_PORT1_ENABLE :: u8 where "PS2_CMD_PORT1_ENABLE \<equiv> 0xAE"
abbreviation (input) PS2_CMD_PORT1_TEST :: u8 where "PS2_CMD_PORT1_TEST \<equiv> 0xAB"
abbreviation (input) PS2_TEST_SUCCESS :: u8 where "PS2_TEST_SUCCESS \<equiv> 0x00"
abbreviation (input) PS2_CMD_PORT2_IN :: u8 where "PS2_CMD_PORT2_IN \<equiv> 0xD4"
abbreviation (input) PS2_CFG_PORT1_INT :: u8 where "PS2_CFG_PORT1_INT \<equiv> 0x01"
abbreviation (input) PS2_CFG_PORT2_INT :: u8 where "PS2_CFG_PORT2_INT \<equiv> 0x02"
abbreviation (input) PS2_CFG_PORT1_CLK :: u8 where "PS2_CFG_PORT1_CLK \<equiv> 0x10"
abbreviation (input) PS2_CFG_PORT2_CLK :: u8 where "PS2_CFG_PORT2_CLK \<equiv> 0x20"
abbreviation (input) PS2_CFG_PORT1_TRANSLATION :: u8 where "PS2_CFG_PORT1_TRANSLATION \<equiv> 0x40"
abbreviation (input) PS2_DEV_CMD_RESET :: u8 where "PS2_DEV_CMD_RESET \<equiv> 0xFF"
abbreviation (input) PS2_DEV_CMD_IDENTIFY :: u8 where "PS2_DEV_CMD_IDENTIFY \<equiv> 0xF2"
abbreviation (input) PS2_DEV_CMD_SCAN_ENABLE :: u8 where "PS2_DEV_CMD_SCAN_ENABLE \<equiv> 0xF4"
abbreviation (input) PS2_DEV_CMD_SCAN_DISABLE :: u8 where "PS2_DEV_CMD_SCAN_DISABLE \<equiv> 0xF5"
abbreviation (input) PS2_DEV_ACK :: u8 where "PS2_DEV_ACK \<equiv> 0xFA"
abbreviation (input) PS2_DEV_RESET_ACK :: u8 where "PS2_DEV_RESET_ACK \<equiv> 0xAA"
abbreviation (input) PS2_MOUSE_CMD_SAMPLE_RATE :: u8 where "PS2_MOUSE_CMD_SAMPLE_RATE \<equiv> 0xF3"
abbreviation (input) PS2_MOUSE_CMD_RESOLUTION :: u8 where "PS2_MOUSE_CMD_RESOLUTION \<equiv> 0xE8"
abbreviation (input) MOUSE_PACKET_X_SIGN :: u8 where "MOUSE_PACKET_X_SIGN \<equiv> 0x10"
abbreviation (input) MOUSE_PACKET_Y_SIGN :: u8 where "MOUSE_PACKET_Y_SIGN \<equiv> 0x20"
abbreviation (input) MOUSE_PACKET_X_OVERFLOW :: u8 where "MOUSE_PACKET_X_OVERFLOW \<equiv> 0x40"
abbreviation (input) MOUSE_PACKET_Y_OVERFLOW :: u8 where "MOUSE_PACKET_Y_OVERFLOW \<equiv> 0x80"

text \<open>
  \<^verbatim>\<open>while ((status & bits) && t-- > 0)\<close>: the result is the value of \<open>t\<close> afterwards. When the patience is
  used up the last test decrements it once more, past 0.
\<close>

fun ps2_wait :: "'d ports \<Rightarrow> u8 \<Rightarrow> nat \<Rightarrow> 'd \<Rightarrow> u32 \<times> 'd" where
  "ps2_wait P bits 0 d = (case io_inb P PS2_STATUS d of (v, d1) \<Rightarrow> (if v AND bits \<noteq> 0 then 0 - 1 else 0, d1))"
| "ps2_wait P bits (Suc t) d =
     (case io_inb P PS2_STATUS d of (v, d1) \<Rightarrow>
        if v AND bits \<noteq> 0 then ps2_wait P bits t d1 else (of_nat (Suc t), d1))"

definition ps2_outb :: "'d ports \<Rightarrow> u16 \<Rightarrow> u8 \<Rightarrow> 'd \<Rightarrow> u8 \<times> 'd" where
  "ps2_outb P port data d =
     (case ps2_wait P PS2_STATUS_IN 512 d of (t, d1) \<Rightarrow>
        if t = 0 then (0xFF, d1) else (0, io_outb P port data d1))"

definition ps2_inb :: "'d ports \<Rightarrow> u16 \<Rightarrow> 'd \<Rightarrow> u8 \<times> 'd" where
  "ps2_inb P port d =
     (case ps2_wait P PS2_STATUS_OUT 512 d of (t, d1) \<Rightarrow> if t = 0 then (0xFF, d1) else io_inb P port d1)"

definition ps2_ctrlr_cmd :: "'d ports \<Rightarrow> u8 \<Rightarrow> 'd \<Rightarrow> u8 \<times> 'd" where
  "ps2_ctrlr_cmd P cmd d = ps2_outb P PS2_CMD cmd d"

text \<open>Commands in a row, their results ignored.\<close>

definition ps2_cmd :: "'d ports \<Rightarrow> u8 \<Rightarrow> 'd \<Rightarrow> 'd" where
  "ps2_cmd P cmd d = snd (ps2_ctrlr_cmd P cmd d)"

definition ps2_data :: "'d ports \<Rightarrow> u8 \<Rightarrow> 'd \<Rightarrow> 'd" where
  "ps2_data P data d = snd (ps2_outb P PS2_DATA data d)"

fun ps2_dev_cmd_loop :: "'d ports \<Rightarrow> u8 \<Rightarrow> u8 \<Rightarrow> nat \<Rightarrow> 'd \<Rightarrow> u32 \<times> 'd" where
  "ps2_dev_cmd_loop P dev cmd 0 d =
     (let d1 = (if dev = 2 then ps2_cmd P PS2_CMD_PORT2_IN d else d); (result, d2) = ps2_inb P PS2_DATA (ps2_data P cmd d1)
      in (if result \<noteq> PS2_DEV_ACK then 0 - 1 else 0, d2))"
| "ps2_dev_cmd_loop P dev cmd (Suc t) d =
     (let d1 = (if dev = 2 then ps2_cmd P PS2_CMD_PORT2_IN d else d); (result, d2) = ps2_inb P PS2_DATA (ps2_data P cmd d1)
      in if result \<noteq> PS2_DEV_ACK then ps2_dev_cmd_loop P dev cmd t d2 else (of_nat (Suc t), d2))"

definition ps2_dev_cmd :: "'d ports \<Rightarrow> u8 \<Rightarrow> u8 \<Rightarrow> 'd \<Rightarrow> u8 \<times> 'd" where
  "ps2_dev_cmd P dev cmd d = (case ps2_dev_cmd_loop P dev cmd 20 d of (t, d1) \<Rightarrow> (if t \<noteq> 0 then 1 else 0, d1))"

definition ps2_dev_cmd_expect_nothing :: "'d ports \<Rightarrow> u8 \<Rightarrow> u8 \<Rightarrow> 'd \<Rightarrow> u8 \<times> 'd" where
  "ps2_dev_cmd_expect_nothing P dev cmd d =
     ps2_outb P PS2_DATA cmd (if dev = 2 then ps2_cmd P PS2_CMD_PORT2_IN d else d)"

text \<open>The expected byte only decides what is logged.\<close>

definition ps2_expect :: "'d ports \<Rightarrow> u8 \<Rightarrow> 'd \<Rightarrow> u8 \<times> 'd" where
  "ps2_expect P expected d = ps2_inb P PS2_DATA d"

definition ps2_device_id :: "u16 \<Rightarrow> u8" where
  "ps2_device_id w =
     (if w = 0xFFFF then 1
      else if w = 0x00FF then 2
      else if w = 0x03FF then 3
      else if w = 0x41AB \<or> w = 0xC1AB then 4
      else if w = 0x83AB then 5
      else if w = 0x0000 then 7
      else let k = drop_bit 8 (w AND 0xFF) in if k = 0x0 \<or> k = 0x3 \<or> k = 0x4 then 6 else 0)"

section \<open>The keyboard\<close>

text \<open>The layouts, and their addresses in the kernel's memory.\<close>

definition kbd_layout_us :: "u8 list" where
  "kbd_layout_us = [0, 27] @ map of_char ''1234567890-='' @ [8, 9] @ map of_char ''qwertyuiop[]'' @ [10, 0] @
     map of_char ''asdfghjkl;'' @ [39, 96, 0, 92] @ map of_char ''zxcvbnm,./'' @ [0, 42, 0, 32] @
     replicate 16 0 @ [45, 0, 0, 0, 43] @ replicate 49 0"

definition kbd_layout_fr :: "u8 list" where
  "kbd_layout_fr = [0, 27, 38, 101, 34, 39, 40, 45, 101, 95, 99, 97, 41, 61, 8, 9] @ map of_char ''azertyuiop^$'' @ [10, 0] @
     map of_char ''qsdfghjklm *'' @ [0, 92] @ map of_char ''wxcvbn,;:!'' @ [0, 42, 0, 32] @
     replicate 16 0 @ [45, 0, 0, 0, 43] @ replicate 49 0"

definition kbd_layout_us_cap :: "u8 list" where
  "kbd_layout_us_cap = [0, 27] @ map of_char ''1234567890-='' @ [8, 9] @ map of_char ''QWERTYUIOP[]'' @ [10, 0] @
     map of_char ''ASDFGHJKL;'' @ [39, 96, 0, 92] @ map of_char ''ZXCVBNM,./'' @ [0, 42, 0, 32] @
     replicate 16 0 @ [45, 0, 0, 0, 43] @ replicate 49 0"

definition kbd_layout_fr_cap :: "u8 list" where
  "kbd_layout_fr_cap = [0, 27] @ map of_char ''1234567890)+'' @ [8, 9] @ map of_char ''AZERTYUIOP^$'' @ [10, 0] @
     map of_char ''QSDFGHJKLM *'' @ [0, 92] @ map of_char ''WXCVBN?./ '' @ [0, 42, 0, 32] @
     replicate 16 0 @ [45, 0, 0, 0, 43] @ replicate 49 0"

record layouts =
  ly_us :: u32
  ly_us_cap :: u32
  ly_fr :: u32
  ly_fr_cap :: u32

record kbd =
  kb_layout :: u32
  kb_layout_cap :: u32
  kb_states :: "u8 list"
  kb_last :: u8

definition kbd_start :: "layouts \<Rightarrow> kbd" where
  "kbd_start ly = \<lparr>kb_layout = ly_us ly, kb_layout_cap = ly_us_cap ly, kb_states = replicate 128 0, kb_last = 0\<rparr>"

text \<open>The configuration byte: the interrupt of the port on, its clock not disabled.\<close>

definition kbd_init :: "'d ports \<Rightarrow> u32 \<Rightarrow> u8 \<Rightarrow> u32 list \<Rightarrow> 'd \<Rightarrow> (u32 list \<times> 'd) res" where
  "kbd_init P event ch hs d =
     (let (cfg, d1) = ps2_inb P PS2_DATA (ps2_cmd P PS2_CMD_READ_CFG d);
          cfg1 = cfg OR (if ch = 2 then PS2_CFG_PORT2_INT else PS2_CFG_PORT1_INT);
          cfg2 = cfg1 OR PS2_CFG_PORT1_TRANSLATION;
          cfg3 = cfg2 AND NOT (if ch = 2 then PS2_CFG_PORT2_CLK else PS2_CFG_PORT1_CLK);
          d2 = ps2_data P cfg3 (ps2_cmd P PS2_CMD_WRITE_CFG d1);
          (_, d3) = ps2_dev_cmd P ch PS2_DEV_CMD_SCAN_ENABLE d2;
          (_, d4) = ps2_expect P PS2_DEV_ACK d3
      in rbind (irq_register hs 1 event) (\<lambda>hs1. Inr (hs1, pic_unmask P 1 d4)))"

definition kbd_set_layout :: "kbd \<Rightarrow> u32 \<Rightarrow> u32 \<Rightarrow> u8 \<times> kbd" where
  "kbd_set_layout kb layout layout_cap =
     (if layout = 0 then (0, kb) else (1, kb\<lparr>kb_layout := layout, kb_layout_cap := layout_cap\<rparr>))"

definition kbd_switch_layout :: "layouts \<Rightarrow> kbd \<Rightarrow> string \<Rightarrow> u8 \<times> kbd" where
  "kbd_switch_layout ly kb layout_name =
     (if layout_name = ''en'' then kbd_set_layout kb (ly_us ly) (ly_us_cap ly)
      else if layout_name = ''fr'' then kbd_set_layout kb (ly_fr ly) (ly_fr_cap ly)
      else (1, kb))"

text \<open>The keys from \<open>i\<close> on; \<open>key\<close> is what was found so far.\<close>

fun keydown_loop :: "u8 list \<Rightarrow> u16 \<Rightarrow> nat \<Rightarrow> nat \<Rightarrow> u16 res" where
  "keydown_loop states key i 0 = Inr key"
| "keydown_loop states key i (Suc n) =
     rbind (get_at states i) (\<lambda>st.
       if st \<noteq> 0 then
         if of_nat i \<noteq> (0xA :: u16) then Inr (of_nat i) else keydown_loop states (of_nat i) (i + 1) n
       else keydown_loop states key (i + 1) n)"

definition kbd_keydown :: "kbd \<Rightarrow> u8 res" where
  "kbd_keydown kb = rbind (keydown_loop (kb_states kb) 0xFF 0 128) (\<lambda>key. Inr (ucast key))"

definition kbd_get :: "mem \<Rightarrow> kbd \<Rightarrow> (u8 \<times> kbd) res" where
  "kbd_get m kb =
     rbind (get_at (kb_states kb) 0xA) (\<lambda>shift.
       let c = (if shift \<noteq> 0 then m (kb_layout_cap kb + ucast (kb_last kb)) else m (kb_layout kb + ucast (kb_last kb)))
       in rbind (put_at (kb_states kb) (unat (kb_last kb AND 0xF)) 0) (\<lambda>st. Inr (c, kb\<lparr>kb_states := st\<rparr>)))"

text \<open>Handing a character to the foreground task: a write into the file of its first descriptor.\<close>

definition deliver_key :: "kenv \<Rightarrow> u32 \<Rightarrow> os \<Rightarrow> os res" where
  "deliver_key e buffer s =
     (let t = mt_get_fg_task (os_sched s) in
      if t = 0 then Inr s
      else
        rbind (deref (sc_store (os_sched s)) t) (\<lambda>task.
        rbind (list_get (t_fds task) 0) (\<lambda>f.
        rbind (fd_to_node (os_files s) (case f of None \<Rightarrow> 0 | Some p \<Rightarrow> p)) (\<lambda>node.
        rbind (node_file (os_vfs s) node) (\<lambda>file.
          if vf_write file = 0 then Inl Null_deref
          else rbind (ke_write e buffer (os_mem s) (vf_write file) file 0 1) (\<lambda>(_, m). Inr (s\<lparr>os_mem := m\<rparr>)))))))"

definition kbd_event :: "'d ports \<Rightarrow> kenv \<Rightarrow> kbd \<Rightarrow> os \<Rightarrow> 'd \<Rightarrow> (kbd \<times> os \<times> 'd) res" where
  "kbd_event P e kb s d =
     (let (scancode, d1) = io_inb P 0x60 d in
      rbind (put_at (kb_states kb) (unat (scancode AND 0xF)) (if scancode AND 0x80 = 0 then 1 else 0)) (\<lambda>st.
        let kb1 = kb\<lparr>kb_states := st\<rparr> in
        if scancode AND 0x80 \<noteq> 0 then Inr (kb1, s, d1)
        else
          let kb2 = kb1\<lparr>kb_last := scancode\<rparr>
          in rbind (deliver_key e (kb_layout kb2 + ucast (kb_last kb2)) s) (\<lambda>s1. Inr (kb2, s1, d1))))"

section \<open>The mouse\<close>

record mouse =
  mo_byte :: u8
  mo_x :: int
  mo_y :: int
  mo_vx :: int
  mo_vy :: int
  mo_xs :: u32
  mo_ys :: u32

definition mouse_start :: mouse where
  "mouse_start = \<lparr>mo_byte = 0, mo_x = 0, mo_y = 0, mo_vx = 0, mo_vy = 0, mo_xs = 1, mo_ys = 1\<rparr>"

definition mouse_event :: "'d ports \<Rightarrow> mouse \<Rightarrow> 'd \<Rightarrow> mouse \<times> 'd" where
  "mouse_event P mo d =
     (let (p, d1) = io_inb P 0x60 d in
      if mo_byte mo = 0 then
        (if p AND MOUSE_PACKET_X_OVERFLOW \<noteq> 0 \<or> p AND MOUSE_PACKET_Y_OVERFLOW \<noteq> 0 then (mo, d1)
         else (mo\<lparr>mo_xs := ucast (p AND MOUSE_PACKET_X_SIGN), mo_ys := ucast (p AND MOUSE_PACKET_Y_SIGN), mo_byte := mo_byte mo + 1\<rparr>, d1))
      else if mo_byte mo = 1 then
        (mo\<lparr>mo_vx := (if mo_xs mo \<noteq> 0 then sint p else uint p), mo_byte := mo_byte mo + 1\<rparr>, d1)
      else
        let vy = (if mo_ys mo \<noteq> 0 then sint p else uint p);
            x1 = mo_x mo + mo_vx mo; y1 = mo_y mo - vy;
            x2 = (if x1 > 1024 then 1024 else x1); y2 = (if y1 > 768 then 768 else y1);
            x3 = (if x2 < 0 then 0 else x2); y3 = (if y2 < 0 then 0 else y2)
        in (mo\<lparr>mo_vy := vy, mo_x := x3, mo_y := y3, mo_byte := 0\<rparr>, d1))"

definition mouse_init :: "'d ports \<Rightarrow> u32 \<Rightarrow> u8 \<Rightarrow> u32 list \<Rightarrow> 'd \<Rightarrow> (u32 list \<times> 'd) res" where
  "mouse_init P event ch hs d =
     (let (cfg, d1) = ps2_inb P PS2_DATA (ps2_cmd P PS2_CMD_READ_CFG d);
          cfg1 = cfg OR (if ch = 2 then PS2_CFG_PORT2_INT else PS2_CFG_PORT1_INT);
          cfg2 = cfg1 AND NOT (if ch = 2 then PS2_CFG_PORT2_CLK else PS2_CFG_PORT1_CLK);
          d2 = ps2_data P cfg2 (ps2_cmd P PS2_CMD_WRITE_CFG d1);
          d3 = snd (ps2_dev_cmd P ch PS2_DEV_CMD_SCAN_ENABLE d2);
          d4 = snd (ps2_dev_cmd P ch PS2_MOUSE_CMD_SAMPLE_RATE d3);
          d5 = ps2_data P 80 (if ch = 2 then ps2_cmd P PS2_CMD_PORT2_IN d4 else d4);
          d6 = snd (ps2_dev_cmd P ch PS2_MOUSE_CMD_RESOLUTION d5);
          d7 = ps2_data P 0 (if ch = 2 then ps2_cmd P PS2_CMD_PORT2_IN d6 else d6)
      in rbind (irq_register hs 12 event) (\<lambda>hs1. Inr (hs1, pic_unmask P 12 d7)))"

section \<open>Detection\<close>

datatype ps2_driver = Kbd_init | Mouse_init

definition ps2_device_drivers :: "ps2_driver option list" where
  "ps2_device_drivers = [None, Some Kbd_init, Some Mouse_init, Some Mouse_init, Some Kbd_init, Some Kbd_init,
     Some Mouse_init, Some Kbd_init]"

definition ps2_device_driver :: "u16 \<Rightarrow> ps2_driver option res" where
  "ps2_device_driver w = get_at ps2_device_drivers (unat (ps2_device_id w))"

definition enable_cmd :: "u8 \<Rightarrow> u8" where
  "enable_cmd ch = (if ch = 1 then PS2_CMD_PORT1_ENABLE else PS2_CMD_PORT2_ENABLE)"

definition disable_cmd :: "u8 \<Rightarrow> u8" where
  "disable_cmd ch = (if ch = 1 then PS2_CMD_PORT1_DISABLE else PS2_CMD_PORT2_DISABLE)"

text \<open>\<open>kev\<close> and \<open>mev\<close> are the addresses of \<^verbatim>\<open>kbd_event\<close> and \<^verbatim>\<open>mouse_event\<close>.\<close>

definition init_device :: "'d ports \<Rightarrow> u32 \<Rightarrow> u32 \<Rightarrow> u8 \<Rightarrow> u32 list \<Rightarrow> 'd \<Rightarrow> (u32 list \<times> 'd) res" where
  "init_device P kev mev ch hs d =
     (let d1 = ps2_cmd P (enable_cmd ch) d;
          d2 = snd (ps2_dev_cmd P ch PS2_DEV_CMD_SCAN_DISABLE d1);
          d3 = snd (ps2_dev_cmd P ch PS2_DEV_CMD_IDENTIFY d2);
          (b1, d4) = ps2_inb P PS2_DATA d3;
          (b2, d5) = ps2_inb P PS2_DATA d4;
          w = ucast b1 OR push_bit 8 (ucast b2)
      in rbind (ps2_device_driver w) (\<lambda>drv.
         case drv of None \<Rightarrow> Inr (hs, d5)
         | Some Kbd_init \<Rightarrow> kbd_init P kev ch hs d5
         | Some Mouse_init \<Rightarrow> mouse_init P mev ch hs d5))"

fun init_devices :: "'d ports \<Rightarrow> u32 \<Rightarrow> u32 \<Rightarrow> u8 list \<Rightarrow> nat list \<Rightarrow> u32 list \<Rightarrow> 'd \<Rightarrow> (u32 list \<times> 'd) res" where
  "init_devices P kev mev chs [] hs d = Inr (hs, d)"
| "init_devices P kev mev chs (i # is) hs d =
     rbind (get_at chs i) (\<lambda>c.
       if c = 0 then init_devices P kev mev chs is hs d
       else rbind (init_device P kev mev (of_nat i + 1) hs d) (\<lambda>(hs1, d1). init_devices P kev mev chs is hs1 d1))"

definition ps2_initialize_present_devices ::
    "'d ports \<Rightarrow> u32 \<Rightarrow> u32 \<Rightarrow> u8 list \<Rightarrow> u32 list \<Rightarrow> 'd \<Rightarrow> (u8 \<times> u32 list \<times> 'd) res" where
  "ps2_initialize_present_devices P kev mev chs hs d =
     rbind (init_devices P kev mev chs [0, 1] hs d) (\<lambda>(hs1, d1). Inr (0, hs1, d1))"

text \<open>Resetting the device of a channel: the channel is dropped when the second device gives no known answer.\<close>

definition reset_ack :: "u8 \<Rightarrow> u8 \<Rightarrow> bool" where
  "reset_ack A0 A1 \<longleftrightarrow>
     (A0 = PS2_DEV_ACK \<and> A1 = PS2_DEV_RESET_ACK) \<or> (A1 = PS2_DEV_ACK \<and> A0 = PS2_DEV_RESET_ACK) \<or>
     (A0 = PS2_DEV_RESET_ACK \<and> (A1 = PS2_DEV_ACK \<or> A1 = 0)) \<or>
     ((A0 = PS2_DEV_ACK \<or> A0 = 0x00) \<and> A1 = PS2_DEV_RESET_ACK)"

definition reset_device :: "'d ports \<Rightarrow> u8 list \<Rightarrow> nat \<Rightarrow> 'd \<Rightarrow> (u8 list \<times> 'd) res" where
  "reset_device P chs i d =
     rbind (get_at chs i) (\<lambda>c.
       if c = 0 then Inr (chs, d)
       else
         let ch = of_nat i + 1;
             d1 = ps2_cmd P (enable_cmd ch) d;
             d2 = snd (ps2_dev_cmd_expect_nothing P ch PS2_DEV_CMD_RESET d1)
         in if ch = 1 then Inr (chs, snd (ps2_expect P PS2_DEV_ACK d2))
         else
           let (A0, d3) = ps2_inb P PS2_DATA d2;
               (A1, d4) = ps2_inb P PS2_DATA d3;
               d5 = ps2_cmd P (disable_cmd ch) d4
           in if reset_ack A0 A1 then Inr (chs, d5) else rbind (put_at chs i 0) (\<lambda>chs1. Inr (chs1, d5)))"

text \<open>Testing the controller; the results are the configuration byte and whether there are two channels.\<close>

definition ps2_configure :: "'d ports \<Rightarrow> 'd \<Rightarrow> u8 \<times> bool \<times> 'd" where
  "ps2_configure P d =
     (let d1 = ps2_cmd P PS2_CMD_PORT2_DISABLE (ps2_cmd P PS2_CMD_PORT1_DISABLE d);
          (_, d2) = ps2_inb P PS2_DATA d1;
          (cfg, d3) = ps2_inb P PS2_DATA (ps2_cmd P PS2_CMD_READ_CFG d2);
          dual = (cfg AND PS2_CFG_PORT2_CLK = 0);
          cfg1 = cfg AND NOT (PS2_CFG_PORT1_INT OR PS2_CFG_PORT2_INT OR PS2_CFG_PORT1_TRANSLATION);
          d4 = ps2_data P cfg1 (ps2_cmd P PS2_CMD_WRITE_CFG d3)
      in (cfg1, dual, d4))"

definition ps2_second_channel :: "'d ports \<Rightarrow> bool \<Rightarrow> 'd \<Rightarrow> bool \<times> 'd" where
  "ps2_second_channel P dual d =
     (if dual then (dual, d)
      else
        let d1 = ps2_cmd P PS2_CMD_PORT2_ENABLE d;
            (cfg, d2) = ps2_inb P PS2_DATA (ps2_cmd P PS2_CMD_READ_CFG d1)
        in (cfg AND PS2_CFG_PORT2_CLK = 0, ps2_cmd P PS2_CMD_PORT2_DISABLE d2))"

definition ps2_test_port :: "'d ports \<Rightarrow> u8 \<Rightarrow> nat \<Rightarrow> u8 list \<Rightarrow> 'd \<Rightarrow> (u8 list \<times> 'd) res" where
  "ps2_test_port P cmd i chs d =
     (let (r, d1) = ps2_inb P PS2_DATA (ps2_cmd P cmd d)
      in if r \<noteq> PS2_TEST_SUCCESS then Inr (chs, d1) else rbind (put_at chs i 1) (\<lambda>chs1. Inr (chs1, d1)))"

text \<open>\<open>ifl\<close> is the interrupt flag; a failing test returns without restoring it.\<close>

definition ps2_init :: "'d ports \<Rightarrow> u32 \<Rightarrow> u32 \<Rightarrow> u8 list \<Rightarrow> u32 list \<Rightarrow> bool \<Rightarrow> 'd \<Rightarrow>
    (u8 \<times> u8 list \<times> u32 list \<times> bool \<times> 'd) res" where
  "ps2_init P kev mev chs hs ifl d =
     (let (cfg, dual0, d1) = ps2_configure P d;
          (test, d2) = ps2_inb P PS2_DATA (ps2_cmd P PS2_CMD_CTRLR_TEST d1)
      in if test = PS2_CTRLR_TEST_FAIL then Inr (1, chs, hs, False, d2)
      else
        let d3 = ps2_data P cfg (ps2_cmd P PS2_CMD_WRITE_CFG d2);
            (dual, d4) = ps2_second_channel P dual0 d3
        in rbind (ps2_test_port P PS2_CMD_PORT1_TEST 0 chs d4) (\<lambda>(chs1, d5).
           rbind (if dual then ps2_test_port P PS2_CMD_PORT2_TEST 1 chs1 d5 else Inr (chs1, d5)) (\<lambda>(chs2, d6).
           rbind (reset_device P chs2 0 d6) (\<lambda>(chs3, d7).
           rbind (reset_device P chs3 1 d7) (\<lambda>(chs4, d8).
           rbind (ps2_initialize_present_devices P kev mev chs4 hs d8) (\<lambda>(r, hs1, d9).
           Inr (r, chs4, hs1, ifl, d9)))))))"

section \<open>Waiting for the controller\<close>

text \<open>A controller whose status always reads the same.\<close>

lemma ps2_wait_stuck:
  assumes "\<And>d. io_inb P 0x64 d = (v, d)"
  shows "ps2_wait P bits t d = (if v AND bits \<noteq> 0 then 0 - 1 else of_nat t, d)"
  using assms by (induction t) auto

text \<open>
  The test for the time limit is the wrong way round: waiting for a controller that never becomes ready
  ends in the write all the same, reported as a success.
\<close>

lemma ps2_outb_never_ready:
  assumes "\<And>d. io_inb P 0x64 d = (v, d)" and "v AND 0x02 \<noteq> 0"
  shows "ps2_outb P port data d = (0, io_outb P port data d)"
  using ps2_wait_stuck [OF assms(1)] assms(2) by (simp add: ps2_outb_def)

text \<open>The high byte of a device identification never matters.\<close>

lemma ps2_device_id_default: "ps2_device_id w \<noteq> 0"
proof -
  have m: "(0xFF :: u16) = mask 8" by (simp add: mask_eq_exp_minus_1)
  have "drop_bit 8 (w AND 0xFF) = 0"
    unfolding m by (rule bit_word_eqI) (simp add: bit_simps)
  then show ?thesis by (simp add: ps2_device_id_def)
qed

section \<open>The pointer stays on the screen\<close>

definition mouse_ok :: "mouse \<Rightarrow> bool" where
  "mouse_ok mo \<longleftrightarrow> mo_byte mo \<le> 2 \<and> 0 \<le> mo_x mo \<and> mo_x mo \<le> 1024 \<and> 0 \<le> mo_y mo \<and> mo_y mo \<le> 768 \<and>
     - 128 \<le> mo_vx mo \<and> mo_vx mo \<le> 255 \<and> - 128 \<le> mo_vy mo \<and> mo_vy mo \<le> 255"

text \<open>The interrupts of \<open>n\<close> bytes.\<close>

definition mouse_events :: "'d ports \<Rightarrow> nat \<Rightarrow> mouse \<Rightarrow> 'd \<Rightarrow> mouse \<times> 'd" where
  "mouse_events P n mo d = ((\<lambda>(m, d). mouse_event P m d) ^^ n) (mo, d)"

lemma byte_range: "- 128 \<le> sint (p :: u8)" "sint (p :: u8) \<le> 127" "uint (p :: u8) \<le> 255" "- 128 \<le> uint (p :: u8)"
  using sint_ge [of p] sint_lt [of p] uint_lt2p [of p] order_trans [of "- 128" 0 "uint p"] by simp_all

lemma mouse_event_ok: "mouse_ok mo \<Longrightarrow> mouse_ok (fst (mouse_event P mo d))"
proof -
  assume ok: "mouse_ok mo"
  obtain p d1 where p: "io_inb P 0x60 d = (p, d1)" by fastforce
  note r = byte_range [of p]
  have "mo_byte mo = 0 \<or> mo_byte mo = 1 \<or> mo_byte mo = 2"
    using ok unfolding mouse_ok_def word_le_nat_alt by (auto simp: word_unat_eq_iff)
  then show ?thesis
    using ok r p by (auto simp: mouse_event_def mouse_ok_def Let_def)
qed


text \<open>A movement of nine bits below -128 loses its sign bit and becomes positive.\<close>

lemma mouse_sign_lost:
  assumes "io_inb P 0x60 d = (p, d1)" and "mo_byte mo = 1" and "mo_xs mo \<noteq> 0" and "p < 128"
  shows "mo_vx (fst (mouse_event P mo d)) = uint p" and "mo_vx (fst (mouse_event P mo d)) \<ge> 0"
proof -
  have "uint p < 128" using assms(4) by (simp add: word_less_def)
  then have "sint p = uint p" by (simp add: sint_uint signed_take_bit_eq_take_bit_shift take_bit_eq_mod)
  then show "mo_vx (fst (mouse_event P mo d)) = uint p" using assms by (simp add: mouse_event_def)
  then show "mo_vx (fst (mouse_event P mo d)) \<ge> 0" by simp
qed

text \<open>A key whose code ends in the hexadecimal digit A counts as the shift key.\<close>

lemma shifted_by_any_A_key:
  assumes "io_inb P 0x60 d = (scancode, d1)" and "scancode AND 0x8F = 0x0A" and "kbd_event P e kb s d = Inr (kb1, s1, d1)"
  shows "kb_states kb1 ! 0xA = 1"
proof -
  have "scancode AND 0xF = (scancode AND 0x8F) AND 0xF" and "scancode AND 0x80 = (scancode AND 0x8F) AND 0x80"
    by (simp_all add: and.assoc)
  then have "scancode AND 0xF = 0xA" and "scancode AND 0x80 = 0" by (simp_all add: assms(2))
  then show ?thesis using assms(1,3) by (auto simp: kbd_event_def put_at_eq_Inr)
qed

end
