(* ===== verification/Screen.thy ===== *)
theory Screen
  imports Libk_String Io_Ports Default_Font
begin

text \<open>
  \<^verbatim>\<open>kernel/vga/vga.c\<close>, \<^verbatim>\<open>vesa/vesa.c\<close>, \<^verbatim>\<open>term/vga/vga_term.c\<close>, \<^verbatim>\<open>term/vesa/vesa_term.c\<close> and \<^verbatim>\<open>term/term.c\<close>: the text
  mode and the graphic terminal, and the table of functions through which the kernel writes to the one
  that was chosen. The video memory is apart from the memory that holds the strings.
\<close>

section \<open>State\<close>

datatype vga_color = VGA_BLACK | VGA_BLUE | VGA_GREEN | VGA_CYAN | VGA_RED | VGA_MAGENTA | VGA_BROWN
  | VGA_LIGHT_GREY | VGA_DARK_GREY | VGA_LIGHT_BLUE | VGA_LIGHT_GREEN | VGA_LIGHT_CYAN | VGA_LIGHT_RED
  | VGA_LIGHT_MAGENTA | VGA_LIGHT_BROWN | VGA_WHITE

fun vga_code :: "vga_color \<Rightarrow> u8" where
  "vga_code VGA_BLACK = 0x0" | "vga_code VGA_BLUE = 0x1" | "vga_code VGA_GREEN = 0x2" | "vga_code VGA_CYAN = 0x3"
| "vga_code VGA_RED = 0x4" | "vga_code VGA_MAGENTA = 0x5" | "vga_code VGA_BROWN = 0x6" | "vga_code VGA_LIGHT_GREY = 0x7"
| "vga_code VGA_DARK_GREY = 0x8" | "vga_code VGA_LIGHT_BLUE = 0x9" | "vga_code VGA_LIGHT_GREEN = 0xA"
| "vga_code VGA_LIGHT_CYAN = 0xB" | "vga_code VGA_LIGHT_RED = 0xC" | "vga_code VGA_LIGHT_MAGENTA = 0xD"
| "vga_code VGA_LIGHT_BROWN = 0xE" | "vga_code VGA_WHITE = 0xF"

text \<open>The text screen: \<open>vt_fb\<close> are the cells from the start of the frame buffer on.\<close>

record vga_term =
  vt_color :: u16
  vt_row :: u32
  vt_column :: u32
  vt_fb :: "u32 \<Rightarrow> u16"

text \<open>The graphic screen: the parameters of the mode, the addresses of both buffers and their memory.\<close>

record vesa =
  ve_fb :: u32
  ve_back :: u32
  ve_width :: u32
  ve_height :: u32
  ve_pitch :: u32
  ve_bpp :: u32
  ve_mem :: mem

record vesa_term =
  vs_row :: u32
  vs_col :: u32
  vs_color :: u32
  vs_vesa_fb :: u32

text \<open>
  Both terminals, the devices, whether the scheduler is running (\<^verbatim>\<open>mt_is_initialized\<close>) and the interrupt flag.
\<close>

record 'd screen =
  sn_vga :: vga_term
  sn_vesa :: vesa
  sn_term :: vesa_term
  sn_dev :: 'd
  sn_mt :: bool
  sn_if :: bool

text \<open>The part of an operation between saving and restoring the interrupt flag.\<close>

definition irq_guard :: "('d screen \<Rightarrow> 'd screen res) \<Rightarrow> 'd screen \<Rightarrow> 'd screen res" where
  "irq_guard f s =
     (let ef = (if sn_mt s then sn_if s else False);
          s1 = (if sn_mt s then s\<lparr>sn_if := False\<rparr> else s)
      in rbind (f s1) (\<lambda>s2. Inr (if sn_mt s2 then s2\<lparr>sn_if := ef\<rparr> else s2)))"

section \<open>Colours\<close>

definition vga_color_byte :: "vga_color \<Rightarrow> vga_color \<Rightarrow> u8" where
  "vga_color_byte fg bg = push_bit 4 (vga_code bg) OR vga_code fg"

definition vga_char :: "u8 \<Rightarrow> u8 \<Rightarrow> u16" where
  "vga_char c color = push_bit 8 (ucast color) OR ucast c"


text \<open>The colours of \<^verbatim>\<open>nice_colors.h\<close>.\<close>

abbreviation (input) NICE_FG :: u32 where "NICE_FG \<equiv> 0x1d2342"
abbreviation (input) NICE_BG :: u32 where "NICE_BG \<equiv> 0x0A050F"
abbreviation (input) NICE_CUR :: u32 where "NICE_CUR \<equiv> 0xffffff"
abbreviation (input) NICE_BLACK_0 :: u32 where "NICE_BLACK_0 \<equiv> 0x686868"
abbreviation (input) NICE_BLACK :: u32 where "NICE_BLACK \<equiv> 0x101116"
abbreviation (input) NICE_RED_0 :: u32 where "NICE_RED_0 \<equiv> 0xff6e67"
abbreviation (input) NICE_RED :: u32 where "NICE_RED \<equiv> 0xff5680"
abbreviation (input) NICE_GREEN_0 :: u32 where "NICE_GREEN_0 \<equiv> 0x5ffa68"
abbreviation (input) NICE_GREEN :: u32 where "NICE_GREEN \<equiv> 0x00ff9c"
abbreviation (input) NICE_YELLOW_0 :: u32 where "NICE_YELLOW_0 \<equiv> 0xfffc67"
abbreviation (input) NICE_YELLOW :: u32 where "NICE_YELLOW \<equiv> 0xfffc58"
abbreviation (input) NICE_BLUE_0 :: u32 where "NICE_BLUE_0 \<equiv> 0x6871ff"
abbreviation (input) NICE_BLUE :: u32 where "NICE_BLUE \<equiv> 0x00b0ff"
abbreviation (input) NICE_MAGENTA_0 :: u32 where "NICE_MAGENTA_0 \<equiv> 0xd682ec"
abbreviation (input) NICE_MAGENTA :: u32 where "NICE_MAGENTA \<equiv> 0xd57bff"
abbreviation (input) NICE_CYAN_0 :: u32 where "NICE_CYAN_0 \<equiv> 0x60fdff"
abbreviation (input) NICE_CYAN :: u32 where "NICE_CYAN \<equiv> 0x76c1ff"
abbreviation (input) NICE_WHITE_0 :: u32 where "NICE_WHITE_0 \<equiv> 0xffffff"
abbreviation (input) NICE_WHITE :: u32 where "NICE_WHITE \<equiv> 0xc7c7c7"

text \<open>The colours of the graphic terminal and what the text terminal shows for them; others change nothing.\<close>

definition vesa_colors :: "(u32 \<times> vga_color) list" where
  "vesa_colors =
     [(NICE_FG, VGA_WHITE), (NICE_BG, VGA_BLACK), (NICE_BLACK_0, VGA_BLACK), (NICE_BLACK, VGA_BLACK),
      (NICE_RED_0, VGA_RED), (NICE_RED, VGA_LIGHT_RED), (NICE_GREEN_0, VGA_GREEN), (NICE_GREEN, VGA_LIGHT_GREEN),
      (NICE_YELLOW_0, VGA_BROWN), (NICE_YELLOW, VGA_LIGHT_BROWN), (NICE_BLUE_0, VGA_BLUE), (NICE_BLUE, VGA_LIGHT_BLUE),
      (NICE_MAGENTA_0, VGA_MAGENTA), (NICE_MAGENTA, VGA_LIGHT_MAGENTA), (NICE_CYAN_0, VGA_CYAN), (NICE_CYAN, VGA_LIGHT_CYAN),
      (NICE_WHITE_0, VGA_DARK_GREY), (NICE_WHITE, VGA_WHITE)]"

section \<open>The text terminal\<close>

definition upd_vga :: "(vga_term \<Rightarrow> vga_term) \<Rightarrow> 'd screen \<Rightarrow> 'd screen" where
  "upd_vga f s = s\<lparr>sn_vga := f (sn_vga s)\<rparr>"

definition vga_term_use_color :: "vga_color \<Rightarrow> vga_color \<Rightarrow> 'd screen \<Rightarrow> 'd screen" where
  "vga_term_use_color fg bg s = upd_vga (\<lambda>v. v\<lparr>vt_color := ucast (vga_color_byte fg bg)\<rparr>) s"

definition vga_term_use_vesa_color :: "u32 \<Rightarrow> 'd screen \<Rightarrow> 'd screen" where
  "vga_term_use_vesa_color color s =
     (case map_of vesa_colors color of None \<Rightarrow> s | Some fg \<Rightarrow> vga_term_use_color fg VGA_BLACK s)"

text \<open>The size of the text screen in \<^verbatim>\<open>vga.h\<close>, and of the frame buffer and the font in \<^verbatim>\<open>vesa_term.h\<close>.\<close>

abbreviation (input) VGA_WIDTH :: "'a::numeral" where "VGA_WIDTH \<equiv> 80"
abbreviation (input) VGA_HEIGHT :: "'a::numeral" where "VGA_HEIGHT \<equiv> 25"
abbreviation (input) FB_HEIGHT :: "'a::numeral" where "FB_HEIGHT \<equiv> 768"
abbreviation (input) FB_WIDTH :: "'a::numeral" where "FB_WIDTH \<equiv> 1024"
abbreviation (input) FONT_HEIGHT :: "'a::numeral" where "FONT_HEIGHT \<equiv> 16"
abbreviation (input) FONT_WIDTH :: "'a::numeral" where "FONT_WIDTH \<equiv> 8"
abbreviation (input) FB_ROWS :: "'a::numeral" where "FB_ROWS \<equiv> 48"
abbreviation (input) FB_COLS :: "'a::numeral" where "FB_COLS \<equiv> 128"

definition vga_term_cur_mov :: "'d ports \<Rightarrow> u32 \<Rightarrow> u32 \<Rightarrow> 'd screen \<Rightarrow> 'd screen" where
  "vga_term_cur_mov P x y s =
     (let index = ucast (x + VGA_WIDTH * y) :: u16;
          d = out_all P [(0x3D4, 0x0F), (0x3D5, ucast (index AND 0xFF)), (0x3D4, 0x0E),
                (0x3D5, ucast (drop_bit 8 index AND 0xFF))] (sn_dev s)
      in upd_vga (\<lambda>v. v\<lparr>vt_row := y, vt_column := x\<rparr>) (s\<lparr>sn_dev := d\<rparr>))"

definition vga_term_cur_pos :: "'d ports \<Rightarrow> 'd \<Rightarrow> u16 \<times> 'd" where
  "vga_term_cur_pos P d =
     (let (lo, d1) = io_inb P 0x3D5 (io_outb P 0x3D4 0x0F d);
          (hi, d2) = io_inb P 0x3D5 (io_outb P 0x3D4 0x0E d1)
      in (ucast lo OR push_bit 8 (ucast hi), d2))"

definition vga_term_cur_step :: "'d ports \<Rightarrow> 'd screen \<Rightarrow> 'd screen" where
  "vga_term_cur_step P s = vga_term_cur_mov P (vt_column (sn_vga s)) (vt_row (sn_vga s)) s"

text \<open>The cells are moved in the order of the two loops; \<open>k\<close> is \<^verbatim>\<open>i * VGA_WIDTH + j\<close>.\<close>

fun vga_scroll_loop :: "(u32 \<Rightarrow> u16) \<Rightarrow> u32 \<Rightarrow> nat \<Rightarrow> u32 \<Rightarrow> u16" where
  "vga_scroll_loop fb k 0 = fb"
| "vga_scroll_loop fb k (Suc n) = vga_scroll_loop (fb(k := fb (k + VGA_WIDTH))) (k + 1) n"

definition vga_term_scroll :: "'d screen \<Rightarrow> 'd screen" where
  "vga_term_scroll s = upd_vga (\<lambda>v. v\<lparr>vt_fb := vga_scroll_loop (vt_fb v) 0 (VGA_HEIGHT * VGA_WIDTH)\<rparr>) s"

definition vga_term_clear :: "'d ports \<Rightarrow> 'd screen \<Rightarrow> 'd screen" where
  "vga_term_clear P s = vga_term_cur_mov P 0 0 ((vga_term_scroll ^^ VGA_HEIGHT) s)"

definition vga_term_putat :: "'d ports \<Rightarrow> u8 \<Rightarrow> u32 \<Rightarrow> u32 \<Rightarrow> 'd screen \<Rightarrow> 'd screen" where
  "vga_term_putat P c x y s =
     vga_term_cur_step P (upd_vga (\<lambda>v. v\<lparr>vt_fb := (vt_fb v)(x + y * VGA_WIDTH := vga_char c (ucast (vt_color v)))\<rparr>) s)"

fun vga_fill_loop :: "'d ports \<Rightarrow> u32 \<Rightarrow> u32 \<Rightarrow> nat \<Rightarrow> 'd screen \<Rightarrow> 'd screen" where
  "vga_fill_loop P x y 0 s = s"
| "vga_fill_loop P x y (Suc n) s =
     (let s1 = vga_term_putat P 32 x y s in
      if x + 1 < VGA_WIDTH then vga_fill_loop P (x + 1) y n s1 else vga_fill_loop P 0 (y + 1) n s1)"

definition vga_term_fill :: "'d ports \<Rightarrow> vga_color \<Rightarrow> 'd screen \<Rightarrow> 'd screen" where
  "vga_term_fill P color s =
     vga_term_use_color VGA_WHITE VGA_BLACK (vga_fill_loop P 0 0 (VGA_HEIGHT * VGA_WIDTH) (vga_term_use_color color color s))"

fun vga_blank :: "(u32 \<Rightarrow> u16) \<Rightarrow> u16 \<Rightarrow> u32 \<Rightarrow> nat \<Rightarrow> u32 \<Rightarrow> u16" where
  "vga_blank fb v k 0 = fb"
| "vga_blank fb v k (Suc n) = vga_blank (fb(k := v)) v (k + 1) n"

definition vga_term_init :: "'d ports \<Rightarrow> 'd screen \<Rightarrow> 'd screen" where
  "vga_term_init P s =
     (let s1 = upd_vga (\<lambda>v. v\<lparr>vt_row := 0, vt_column := 0\<rparr>) s;
          s2 = vga_term_cur_mov P 0 0 (vga_term_use_color VGA_WHITE VGA_BLACK s1)
      in upd_vga (\<lambda>v. v\<lparr>vt_fb := vga_blank (vt_fb v) (vga_char 32 (ucast (vt_color v))) 0 (VGA_WIDTH * VGA_HEIGHT)\<rparr>) s2)"

text \<open>\<^verbatim>\<open>while (column + 1 > i) i += 4\<close>: near the largest column it never ends.\<close>

partial_function (option) tab_stop :: "u32 \<Rightarrow> u32 \<Rightarrow> u32 option" where
  "tab_stop column i = (if column + 1 > i then tab_stop column (i + 4) else Some i)"

definition next_tab :: "u32 \<Rightarrow> u32 res" where
  "next_tab column = (case tab_stop column 0 of None \<Rightarrow> Inl Diverges | Some i \<Rightarrow> Inr i)"

definition vga_next_line :: "'d screen \<Rightarrow> 'd screen" where
  "vga_next_line s =
     (let s1 = upd_vga (\<lambda>v. v\<lparr>vt_column := 0, vt_row := vt_row v + 1\<rparr>) s in
      if vt_row (sn_vga s1) = VGA_HEIGHT then vga_term_scroll (upd_vga (\<lambda>v. v\<lparr>vt_row := vt_row v - 1\<rparr>) s1) else s1)"

definition vga_term_putchar :: "'d ports \<Rightarrow> u8 \<Rightarrow> 'd screen \<Rightarrow> 'd screen res" where
  "vga_term_putchar P c s =
     (if c = 10 then Inr (vga_term_cur_step P (vga_next_line s))
      else if c = 8 then
        let s1 = vga_term_cur_step P (upd_vga (\<lambda>v. v\<lparr>vt_column := vt_column v - 1\<rparr>) s)
        in Inr (vga_term_putat P 32 (vt_column (sn_vga s1)) (vt_row (sn_vga s1)) s1)
      else if c = 9 then
        rbind (next_tab (vt_column (sn_vga s))) (\<lambda>i.
        Inr (vga_term_cur_step P (upd_vga (\<lambda>v. v\<lparr>vt_column := i\<rparr>) s)))
      else
        let s1 = (if vt_column (sn_vga s) + 1 = VGA_WIDTH then vga_next_line s else s);
            x = vt_column (sn_vga s1);
            s2 = upd_vga (\<lambda>v. v\<lparr>vt_column := x + 1\<rparr>) s1
        in Inr (vga_term_putat P c x (vt_row (sn_vga s2)) s2))"

text \<open>Printing a string: every byte in front of the terminator. The hexadecimal digits are upper case.\<close>

fun put_all :: "(u8 \<Rightarrow> 's \<Rightarrow> 's res) \<Rightarrow> u8 list \<Rightarrow> 's \<Rightarrow> 's res" where
  "put_all putc [] s = Inr s"
| "put_all putc (c # cs) s = rbind (putc c s) (put_all putc cs)"

definition vga_term_print :: "'d ports \<Rightarrow> u8 list \<Rightarrow> 'd screen \<Rightarrow> 'd screen res" where
  "vga_term_print P string s = put_all (vga_term_putchar P) string s"

definition hex_digit :: "u32 \<Rightarrow> nat \<Rightarrow> u8" where
  "hex_digit x k = of_char (''0123456789ABCDEF'' ! unat (drop_bit (4 * k) x AND 0xF))"

definition hex_digits :: "u32 \<Rightarrow> u8 list" where
  "hex_digits x = [hex_digit x 7, hex_digit x 6, hex_digit x 5, hex_digit x 4, hex_digit x 3, hex_digit x 2,
     hex_digit x 1, hex_digit x 0]"

definition vga_term_print_hex :: "'d ports \<Rightarrow> u32 \<Rightarrow> 'd screen \<Rightarrow> 'd screen res" where
  "vga_term_print_hex P x s =
     rbind (vga_term_print P (map of_char ''0x'') s) (put_all (vga_term_putchar P) (hex_digits x))"

section \<open>The graphic screen\<close>

definition upd_vesa :: "(vesa \<Rightarrow> vesa) \<Rightarrow> 'd screen \<Rightarrow> 'd screen" where
  "upd_vesa f s = s\<lparr>sn_vesa := f (sn_vesa s)\<rparr>"

record mode_info =
  mi_addr :: u64
  mi_width :: u32
  mi_height :: u32
  mi_pitch :: u32
  mi_bpp :: u8

text \<open>\<open>back\<close> is what \<^verbatim>\<open>kmalloc\<close> returns for the back buffer.\<close>

definition vesa_init :: "mode_info \<Rightarrow> u32 \<Rightarrow> 'd screen \<Rightarrow> 'd screen" where
  "vesa_init mbi back s =
     upd_vesa (\<lambda>v. v\<lparr>ve_fb := ucast (mi_addr mbi), ve_width := mi_width mbi, ve_height := mi_height mbi,
       ve_pitch := mi_pitch mbi, ve_bpp := ucast (mi_bpp mbi), ve_back := back\<rparr>) s"

fun swap_loop :: "mem \<Rightarrow> u32 \<Rightarrow> u32 \<Rightarrow> nat \<Rightarrow> mem" where
  "swap_loop m a b 0 = m"
| "swap_loop m a b (Suc n) =
     (let m1 = (if ld32 m a \<noteq> ld32 m b then st32 m a (ld32 m b) else m) in swap_loop m1 (a + 4) (b + 4) n)"

definition vesa_pixels :: "vesa \<Rightarrow> nat" where
  "vesa_pixels v = unat (ve_height v * ve_width v)"

definition vesa_swap_buffers :: "'d screen \<Rightarrow> 'd screen" where
  "vesa_swap_buffers s = upd_vesa (\<lambda>v. v\<lparr>ve_mem := swap_loop (ve_mem v) (ve_fb v) (ve_back v) (vesa_pixels v)\<rparr>) s"

definition vesa_write :: "u32 \<Rightarrow> u32 \<Rightarrow> u32 \<Rightarrow> 'd screen \<Rightarrow> 'd screen" where
  "vesa_write offset buffer n s = upd_vesa (\<lambda>v. v\<lparr>ve_mem := snd (memcpy (ve_mem v) (ve_fb v + offset) buffer n)\<rparr>) s"

fun clear_loop :: "mem \<Rightarrow> u32 \<Rightarrow> nat \<Rightarrow> mem" where
  "clear_loop m p 0 = m"
| "clear_loop m p (Suc n) = clear_loop (st32 m p 0) (p + 4) n"

definition vesa_clear :: "'d screen \<Rightarrow> 'd screen" where
  "vesa_clear s = upd_vesa (\<lambda>v. v\<lparr>ve_mem := clear_loop (ve_mem v) (ve_fb v) (vesa_pixels v)\<rparr>) s"

definition vesa_back_buffer_clear :: "'d screen \<Rightarrow> 'd screen" where
  "vesa_back_buffer_clear s = upd_vesa (\<lambda>v. v\<lparr>ve_mem := clear_loop (ve_mem v) (ve_back v) (vesa_pixels v)\<rparr>) s"

definition vesa_put_pixel :: "u32 \<Rightarrow> u32 \<Rightarrow> u32 \<Rightarrow> 'd screen \<Rightarrow> 'd screen" where
  "vesa_put_pixel x y color s =
     upd_vesa (\<lambda>v. v\<lparr>ve_mem := st32 (ve_mem v) (ve_fb v + y * ve_pitch v + x * ve_bpp v div 8) color\<rparr>) s"

definition vesa_back_buffer_put_pixel :: "u32 \<Rightarrow> u32 \<Rightarrow> u32 \<Rightarrow> 'd screen \<Rightarrow> 'd screen" where
  "vesa_back_buffer_put_pixel x y color s =
     upd_vesa (\<lambda>v. v\<lparr>ve_mem := st32 (ve_mem v) (ve_back v + y * ve_pitch v + x * ve_bpp v div 8) color\<rparr>) s"

definition vesa_get_framebuffer :: "'d screen \<Rightarrow> u32" where
  "vesa_get_framebuffer s = ve_fb (sn_vesa s)"

section \<open>The graphic terminal\<close>

definition upd_vt :: "(vesa_term \<Rightarrow> vesa_term) \<Rightarrow> 'd screen \<Rightarrow> 'd screen" where
  "upd_vt f s = s\<lparr>sn_term := f (sn_term s)\<rparr>"

definition vesa_term_use_color :: "u32 \<Rightarrow> 'd screen \<Rightarrow> 'd screen" where
  "vesa_term_use_color color s = upd_vt (\<lambda>t. t\<lparr>vs_color := color\<rparr>) s"

definition vesa_term_cur_mov :: "u32 \<Rightarrow> u32 \<Rightarrow> 'd screen \<Rightarrow> 'd screen res" where
  "vesa_term_cur_mov x y s = irq_guard (\<lambda>s. Inr (upd_vt (\<lambda>t. t\<lparr>vs_col := x, vs_row := y\<rparr>) s)) s"

definition vesa_term_cur_step :: "'d screen \<Rightarrow> 'd screen res" where
  "vesa_term_cur_step s = vesa_term_cur_mov (vs_col (sn_term s)) (vs_row (sn_term s)) s"

definition vesa_term_clear :: "'d screen \<Rightarrow> 'd screen res" where
  "vesa_term_clear s = irq_guard (\<lambda>s. vesa_term_cur_mov 0 0 (vesa_clear s)) s"

fun draw_row :: "u32 \<Rightarrow> u32 \<Rightarrow> u32 \<Rightarrow> nat list \<Rightarrow> 'd screen \<Rightarrow> 'd screen" where
  "draw_row w x y [] s = s"
| "draw_row w x y (j # js) s =
     draw_row w x y js
       (vesa_put_pixel (x * FONT_WIDTH + of_nat j) y (if w AND drop_bit j 0x80 \<noteq> 0 then vs_color (sn_term s) else NICE_BG) s)"

primrec draw_rows :: "u32 list \<Rightarrow> u32 \<Rightarrow> u32 \<Rightarrow> 'd screen \<Rightarrow> 'd screen" where
  "draw_rows [] x y s = s"
| "draw_rows (w # ws) x y s = draw_rows ws x (y + 1) (draw_row w x y [0, 1, 2, 3, 4, 5, 6, 7] s)"

definition vesa_term_putat :: "u8 \<Rightarrow> u32 \<Rightarrow> u32 \<Rightarrow> 'd screen \<Rightarrow> 'd screen res" where
  "vesa_term_putat c x y s = irq_guard (\<lambda>s. rbind (glyph c) (\<lambda>rows. Inr (draw_rows rows x (y * FONT_HEIGHT) s))) s"

text \<open>\<open>k\<close> is \<^verbatim>\<open>i * FB_WIDTH + j\<close>, the number of the pixel; the last 16 lines are filled with the background.\<close>

fun vesa_scroll_loop :: "mem \<Rightarrow> u32 \<Rightarrow> u32 \<Rightarrow> nat \<Rightarrow> mem" where
  "vesa_scroll_loop m fb k 0 = m"
| "vesa_scroll_loop m fb k (Suc n) =
     vesa_scroll_loop
       (st32 m (fb + 4 * k) (if k div FB_WIDTH \<ge> FB_HEIGHT - FONT_HEIGHT then NICE_BG else ld32 m (fb + 4 * (k + 16 * FB_WIDTH))))
       fb (k + 1) n"

definition vesa_term_scroll :: "'d screen \<Rightarrow> 'd screen res" where
  "vesa_term_scroll s =
     irq_guard (\<lambda>s. Inr (upd_vesa (\<lambda>v. v\<lparr>ve_mem := vesa_scroll_loop (ve_mem v) (vs_vesa_fb (sn_term s)) 0 (FB_HEIGHT * FB_WIDTH)\<rparr>) s)) s"

definition vesa_term_init :: "u32 \<Rightarrow> 'd screen \<Rightarrow> 'd screen res" where
  "vesa_term_init fb s =
     (let s1 = vesa_term_use_color NICE_WHITE (upd_vt (\<lambda>t. t\<lparr>vs_row := 0, vs_col := 0, vs_vesa_fb := fb\<rparr>) s)
      in rbind (vesa_term_clear s1) (vesa_term_cur_mov 0 0))"

definition vesa_next_line :: "'d screen \<Rightarrow> 'd screen res" where
  "vesa_next_line s =
     (let s1 = upd_vt (\<lambda>t. t\<lparr>vs_col := 0, vs_row := vs_row t + 1\<rparr>) s in
      if vs_row (sn_term s1) = FB_ROWS then vesa_term_scroll (upd_vt (\<lambda>t. t\<lparr>vs_row := vs_row t - 1\<rparr>) s1) else Inr s1)"

definition vesa_erase :: "'d screen \<Rightarrow> 'd screen res" where
  "vesa_erase s = vesa_term_putat 32 (vs_col (sn_term s)) (vs_row (sn_term s)) s"

text \<open>The character itself, and then the cursor.\<close>

definition vesa_put_glyph :: "u8 \<Rightarrow> 'd screen \<Rightarrow> 'd screen res" where
  "vesa_put_glyph c s =
     (if c = 10 then rbind (vesa_erase s) (\<lambda>s1. rbind (vesa_next_line s1) vesa_term_cur_step)
      else if c = 8 then
        rbind (vesa_erase s) (\<lambda>s1. vesa_term_cur_step (upd_vt (\<lambda>t. t\<lparr>vs_col := vs_col t - 1\<rparr>) s1))
      else if c = 9 then
        rbind (vesa_erase s) (\<lambda>s1.
        rbind (next_tab (vs_col (sn_term s1))) (\<lambda>i. vesa_term_cur_step (upd_vt (\<lambda>t. t\<lparr>vs_col := i\<rparr>) s1)))
      else
        rbind (if vs_col (sn_term s) + 1 = FB_COLS then vesa_next_line s else Inr s) (\<lambda>s1.
          let x = vs_col (sn_term s1); s2 = upd_vt (\<lambda>t. t\<lparr>vs_col := x + 1\<rparr>) s1
          in vesa_term_putat c x (vs_row (sn_term s2)) s2))"

definition vesa_term_putchar :: "u8 \<Rightarrow> 'd screen \<Rightarrow> 'd screen res" where
  "vesa_term_putchar c s =
     rbind (vesa_put_glyph c s) (\<lambda>s1.
       let clr = vs_color (sn_term s1); s2 = vesa_term_use_color NICE_CUR s1
       in rbind (vesa_term_putat 95 (vs_col (sn_term s2)) (vs_row (sn_term s2)) s2) (\<lambda>s3.
          Inr (vesa_term_use_color clr s3)))"

definition vesa_term_print :: "u8 list \<Rightarrow> 'd screen \<Rightarrow> 'd screen res" where
  "vesa_term_print string s = put_all vesa_term_putchar string s"

definition vesa_term_print_hex :: "u32 \<Rightarrow> 'd screen \<Rightarrow> 'd screen res" where
  "vesa_term_print_hex x s =
     rbind (vesa_term_print (map of_char ''0x'') s) (put_all vesa_term_putchar (hex_digits x))"

section \<open>The current terminal\<close>

text \<open>The structure of function pointers, \<^term>\<open>None\<close> for a null one.\<close>

record 's console =
  tm_type :: u8
  tm_use_color :: "(u32 \<Rightarrow> 's \<Rightarrow> 's res) option"
  tm_cur_mov :: "(u32 \<Rightarrow> u32 \<Rightarrow> 's \<Rightarrow> 's res) option"
  tm_cur_step :: "('s \<Rightarrow> 's res) option"
  tm_scroll :: "('s \<Rightarrow> 's res) option"
  tm_clear :: "('s \<Rightarrow> 's res) option"
  tm_swap_buffers :: "('s \<Rightarrow> 's res) option"
  tm_putchar :: "(u8 \<Rightarrow> 's \<Rightarrow> 's res) option"
  tm_putat :: "(u8 \<Rightarrow> u32 \<Rightarrow> u32 \<Rightarrow> 's \<Rightarrow> 's res) option"
  tm_print :: "(u8 list \<Rightarrow> 's \<Rightarrow> 's res) option"
  tm_print_hex :: "(u32 \<Rightarrow> 's \<Rightarrow> 's res) option"

definition vga_console :: "'d ports \<Rightarrow> 'd screen console" where
  "vga_console P = \<lparr>tm_type = 0,
     tm_use_color = Some (\<lambda>c s. Inr (vga_term_use_vesa_color c s)),
     tm_cur_mov = Some (\<lambda>x y s. Inr (vga_term_cur_mov P x y s)), tm_cur_step = Some (\<lambda>s. Inr (vga_term_cur_step P s)),
     tm_scroll = Some (\<lambda>s. Inr (vga_term_scroll s)), tm_clear = Some (\<lambda>s. Inr (vga_term_clear P s)),
     tm_swap_buffers = None, tm_putchar = Some (vga_term_putchar P),
     tm_putat = Some (\<lambda>c x y s. Inr (vga_term_putat P c x y s)), tm_print = Some (vga_term_print P),
     tm_print_hex = Some (vga_term_print_hex P)\<rparr>"

definition vesa_console :: "'d screen console" where
  "vesa_console = \<lparr>tm_type = 1,
     tm_use_color = Some (\<lambda>c s. Inr (vesa_term_use_color c s)),
     tm_cur_mov = Some vesa_term_cur_mov, tm_cur_step = Some vesa_term_cur_step, tm_scroll = Some vesa_term_scroll,
     tm_clear = Some vesa_term_clear, tm_swap_buffers = Some (\<lambda>s. Inr (vesa_swap_buffers s)),
     tm_putchar = Some vesa_term_putchar, tm_putat = Some vesa_term_putat, tm_print = Some vesa_term_print,
     tm_print_hex = Some vesa_term_print_hex\<rparr>"

definition term_init :: "'d ports \<Rightarrow> mode_info \<Rightarrow> u32 \<Rightarrow> u8 \<Rightarrow> 'd screen console \<Rightarrow> 'd screen \<Rightarrow>
    (u8 \<times> 'd screen console \<times> 'd screen) res" where
  "term_init P mbi back type T s =
     (if type = 0 then Inr (0, vga_console P, vga_term_init P s)
      else if type = 1 then
        let s1 = vesa_init mbi back s
        in rbind (vesa_term_init (vesa_get_framebuffer s1) s1) (\<lambda>s2. Inr (0, vesa_console, s2))
      else Inr (1, T\<lparr>tm_type := type\<rparr>, s))"

definition term_use_color :: "'s console \<Rightarrow> u32 \<Rightarrow> 's \<Rightarrow> 's res" where
  "term_use_color T color s = (case tm_use_color T of None \<Rightarrow> Inr s | Some f \<Rightarrow> f color s)"

definition term_cur_mov :: "'s console \<Rightarrow> u32 \<Rightarrow> u32 \<Rightarrow> 's \<Rightarrow> 's res" where
  "term_cur_mov T x y s = (case tm_cur_mov T of None \<Rightarrow> Inr s | Some f \<Rightarrow> f x y s)"

definition term_cur_step :: "'s console \<Rightarrow> 's \<Rightarrow> 's res" where
  "term_cur_step T s = (case tm_cur_step T of None \<Rightarrow> Inr s | Some f \<Rightarrow> f s)"

definition term_scroll :: "'s console \<Rightarrow> 's \<Rightarrow> 's res" where
  "term_scroll T s = (case tm_scroll T of None \<Rightarrow> Inr s | Some f \<Rightarrow> f s)"

definition term_clear :: "'s console \<Rightarrow> 's \<Rightarrow> 's res" where
  "term_clear T s = (case tm_clear T of None \<Rightarrow> Inr s | Some f \<Rightarrow> f s)"

definition term_swap_buffers :: "'s console \<Rightarrow> 's \<Rightarrow> 's res" where
  "term_swap_buffers T s = (case tm_swap_buffers T of None \<Rightarrow> Inr s | Some f \<Rightarrow> f s)"

definition term_putchar :: "'s console \<Rightarrow> u8 \<Rightarrow> 's \<Rightarrow> 's res" where
  "term_putchar T c s = (case tm_putchar T of None \<Rightarrow> Inr s | Some f \<Rightarrow> f c s)"

definition term_putat :: "'s console \<Rightarrow> u8 \<Rightarrow> u32 \<Rightarrow> u32 \<Rightarrow> 's \<Rightarrow> 's res" where
  "term_putat T c x y s = (case tm_putat T of None \<Rightarrow> Inr s | Some f \<Rightarrow> f c x y s)"

definition term_print :: "'s console \<Rightarrow> u8 list \<Rightarrow> 's \<Rightarrow> 's res" where
  "term_print T string s = (case tm_print T of None \<Rightarrow> Inr s | Some f \<Rightarrow> f string s)"

definition term_print_hex :: "'s console \<Rightarrow> u32 \<Rightarrow> 's \<Rightarrow> 's res" where
  "term_print_hex T x s = (case tm_print_hex T of None \<Rightarrow> Inr s | Some f \<Rightarrow> f x s)"

definition term_get_type :: "'s console \<Rightarrow> u8" where
  "term_get_type T = tm_type T"

section \<open>The cursor\<close>

text \<open>In the last but one column a tab never ends.\<close>

lemma tab_stop_aligned:
  assumes "tab_stop column i = Some r"
  shows "column = 0xFFFFFFFE \<longrightarrow> \<not> 4 dvd unat i"
proof (rule tab_stop.raw_induct [where P = "\<lambda>column i r. column = 0xFFFFFFFE \<longrightarrow> \<not> 4 dvd unat i", OF _ assms], goal_cases)
  case (1 f column i r)
  show ?case
  proof
    assume c: "column = 0xFFFFFFFE"
    show "\<not> 4 dvd unat i"
    proof (cases "i < 0xFFFFFFFF")
      case True
      then have "f column (i + 4) = Some r" using 1(2) c by simp
      then have "\<not> 4 dvd unat (i + 4)" using 1(1) c by blast
      moreover have "unat (i + 4) = (unat i + 4) mod 4294967296" by (simp add: unat_word_ariths)
      moreover have "4 dvd (unat i + 4) mod 4294967296 \<longleftrightarrow> 4 dvd unat i"
        by (subst dvd_mod_iff) simp_all
      ultimately show ?thesis by metis
    next
      case False
      then have "unat i = 4294967295" using unat_u32_less [of i] by (simp add: word_less_nat_alt)
      then show ?thesis by simp
    qed
  qed
qed
lemma next_tab_never: "next_tab (- 2) = Inl Diverges"
proof -
  have m: "(- 2 :: u32) = 0xFFFFFFFE" by simp
  show ?thesis unfolding m
    using tab_stop_aligned [of "0xFFFFFFFE" 0] by (cases "tab_stop 0xFFFFFFFE 0") (auto simp: next_tab_def)
qed

text \<open>Two backspaces in the first column and a tab stop the kernel.\<close>

lemma vga_tab_hangs:
  assumes "vt_column (sn_vga s) = 0"
  shows "put_all (vga_term_putchar P) [8, 8, 9] s = Inl Diverges"
  using assms
  by (simp add: vga_term_putchar_def vga_term_putat_def vga_term_cur_step_def vga_term_cur_mov_def upd_vga_def Let_def
      next_tab_never)

text \<open>Text without backspaces and tabs keeps the cursor on the screen.\<close>

definition vga_ok :: "'d screen \<Rightarrow> bool" where
  "vga_ok s \<longleftrightarrow> unat (vt_row (sn_vga s)) < 25 \<and> unat (vt_column (sn_vga s)) < 80"

lemma vga_next_line_ok: "vga_ok s \<Longrightarrow> vga_ok (vga_next_line s)"
  by (auto simp: vga_ok_def vga_next_line_def upd_vga_def vga_term_scroll_def Let_def unat_Suc_less word_unat_eq_iff)

lemma vga_putchar_ok:
  assumes "vga_term_putchar P c s = Inr s'" and "vga_ok s" and "c \<noteq> 8" and "c \<noteq> 9"
  shows "vga_ok s'"
proof -
  have step: "vga_ok (vga_term_cur_step P x) = vga_ok x" for x
    by (simp add: vga_ok_def vga_term_cur_step_def vga_term_cur_mov_def upd_vga_def Let_def)
  show ?thesis
  proof (cases "c = 10")
    case True
    then show ?thesis using assms(1,2) step vga_next_line_ok by (auto simp: vga_term_putchar_def)
  next
    case False
    define s1 where "s1 = (if vt_column (sn_vga s) + 1 = 80 then vga_next_line s else s)"
    have "vga_ok s1" using assms(2) vga_next_line_ok [OF assms(2)] by (simp add: s1_def)
    moreover have "unat (vt_column (sn_vga s1)) < 79"
    proof (cases "vt_column (sn_vga s) + 1 = 80")
      case True
      then show ?thesis by (simp add: s1_def vga_next_line_def upd_vga_def vga_term_scroll_def Let_def)
    next
      case False
      then have "unat (vt_column (sn_vga s)) + 1 \<noteq> 80"
        using assms(2) by (auto simp: word_unat_eq_iff unat_Suc_less vga_ok_def)
      then show ?thesis using False assms(2) by (simp add: s1_def vga_ok_def)
    qed
    moreover have "s' = vga_term_putat P c (vt_column (sn_vga s1)) (vt_row (sn_vga s1))
        (upd_vga (\<lambda>v. v\<lparr>vt_column := vt_column (sn_vga s1) + 1\<rparr>) s1)"
      using False assms(1,3,4) unfolding s1_def by (simp add: vga_term_putchar_def Let_def upd_vga_def split del: if_split)
    ultimately show ?thesis
      by (simp add: vga_term_putat_def step) (simp add: vga_ok_def upd_vga_def unat_Suc_less)
  qed
qed

lemma vga_text_on_screen:
  "put_all (vga_term_putchar P) cs s = Inr s' \<Longrightarrow> vga_ok s \<Longrightarrow> 8 \<notin> set cs \<Longrightarrow> 9 \<notin> set cs \<Longrightarrow> vga_ok s'"
proof (induction cs arbitrary: s)
  case (Cons c cs)
  then show ?case using vga_putchar_ok [of P c s] by fastforce
qed simp

section \<open>What the users of a terminal rely on\<close>

text \<open>
  A terminal that was initialised: its character function is there, and printing a string is writing its
  characters one by one.
\<close>

locale char_console =
  fixes T :: "'s console" and putc :: "u8 \<Rightarrow> 's \<Rightarrow> 's res"
  assumes putchar_law: "term_putchar T c s = putc c s"
    and print_law: "term_print T xs s = put_all putc xs s"

lemma put_all_append: "put_all putc (xs @ ys) s = rbind (put_all putc xs s) (put_all putc ys)"
proof (induction xs arbitrary: s)
  case (Cons x xs)
  then have "put_all putc (xs @ ys) = (\<lambda>s. rbind (put_all putc xs s) (put_all putc ys))" by (rule ext)
  then show ?case by (simp add: rbind_assoc)
qed simp

lemma put_all_single [simp]: "put_all putc [c] s = putc c s"
  by (simp add: rbind_def split: sum.splits)

interpretation vga: char_console "vga_console P" "vga_term_putchar P" for P
  by unfold_locales (simp_all add: term_putchar_def term_print_def vga_console_def vga_term_print_def)

interpretation vesa: char_console vesa_console vesa_term_putchar
  by unfold_locales (simp_all add: term_putchar_def term_print_def vesa_console_def vesa_term_print_def)

end
