(* ===== verification/Stdio.thy ===== *)
theory Stdio
  imports Screen Ps2 Libc_String
begin

text \<open>
  \<^verbatim>\<open>libk/stdio.c\<close>, \<^verbatim>\<open>kernel/util/logger.c\<close> and \<^verbatim>\<open>drivers/console.c\<close>: formatted output to the current terminal,
  input from the keyboard, log messages and the console device. A string argument is the list of its
  bytes; floating point numbers are of a type \<open>'f\<close> whose operations are an argument.
\<close>

section \<open>Arguments\<close>

datatype 'f arg = Int_arg u32 | Str_arg "u8 list" | Dbl_arg 'f

record 'f dbl =
  db_neg :: "'f \<Rightarrow> bool"
  db_minus :: "'f \<Rightarrow> 'f"
  db_int :: "'f \<Rightarrow> u32"
  db_sub :: "'f \<Rightarrow> u32 \<Rightarrow> 'f"
  db_mul10 :: "'f \<Rightarrow> 'f"

abbreviation lit :: "string \<Rightarrow> u8 list" where
  "lit x \<equiv> map of_char x"

text \<open>\<^verbatim>\<open>itoa\<close> into a local buffer, read back as a string; the place of the buffer does not matter.\<close>

partial_function (option) bytes_at :: "mem \<Rightarrow> u32 \<Rightarrow> u8 list option" where
  "bytes_at m p = (if m p = 0 then Some [] else Option.bind (bytes_at m (p + 1)) (\<lambda>bs. Some (m p # bs)))"

definition itoa_str :: "u32 \<Rightarrow> int \<Rightarrow> u8 list res" where
  "itoa_str v base =
     (case itoa (\<lambda>_. 0) (sint v) 0x1000 base of None \<Rightarrow> Inl Diverges
      | Some (r, m) \<Rightarrow> (case bytes_at m r of None \<Rightarrow> Inl Diverges | Some bs \<Rightarrow> Inr bs))"

definition print_int :: "'s console \<Rightarrow> int \<Rightarrow> u32 \<Rightarrow> 's \<Rightarrow> 's res" where
  "print_int T base v s = rbind (itoa_str v base) (\<lambda>str. term_print T str s)"

section \<open>Formatted output\<close>

text \<open>The nested \<^verbatim>\<open>printk("%d.", whole)\<close> and \<^verbatim>\<open>printk("%d", whole)\<close> of the conversion of a float.\<close>

fun print_fraction :: "'f dbl \<Rightarrow> 's console \<Rightarrow> 'f \<Rightarrow> u32 \<Rightarrow> nat \<Rightarrow> 's \<Rightarrow> 's res" where
  "print_fraction D T f whole 0 s = Inr s"
| "print_fraction D T f whole (Suc n) s =
     (let f1 = db_mul10 D (db_sub D f whole); whole1 = db_int D f1
      in rbind (print_int T 10 whole1 s) (print_fraction D T f1 whole1 n))"

definition print_float :: "'f dbl \<Rightarrow> 's console \<Rightarrow> 'f \<Rightarrow> 's \<Rightarrow> 's res" where
  "print_float D T f s =
     rbind (if db_neg D f then term_putchar T 45 s else Inr s) (\<lambda>s1.
       let f1 = (if db_neg D f then db_minus D f else f); whole = db_int D f1
       in rbind (print_int T 10 whole s1) (\<lambda>s2.
          rbind (term_putchar T 46 s2) (print_fraction D T f1 whole 4)))"

text \<open>A conversion that takes an argument: the rest of the arguments, and the output.\<close>

definition conversion :: "u8 \<Rightarrow> bool" where
  "conversion k \<longleftrightarrow> k \<in> {99, 115, 100, 102, 120}"

definition print_arg :: "'f dbl \<Rightarrow> 's console \<Rightarrow> u8 \<Rightarrow> 'f arg \<Rightarrow> 's \<Rightarrow> 's res" where
  "print_arg D T k a s =
     (case a of
        Int_arg v \<Rightarrow>
          if k = 99 then term_putchar T (ucast v) s
          else if k = 100 then print_int T 10 v s
          else if k = 120 then print_int T 16 v s
          else Inl Wild_access
      | Str_arg x \<Rightarrow> if k = 115 then term_print T x s else Inl Wild_access
      | Dbl_arg f \<Rightarrow> if k = 102 then print_float D T f s else Inl Wild_access)"

text \<open>
  The loop over the format. A missing argument, or one of another type, is read from somewhere in the
  stack; a percent sign at the end is printed with the terminator, and the loop goes on behind it.
\<close>

fun v_printk :: "'f dbl \<Rightarrow> 's console \<Rightarrow> u8 list \<Rightarrow> 'f arg list \<Rightarrow> 's \<Rightarrow> 's res" where
  "v_printk D T [] ap s = Inr s"
| "v_printk D T [c] ap s =
     (if c \<noteq> 37 then term_putchar T c s
      else rbind (term_putchar T 37 s) (\<lambda>s1. rbind (term_putchar T 0 s1) (\<lambda>_. Inl Wild_access)))"
| "v_printk D T (c # k # cs) ap s =
     (if c \<noteq> 37 then rbind (term_putchar T c s) (v_printk D T (k # cs) ap)
      else if conversion k then
        (case ap of [] \<Rightarrow> Inl Wild_access | a # as \<Rightarrow> rbind (print_arg D T k a s) (v_printk D T cs as))
      else rbind (term_putchar T 37 s) (\<lambda>s1. rbind (term_putchar T k s1) (v_printk D T cs ap)))"

definition printk :: "'f dbl \<Rightarrow> 's console \<Rightarrow> string \<Rightarrow> 'f arg list \<Rightarrow> 's \<Rightarrow> 's res" where
  "printk D T format ap s = v_printk D T (lit format) ap s"

section \<open>Log messages\<close>

definition v_log_info :: "'f dbl \<Rightarrow> 's console \<Rightarrow> u32 \<Rightarrow> u8 list \<Rightarrow> u8 list \<Rightarrow> 'f arg list \<Rightarrow> 's \<Rightarrow> 's res" where
  "v_log_info D T color who format args s =
     rbind (term_use_color T NICE_WHITE s) (\<lambda>s1.
     rbind (printk D T (''\<newline> [ '') [] s1) (\<lambda>s2.
     rbind (term_use_color T color s2) (\<lambda>s3.
     rbind (printk D T ''%s'' [Str_arg who] s3) (\<lambda>s4.
     rbind (term_use_color T NICE_WHITE s4) (\<lambda>s5.
     rbind (printk D T '' ] '' [] s5) (\<lambda>s6.
     rbind (v_printk D T format args s6) (\<lambda>s7.
     term_use_color T NICE_WHITE s7)))))))"

text \<open>The interrupt flag is saved and restored when the scheduler runs.\<close>

definition log_info :: "'f dbl \<Rightarrow> 'd screen console \<Rightarrow> u32 \<Rightarrow> string \<Rightarrow> string \<Rightarrow> 'f arg list \<Rightarrow> 'd screen \<Rightarrow> 'd screen res" where
  "log_info D T color who format args s = irq_guard (v_log_info D T color (lit who) (lit format) args) s"

text \<open>The levels of \<^verbatim>\<open>logger.h\<close>, which are colours.\<close>

abbreviation (input) INFO :: u64 where "INFO \<equiv> 0x76c1ff"
abbreviation (input) OKAY :: u64 where "OKAY \<equiv> 0x00ff9c"
abbreviation (input) WARN :: u64 where "WARN \<equiv> 0xfffc58"
abbreviation (input) ERROR :: u64 where "ERROR \<equiv> 0xff5680"

definition level_name :: "u64 \<Rightarrow> string" where
  "level_name lvl =
     (if lvl = OKAY then ''OKAY'' else if lvl = WARN then ''WARN''
      else if lvl = ERROR then ''ERROR'' else if lvl = INFO then ''INFO'' else [])"

definition log_f :: "'f dbl \<Rightarrow> 'd screen console \<Rightarrow> u64 \<Rightarrow> string \<Rightarrow> string \<Rightarrow> 'f arg list \<Rightarrow> 'd screen \<Rightarrow> 'd screen res" where
  "log_f D T lvl who format args s =
     irq_guard (\<lambda>s.
       rbind (term_use_color T NICE_WHITE s) (\<lambda>s1.
       rbind (printk D T (''\<newline> [ '') [] s1) (\<lambda>s2.
       rbind (term_use_color T (ucast lvl) s2) (\<lambda>s3.
       rbind (printk D T (level_name lvl) [] s3) (\<lambda>s4.
       rbind (term_use_color T NICE_WHITE s4) (\<lambda>s5.
       rbind (printk D T '' ] %s : '' [Str_arg (lit who)] s5) (\<lambda>s6.
       rbind (v_printk D T (lit format) args s6) (\<lambda>s7.
       term_use_color T NICE_WHITE s7)))))))) s"

definition log_result :: "'f dbl \<Rightarrow> 'd screen console \<Rightarrow> u8 \<Rightarrow> string \<Rightarrow> 'f arg list \<Rightarrow> 'd screen \<Rightarrow> 'd screen res" where
  "log_result D T condition format args s =
     irq_guard (\<lambda>s.
       if condition \<noteq> 0 then v_log_info D T NICE_GREEN (lit ''OKAY'') (lit format) args s
       else v_log_info D T NICE_RED (lit ''FAIL'') (lit format) args s) s"

section \<open>The console device\<close>

fun console_loop :: "'s console \<Rightarrow> mem \<Rightarrow> u32 \<Rightarrow> nat \<Rightarrow> 's \<Rightarrow> 's res" where
  "console_loop T m buffer 0 s = Inr s"
| "console_loop T m buffer (Suc n) s = rbind (term_putchar T (m buffer) s) (console_loop T m (buffer + 1) n)"

definition console_write :: "'s console \<Rightarrow> mem \<Rightarrow> vfile \<Rightarrow> u32 \<Rightarrow> u32 \<Rightarrow> u32 \<Rightarrow> 's \<Rightarrow> (u32 \<times> 's) res" where
  "console_write T m f offset n buffer s = rbind (console_loop T m buffer (unat n) s) (\<lambda>s1. Inr (n, s1))"

text \<open>\<open>write\<close> is the address of \<^verbatim>\<open>console_write\<close>; the fields the code does not set are what the heap held.\<close>

definition console_init :: "vnode \<Rightarrow> vfile \<Rightarrow> devfs_node \<Rightarrow> u32 \<Rightarrow> vfs \<Rightarrow> u32 \<Rightarrow> (u8 \<times> vfs) res" where
  "console_init gn gf garbage write s root =
     devfs_register_dev gn gf s root (garbage\<lparr>dv_name := ''con'', dv_type := VFS_CDEV, dv_read := 0, dv_write := write\<rparr>)"

section \<open>Input\<close>

text \<open>
  A line is read by asking for the pressed key again and again; \<open>ev i\<close> is what the interrupts do to the
  keyboard before the \<open>i\<close>-th question. The buffer has 256 bytes. The place in it, \<open>pos\<close>, and what is
  printed change with the character.
\<close>

definition scan_char :: "'s console \<Rightarrow> u8 \<Rightarrow> u8 list \<Rightarrow> nat \<Rightarrow> 's \<Rightarrow> (u8 list \<times> nat \<times> 's) res" where
  "scan_char T c str pos s =
     (if c = 8 then
        if pos \<noteq> 0 then
          rbind (put_at str (pos - 1) 0) (\<lambda>str1. rbind (term_putchar T c s) (\<lambda>s1. Inr (str1, pos - 1, s1)))
        else Inr (str, pos, s)
      else if c = 10 then rbind (term_putchar T c s) (\<lambda>s1. Inr (str, pos, s1))
      else
        rbind (put_at str pos c) (\<lambda>str1.
        rbind (put_at str1 (pos + 1) 0) (\<lambda>str2.
        rbind (term_putchar T c s) (\<lambda>s1. Inr (str2, pos + 1, s1)))))"

partial_function (option) scan_line ::
    "'s console \<Rightarrow> mem \<Rightarrow> (nat \<Rightarrow> kbd \<Rightarrow> kbd) \<Rightarrow> nat \<Rightarrow> kbd \<Rightarrow> u8 list \<Rightarrow> nat \<Rightarrow> 's \<Rightarrow> (u8 list \<times> nat \<times> kbd \<times> 's) res option" where
  "scan_line T m ev i kb str pos s =
     (case kbd_keydown (ev i kb) of Inl e \<Rightarrow> Some (Inl e)
      | Inr key \<Rightarrow>
          if key = 0xFF then scan_line T m ev (i + 1) (ev i kb) str pos s
          else
            (case rbind (kbd_get m (ev i kb)) (\<lambda>(c, kb1). rbind (scan_char T c str pos s) (\<lambda>r. Inr (c, kb1, r))) of
               Inl e \<Rightarrow> Some (Inl e)
             | Inr (c, kb1, str1, pos1, s1) \<Rightarrow>
                 if c = 10 then Some (Inr (str1, i + 1, kb1, s1)) else scan_line T m ev (i + 1) kb1 str1 pos1 s1))"

text \<open>Storing the line for a conversion: the string with its terminator, or the number it begins with.\<close>

definition line_mem :: "u8 list \<Rightarrow> mem" where
  "line_mem str = (\<lambda>a. if unat (a - 0x1000) < length str then str ! unat (a - 0x1000) else 0)"

definition store_input :: "u8 \<Rightarrow> u8 list \<Rightarrow> u32 \<Rightarrow> mem \<Rightarrow> mem res" where
  "store_input k str p m =
     (if k = 115 then Inr (write_all m p (takeWhile (\<lambda>c. c \<noteq> 0) str @ [0]))
      else if k = 100 then (case atoi (line_mem str) 0x1000 of None \<Rightarrow> Inl Diverges | Some n \<Rightarrow> Inr (st32 m p n))
      else Inr m)"

text \<open>
  A character of the format that is no percent sign is not skipped: the loop stays on it for ever.
\<close>

fun scank :: "'s console \<Rightarrow> (nat \<Rightarrow> kbd \<Rightarrow> kbd) \<Rightarrow> u8 list \<Rightarrow> u32 list \<Rightarrow> nat \<Rightarrow> mem \<Rightarrow> kbd \<Rightarrow> 's \<Rightarrow> (mem \<times> kbd \<times> 's) res" where
  "scank T ev [] ps i m kb s = Inr (m, kb, s)"
| "scank T ev [c] ps i m kb s =
     (if c \<noteq> 37 then Inl Diverges
      else rbind (returned (scan_line T m ev i kb (replicate 256 0) 0 s)) (\<lambda>_. Inl Wild_access))"
| "scank T ev (c # k # cs) ps i m kb s =
     (if c \<noteq> 37 then Inl Diverges
      else rbind (returned (scan_line T m ev i kb (replicate 256 0) 0 s)) (\<lambda>(str, i1, kb1, s1).
        if k = 115 \<or> k = 100 then
          (case ps of [] \<Rightarrow> Inl Wild_access
           | p # ps1 \<Rightarrow> rbind (store_input k str p m) (\<lambda>m1. scank T ev cs ps1 i1 m1 kb1 s1))
        else scank T ev cs ps i1 m kb1 s1))"

section \<open>What formatted output prints\<close>

text \<open>
  The text a conversion stands for: a character, a string, a number that is not negative in decimal or
  hexadecimal digits. \<^term>\<open>None\<close> is for what the code does not promise: negative numbers, floats, arguments of
  the wrong type.
\<close>

definition arg_out :: "u8 \<Rightarrow> 'f arg \<Rightarrow> u8 list option" where
  "arg_out k a =
     (case a of
        Int_arg v \<Rightarrow>
          if k = 99 then Some [ucast v]
          else if k = 100 \<and> 0 \<le> sint v then Some (map digit_byte (rev (digits_lsd 10 (sint v))))
          else if k = 120 \<and> 0 \<le> sint v then Some (map digit_byte (rev (digits_lsd 16 (sint v))))
          else None
      | Str_arg x \<Rightarrow> if k = 115 then Some x else None
      | Dbl_arg f \<Rightarrow> None)"

fun format_out :: "u8 list \<Rightarrow> 'f arg list \<Rightarrow> u8 list option" where
  "format_out [] ap = Some []"
| "format_out [c] ap = (if c \<noteq> 37 then Some [c] else None)"
| "format_out (c # k # cs) ap =
     (if c \<noteq> 37 then map_option ((#) c) (format_out (k # cs) ap)
      else if conversion k then
        (case ap of [] \<Rightarrow> None
         | a # as \<Rightarrow> Option.bind (arg_out k a) (\<lambda>x. map_option ((@) x) (format_out cs as)))
      else map_option (\<lambda>y. 37 # k # y) (format_out cs ap))"

lemma bytes_at_cstr: "cstr m p xs \<Longrightarrow> bytes_at m p = Some xs"
proof (induction xs arbitrary: p)
  case Nil
  then show ?case by (subst bytes_at.simps) simp
next
  case (Cons x xs)
  then show ?case by (subst bytes_at.simps) simp
qed

lemma itoa_str_digits:
  assumes "base = 10 \<or> base = 16" and "0 \<le> sint v"
  shows "itoa_str v base = Inr (map digit_byte (rev (digits_lsd base (sint v))))"
proof -
  have "sint v < 2 ^ 31" using sint_lt [of v] by simp
  then obtain m' where "itoa (\<lambda>_. 0) (sint v) 0x1000 base = Some (0x1000, m')"
      "cstr m' 0x1000 (map digit_byte (rev (digits_lsd base (sint v))))"
    using itoa_cstr [of base "sint v" "0x1000" "\<lambda>_. 0"] assms by auto
  then show ?thesis by (simp add: itoa_str_def bytes_at_cstr)
qed

text \<open>The digits of a negative number are taken below the digit 0, and no sign is printed.\<close>

lemma itoa_negative: "itoa_str (- 3) 10 = Inr (lit ''T'')"
proof -
  have s: "sint (- 3 :: u32) = - 3" by simp
  have "itoa_digits (\<lambda>_. 0) (- 3) 0x1000 10 0 = Some ((\<lambda>_. 0)(0x1000 := 84), 1)"
    by (subst itoa_digits.simps) (simp add: digit_char_def Let_def signed_modulo_int_def signed_divide_int_def)
  moreover have "bytes_at ((\<lambda>_. 0)(0x1000 := 84, 0x1001 := 0)) 0x1000 = Some [84]"
    by (rule bytes_at_cstr) simp
  ultimately show ?thesis unfolding itoa_str_def s by (simp add: itoa_def itoa_reverse.simps)
qed

context char_console begin

lemma print_arg_out:
  assumes "arg_out k a = Some x"
  shows "print_arg D T k a s = put_all putc x s"
  using assms
  by (auto simp del: put_all.simps simp: arg_out_def print_arg_def print_int_def itoa_str_digits putchar_law print_law rbind_return
      split: arg.splits if_splits)

lemma v_printk_out: "format_out cs ap = Some out \<Longrightarrow> v_printk D T cs ap s = put_all putc out s"
proof (induction cs ap arbitrary: s out rule: format_out.induct)
  case (3 c k cs ap)
  show ?case
  proof (cases "c = 37")
    case False
    then obtain y where y: "format_out (k # cs) ap = Some y" "out = c # y" using "3.prems" by auto
    have "v_printk D T (k # cs) ap = put_all putc y" using "3.IH"(1) [OF False y(1)] by (rule ext)
    then show ?thesis using False y(2) by (simp add: putchar_law)
  next
    case True
    show ?thesis
    proof (cases "conversion k")
      case conv: True
      then obtain a as x y where a: "ap = a # as" "arg_out k a = Some x" "format_out cs as = Some y" "out = x @ y"
        using "3.prems" True by (auto split: list.splits bind_splits)
      have "v_printk D T cs as = put_all putc y"
        using "3.IH"(2) [OF _ conv a(1,2,3)] True by auto
      then show ?thesis using True conv a by (simp add: print_arg_out put_all_append)
    next
      case conv: False
      then obtain y where y: "format_out cs ap = Some y" "out = 37 # k # y" using "3.prems" True by auto
      have "v_printk D T cs ap = put_all putc y"
        using "3.IH"(3) [OF _ conv y(1)] True by auto
      moreover have "put_all putc (k # y) = (\<lambda>s1. rbind (putc k s1) (put_all putc y))" by (rule ext) simp
      ultimately show ?thesis using True conv y(2) by (simp add: putchar_law del: put_all.simps(2)) simp
    qed
  qed
qed (auto simp: putchar_law simp del: put_all.simps(2) split: if_splits)

end


text \<open>The text screen of a machine without devices, with the cursor in the top left corner.\<close>

definition demo_screen_ports :: "unit ports" where
  "demo_screen_ports = \<lparr>pt_inb = (\<lambda>_ d. (0, d)), pt_outb = (\<lambda>_ _ d. d), pt_inw = (\<lambda>_ d. (0, d)),
     pt_outw = (\<lambda>_ _ d. d), pt_inl = (\<lambda>_ d. (0, d)), pt_outl = (\<lambda>_ _ d. d)\<rparr>"

definition demo_screen :: "unit screen" where
  "demo_screen = \<lparr>sn_vga = \<lparr>vt_color = 0, vt_row = 0, vt_column = 0, vt_fb = (\<lambda>_. 0)\<rparr>,
     sn_vesa = \<lparr>ve_fb = 0, ve_back = 0, ve_width = 0, ve_height = 0, ve_pitch = 0, ve_bpp = 0, ve_mem = (\<lambda>_. 0)\<rparr>,
     sn_term = \<lparr>vs_row = 0, vs_col = 0, vs_color = 0, vs_vesa_fb = 0\<rparr>, sn_dev = (), sn_mt = False, sn_if = False\<rparr>"

definition demo_dbl :: "unit dbl" where
  "demo_dbl = \<lparr>db_neg = (\<lambda>_. False), db_minus = (\<lambda>f. f), db_int = (\<lambda>_. 0), db_sub = (\<lambda>f _. f), db_mul10 = (\<lambda>f. f)\<rparr>"

lemma demo_format: "format_out (lit ''pid %d: %s'') [Int_arg 42, Str_arg (lit ''sh'') :: unit arg] = Some (lit ''pid 42: sh'')"
  by code_simp


end
