(* ===== verification/Devices.thy ===== *)
theory Devices
  imports Stdio Ata
begin

text \<open>
  \<^verbatim>\<open>kernel/drivers/pci.c\<close>, \<^verbatim>\<open>rtc.c\<close> and \<^verbatim>\<open>serial.c\<close>: the search for devices on the PCI bus, the clock, and the
  serial lines.
\<close>

section \<open>PCI\<close>

record pci_header0 =
  ph0_BAR :: "u32 list"
  ph0_int_line :: u8
  ph0_int_pin :: u8

record pci_device =
  pd_bus :: u16
  pd_device :: u16
  pd_function :: u16
  pd_device_id :: u16
  pd_vendor_id :: u16
  pd_command :: u16
  pd_class_code :: u8
  pd_subclass :: u8
  pd_prog_if :: u8
  pd_rev_id :: u8
  pd_header_type :: u8
  pd_header :: "pci_header0 option"

text \<open>The bus number is a signed byte that is widened with its sign.\<close>

text \<open>The ports and offsets of \<^verbatim>\<open>pci.h\<close>.\<close>

abbreviation (input) PCI_CONFIG_ADDR :: u16 where "PCI_CONFIG_ADDR \<equiv> 0xCF8"
abbreviation (input) PCI_VENDOR_OFFSET :: u8 where "PCI_VENDOR_OFFSET \<equiv> 0x0"
abbreviation (input) PCI_DEV_ID_OFFSET :: u8 where "PCI_DEV_ID_OFFSET \<equiv> 0x2"
abbreviation (input) PCI_CMD_OFFSET :: u8 where "PCI_CMD_OFFSET \<equiv> 0x4"
abbreviation (input) PCI_INT_LINE_OFFSET :: u8 where "PCI_INT_LINE_OFFSET \<equiv> 0x3C"
abbreviation (input) PCI_INT_PIN_OFFSET :: u8 where "PCI_INT_PIN_OFFSET \<equiv> 0x3E"

definition PCI_read_word :: "'d ports \<Rightarrow> u8 \<Rightarrow> u8 \<Rightarrow> u8 \<Rightarrow> u8 \<Rightarrow> 'd \<Rightarrow> u16 \<times> 'd" where
  "PCI_read_word P bus slot func offset d =
     (let bus_32 = scast bus :: u32; slot_32 = ucast slot :: u32; func_32 = ucast func :: u32;
          address = push_bit 16 bus_32 OR push_bit 11 slot_32 OR push_bit 8 func_32 OR (ucast offset AND 0xfc) OR 0x80000000;
          (v, d1) = io_inl P 0xCFC (io_outl P PCI_CONFIG_ADDR address d)
      in (ucast (drop_bit (unat (offset AND 2) * 8) v AND 0xffff), d1))"

definition PCI_get_base_address :: "'d ports \<Rightarrow> u16 \<Rightarrow> u16 \<Rightarrow> u16 \<Rightarrow> nat \<Rightarrow> 'd \<Rightarrow> u16 \<times> 'd" where
  "PCI_get_base_address P bus device func address d =
     (let (hi, d1) = PCI_read_word P (ucast bus) (ucast device) (ucast func) (0xf + of_nat address * 4) d;
          (lo, d2) = PCI_read_word P (ucast bus) (ucast device) (ucast func) (0xf + of_nat address * 4 + 2) d1;
          ba = push_bit 16 (ucast hi) OR ucast lo :: u32
      in (ucast ba, d2))"

fun read_bars :: "'d ports \<Rightarrow> u16 \<Rightarrow> u16 \<Rightarrow> u16 \<Rightarrow> nat list \<Rightarrow> 'd \<Rightarrow> u32 list \<times> 'd" where
  "read_bars P bus slot func [] d = ([], d)"
| "read_bars P bus slot func (i # is) d =
     (let (b, d1) = PCI_get_base_address P bus slot func i d; (bs, d2) = read_bars P bus slot func is d1
      in (ucast b # bs, d2))"

definition PCI_parse_header0 :: "'d ports \<Rightarrow> pci_device \<Rightarrow> u16 \<Rightarrow> u16 \<Rightarrow> u16 \<Rightarrow> 'd \<Rightarrow> pci_device \<times> 'd" where
  "PCI_parse_header0 P dev bus slot func d =
     (let (bars, d1) = read_bars P bus slot func [0, 1, 2, 3, 4, 5] d;
          (pin, d2) = PCI_read_word P (ucast bus) (ucast slot) (ucast func) PCI_INT_PIN_OFFSET d1;
          (line, d3) = PCI_read_word P (ucast bus) (ucast slot) (ucast func) PCI_INT_LINE_OFFSET d2
      in (dev\<lparr>pd_header := Some \<lparr>ph0_BAR = bars, ph0_int_line = ucast line, ph0_int_pin = ucast pin\<rparr>\<rparr>, d3))"

text \<open>The only driver is the one for mass storage controllers.\<close>

definition PCI_is_known :: "pci_device \<Rightarrow> bool" where
  "PCI_is_known dev \<longleftrightarrow> pd_class_code dev = 0x1 \<and> pd_subclass dev = 0x1"

definition pci_zero :: pci_device where
  "pci_zero = \<lparr>pd_bus = 0, pd_device = 0, pd_function = 0, pd_device_id = 0, pd_vendor_id = 0, pd_command = 0,
     pd_class_code = 0, pd_subclass = 0, pd_prog_if = 0, pd_rev_id = 0, pd_header_type = 0, pd_header = None\<rparr>"

text \<open>What is read of a function of a device; \<^term>\<open>None\<close> when nothing answers.\<close>

definition pci_probe :: "'d ports \<Rightarrow> nat \<Rightarrow> nat \<Rightarrow> nat \<Rightarrow> 'd \<Rightarrow> pci_device option \<times> 'd" where
  "pci_probe P bus slot func d =
     (let rd = PCI_read_word P (of_nat bus) (of_nat slot) (of_nat func); (vendor, d0) = rd PCI_VENDOR_OFFSET d in
      if vendor = 0xffff then (None, d0)
      else
        let (device_id, d1) = rd PCI_DEV_ID_OFFSET d0;
            (command, d2) = rd PCI_CMD_OFFSET d1;
            (c1, d3) = rd 0xA d2;
            (c2, d4) = rd 0xA d3;
            (c3, d5) = rd 0x8 d4;
            (c4, d6) = rd 0xE d5;
            dev = pci_zero\<lparr>pd_bus := of_nat bus, pd_device := of_nat slot, pd_function := of_nat func,
              pd_vendor_id := vendor, pd_device_id := device_id, pd_command := command,
              pd_class_code := ucast (drop_bit 8 (c1 AND 0xFF00)), pd_subclass := ucast (c2 AND 0x00FF),
              pd_prog_if := ucast (drop_bit 8 (c3 AND 0xFF00)), pd_header_type := ucast (c4 AND 0x00FF)\<rparr>;
            (dev1, d7) = (if pd_header_type dev = 0 then PCI_parse_header0 P dev (of_nat bus) (of_nat slot) (of_nat func) d6
                          else (dev, d6));
            (c5, d8) = rd 0x8 d7
        in (Some (dev1\<lparr>pd_rev_id := ucast (c5 AND 0x00FF)\<rparr>), d8))"

text \<open>The list of devices, the drives, and what the driver has found out about its channels.\<close>

record pci_state =
  ps_devices :: "pci_device list"
  ps_chans :: "ata_channel list"
  ps_drives :: "ata_drive list"

definition pci_visit :: "'d ports \<Rightarrow> (u64 \<Rightarrow> 'd \<Rightarrow> 'd) \<Rightarrow> nat \<Rightarrow> nat \<Rightarrow> nat \<Rightarrow> pci_state \<Rightarrow> 'd \<Rightarrow> (pci_state \<times> 'd) res" where
  "pci_visit P sleep bus slot func st d =
     (let (found, d1) = pci_probe P bus slot func d in
      case found of None \<Rightarrow> Inr (st, d1)
      | Some dev \<Rightarrow>
          let st1 = st\<lparr>ps_devices := ps_devices st @ [dev]\<rparr> in
          if \<not> PCI_is_known dev then Inr (st1, d1)
          else
            (case pd_header dev of None \<Rightarrow> Inl Null_deref
             | Some h \<Rightarrow>
                 (case ATA_init P sleep (ph0_BAR h) (ps_drives st1) d1 of None \<Rightarrow> Inl Diverges
                  | Some (chs, drives, d2) \<Rightarrow> Inr (st1\<lparr>ps_chans := chs, ps_drives := drives\<rparr>, d2))))"

fun pci_visit_all :: "'d ports \<Rightarrow> (u64 \<Rightarrow> 'd \<Rightarrow> 'd) \<Rightarrow> (nat \<times> nat \<times> nat) list \<Rightarrow> pci_state \<Rightarrow> 'd \<Rightarrow> (pci_state \<times> 'd) res" where
  "pci_visit_all P sleep [] st d = Inr (st, d)"
| "pci_visit_all P sleep ((bus, slot, func) # xs) st d =
     rbind (pci_visit P sleep bus slot func st d) (\<lambda>(st1, d1). pci_visit_all P sleep xs st1 d1)"

definition pci_places :: "(nat \<times> nat \<times> nat) list" where
  "pci_places = concat (map (\<lambda>bus. concat (map (\<lambda>slot. map (\<lambda>func. (bus, slot, func)) [0..<8]) [0..<32])) [0..<256])"

text \<open>\<open>head\<close> is the first element of the list, memory from the heap that is never written.\<close>

definition PCI_detect :: "'d ports \<Rightarrow> (u64 \<Rightarrow> 'd \<Rightarrow> 'd) \<Rightarrow> pci_device \<Rightarrow> pci_state \<Rightarrow> 'd \<Rightarrow> (u8 \<times> pci_state \<times> 'd) res" where
  "PCI_detect P sleep head st d =
     rbind (pci_visit_all P sleep pci_places (st\<lparr>ps_devices := [head]\<rparr>) d) (\<lambda>(st1, d1). Inr (0, st1, d1))"

definition class_names :: "string list" where
  "class_names = [''Unclassified'', ''Mass Storage Controller'', ''Network Controller'', ''Display Controller'',
     ''Multimedia Controller'', ''Bridge Device'', ''Simple Communication Controller'', ''Base System Peripheral'',
     ''Input Device Controller'', ''Docking Station'', ''Processor'', ''Serial Bus Controller'', ''Wireless Controller'',
     ''Intelligent Controller'', ''Satellite Communication Controller'', ''Encryption Controller'',
     ''Signal Processing Controller'', ''Processing Accelerator'', ''Non-Essential Instrumentation'']"

fun PCI_list :: "'f dbl \<Rightarrow> 'd screen console \<Rightarrow> pci_device list \<Rightarrow> 'd screen \<Rightarrow> 'd screen res" where
  "PCI_list D T [] s = printk D T ''\<newline>'' [] s"
| "PCI_list D T (dev # devs) s =
     rbind (get_at class_names (unat (pd_class_code dev))) (\<lambda>name.
     rbind (log_info D T NICE_BLUE ''PCI'' ''(%d:%d:%d) %s'' [Int_arg (ucast (pd_bus dev)), Int_arg (ucast (pd_device dev)),
         Int_arg (ucast (pd_function dev)), Str_arg (lit name)] s)
       (PCI_list D T devs))"

section \<open>The clock\<close>

record rtc_time =
  rt_second :: u8
  rt_minute :: u8
  rt_hour :: u8
  rt_day :: u8
  rt_month :: u8
  rt_century :: u8
  rt_year :: u32

abbreviation (input) CMOS_ADDR :: u16 where "CMOS_ADDR \<equiv> 0x70"
abbreviation (input) CMOS_DATA :: u16 where "CMOS_DATA \<equiv> 0x71"

definition rtc_get_reg :: "'d ports \<Rightarrow> u32 \<Rightarrow> 'd \<Rightarrow> u8 \<times> 'd" where
  "rtc_get_reg P reg d = io_inb P CMOS_DATA (io_outb P CMOS_ADDR (ucast reg) d)"

text \<open>The mask is applied to the number of the port.\<close>

definition rtc_is_ready :: "'d ports \<Rightarrow> 'd \<Rightarrow> u8 \<times> 'd" where
  "rtc_is_ready P d = (case io_inb P (CMOS_DATA AND 0x80) (io_outb P CMOS_ADDR 0x0A d) of (v, d1) \<Rightarrow> (if v = 0 then 1 else 0, d1))"

partial_function (option) rtc_wait :: "'d ports \<Rightarrow> 'd \<Rightarrow> 'd option" where
  "rtc_wait P d = (case rtc_is_ready P d of (r, d1) \<Rightarrow> if r \<noteq> 0 then Some d1 else rtc_wait P d1)"

fun rtc_regs :: "'d ports \<Rightarrow> u32 list \<Rightarrow> 'd \<Rightarrow> u8 list \<times> 'd" where
  "rtc_regs P [] d = ([], d)"
| "rtc_regs P (r # rs) d = (let (v, d1) = rtc_get_reg P r d; (vs, d2) = rtc_regs P rs d1 in (v # vs, d2))"

text \<open>Reading the registers again up to the first that differs.\<close>

fun rtc_changed :: "'d ports \<Rightarrow> (u32 \<times> u8) list \<Rightarrow> 'd \<Rightarrow> bool \<times> 'd" where
  "rtc_changed P [] d = (False, d)"
| "rtc_changed P ((r, v) # rs) d =
     (let (w, d1) = rtc_get_reg P r d in if v \<noteq> w then (True, d1) else rtc_changed P rs d1)"

definition rtc_order :: "u32 list" where
  "rtc_order = [0x00, 0x02, 0x04, 0x07, 0x08, 0x09]"

partial_function (option) rtc_stable :: "'d ports \<Rightarrow> 'd \<Rightarrow> (u8 list \<times> 'd) option" where
  "rtc_stable P d =
     (case rtc_regs P rtc_order d of (vs, d1) \<Rightarrow>
        (case rtc_changed P (zip rtc_order vs) d1 of (b, d2) \<Rightarrow> if b then rtc_stable P d2 else Some (vs, d2)))"

definition bcd :: "u8 \<Rightarrow> u8" where
  "bcd v = (v AND 0x0F) + v div 16 * 10"

text \<open>The conversions of the values, from the format that register B tells.\<close>

definition rtc_convert :: "u8 \<Rightarrow> rtc_time \<Rightarrow> rtc_time" where
  "rtc_convert B t =
     (let t1 = (if B AND 0x04 = 0 then
            let hour = (rt_hour t AND 0x0F) + (rt_hour t AND 0x70) div 16 * 10
            in t\<lparr>rt_second := bcd (rt_second t), rt_minute := bcd (rt_minute t), rt_hour := hour OR (hour AND 0x80),
                 rt_day := bcd (rt_day t), rt_month := bcd (rt_month t),
                 rt_year := (rt_year t AND 0x0F) + rt_year t div 16 * 10\<rparr>
          else t)
      in if B AND 0x02 = 0 \<and> rt_hour t1 AND 0x80 \<noteq> 0 then t1\<lparr>rt_hour := ((rt_hour t1 AND 0x7F) + 12) mod 24\<rparr> else t1)"

definition rtc_now :: "'d ports \<Rightarrow> 'd \<Rightarrow> (rtc_time \<times> 'd) option" where
  "rtc_now P d =
     Option.bind (rtc_wait P d) (\<lambda>d1.
     Option.bind (rtc_stable P d1) (\<lambda>(vs, d2).
       let t = \<lparr>rt_second = vs ! 0, rt_minute = vs ! 1, rt_hour = vs ! 2, rt_day = vs ! 3, rt_month = vs ! 4,
             rt_century = 0, rt_year = ucast (vs ! 5)\<rparr>;
           (B, d3) = rtc_get_reg P 0x0B d2
       in Some (rtc_convert B t, d3)))"

definition rtc_months :: "string list" where
  "rtc_months = [''Jan'', ''Feb'', ''Mar'', ''Apr'', ''May'', ''Jun'', ''Jul'', ''Aug'', ''Sep'', ''Oct'', ''Nov'', ''Dec'']"

definition rtc_print_now :: "'f dbl \<Rightarrow> 'd ports \<Rightarrow> 'd screen console \<Rightarrow> 'd screen \<Rightarrow> 'd screen res" where
  "rtc_print_now D P T s =
     (case rtc_now P (sn_dev s) of None \<Rightarrow> Inl Diverges
      | Some (t, d) \<Rightarrow>
          rbind (if rt_month t = 0 then Inl Wild_access else get_at rtc_months (unat (rt_month t) - 1)) (\<lambda>month.
          printk D T ''%d %s %d  %d:%d:%d \<newline>'' [Int_arg (ucast (rt_day t)), Str_arg (lit month), Int_arg (rt_year t),
            Int_arg (ucast (rt_hour t)), Int_arg (ucast (rt_minute t)), Int_arg (ucast (rt_second t))] (s\<lparr>sn_dev := d\<rparr>)))"

section \<open>Serial lines\<close>

text \<open>The ports of \<^verbatim>\<open>serial.h\<close>.\<close>

abbreviation (input) SERIAL_COM1_IO :: u16 where "SERIAL_COM1_IO \<equiv> 0x3F8"
abbreviation (input) SERIAL_COM2_IO :: u16 where "SERIAL_COM2_IO \<equiv> 0x2F8"
abbreviation (input) SERIAL_COM3_IO :: u16 where "SERIAL_COM3_IO \<equiv> 0x3E8"
abbreviation (input) SERIAL_COM4_IO :: u16 where "SERIAL_COM4_IO \<equiv> 0x2E8"
abbreviation (input) SERIAL_FIFO_CMD :: "u16 \<Rightarrow> u16" where "SERIAL_FIFO_CMD s_port \<equiv> s_port + 2"
abbreviation (input) SERIAL_LINE_CMD :: "u16 \<Rightarrow> u16" where "SERIAL_LINE_CMD s_port \<equiv> s_port + 3"
abbreviation (input) SERIAL_MODEM_CMD :: "u16 \<Rightarrow> u16" where "SERIAL_MODEM_CMD s_port \<equiv> s_port + 4"
abbreviation (input) SERIAL_LINE_STATUS :: "u16 \<Rightarrow> u16" where "SERIAL_LINE_STATUS s_port \<equiv> s_port + 5"

definition serial_device_ports :: "u16 list" where
  "serial_device_ports = [SERIAL_COM1_IO, SERIAL_COM2_IO, SERIAL_COM3_IO, SERIAL_COM4_IO]"

definition serial_device_names :: "string list" where
  "serial_device_names = [''com1'', ''com2'', ''com3'', ''com4'']"

text \<open>\<open>rd\<close> and \<open>wr\<close> are the addresses of \<^verbatim>\<open>serial_read\<close> and \<^verbatim>\<open>serial_write\<close>.\<close>

definition serial_init :: "'d ports \<Rightarrow> vnode \<Rightarrow> vfile \<Rightarrow> devfs_node \<Rightarrow> u32 \<Rightarrow> u32 \<Rightarrow> u32 \<Rightarrow> u16 \<Rightarrow> vfs \<Rightarrow> 'd \<Rightarrow> (vfs \<times> 'd) res" where
  "serial_init P gn gf garbage rd wr root p s d =
     rbind (get_at serial_device_ports (unat p)) (\<lambda>port.
       let d1 = out_all P [(port + 1, 0x00), (SERIAL_LINE_CMD port, 0x80), (port, 0x03), (port + 1, 0x00), (SERIAL_LINE_CMD port, 0x03),
             (SERIAL_FIFO_CMD port, 0xC7), (SERIAL_MODEM_CMD port, 0x0B)] d
       in rbind (get_at serial_device_names (unat p)) (\<lambda>name.
          rbind (devfs_register_dev gn gf s root
              (garbage\<lparr>dv_name := name, dv_type := VFS_CDEV, dv_read := rd, dv_write := wr, dv_specific := ucast p\<rparr>))
            (\<lambda>(_, s1). Inr (s1, d1))))"

definition serial_available :: "'d ports \<Rightarrow> u16 \<Rightarrow> 'd \<Rightarrow> (u8 \<times> 'd) res" where
  "serial_available P p d =
     rbind (get_at serial_device_ports (unat p)) (\<lambda>port.
       let (v, d1) = io_inb P (SERIAL_LINE_STATUS port) d in Inr (0x01 AND v, d1))"

definition serial_tx_empty :: "'d ports \<Rightarrow> u16 \<Rightarrow> 'd \<Rightarrow> (u8 \<times> 'd) res" where
  "serial_tx_empty P p d =
     rbind (get_at serial_device_ports (unat p)) (\<lambda>port.
       let (v, d1) = io_inb P (SERIAL_LINE_STATUS port) d in Inr (0x20 AND v, d1))"

text \<open>Waiting until a test of the line answers.\<close>

partial_function (option) serial_wait :: "('d \<Rightarrow> (u8 \<times> 'd) res) \<Rightarrow> 'd \<Rightarrow> 'd res option" where
  "serial_wait ready d =
     (case ready d of Inl e \<Rightarrow> Some (Inl e)
      | Inr (v, d1) \<Rightarrow> if v \<noteq> 0 then Some (Inr d1) else serial_wait ready d1)"

definition serial_read_byte :: "'d ports \<Rightarrow> u16 \<Rightarrow> 'd \<Rightarrow> (u8 \<times> 'd) res" where
  "serial_read_byte P p d =
     rbind (get_at serial_device_ports (unat p)) (\<lambda>port.
     rbind (returned (serial_wait (serial_available P port) d)) (\<lambda>d1. Inr (io_inb P port d1)))"

definition serial_write_byte :: "'d ports \<Rightarrow> u16 \<Rightarrow> u8 \<Rightarrow> 'd \<Rightarrow> 'd res" where
  "serial_write_byte P p data d =
     rbind (get_at serial_device_ports (unat p)) (\<lambda>port.
     rbind (returned (serial_wait (serial_tx_empty P port) d)) (\<lambda>d1. Inr (io_outb P port data d1)))"

fun serial_read_loop :: "'d ports \<Rightarrow> u16 \<Rightarrow> mem \<Rightarrow> u32 \<Rightarrow> nat \<Rightarrow> 'd \<Rightarrow> (mem \<times> 'd) res" where
  "serial_read_loop P p m buffer 0 d = Inr (m, d)"
| "serial_read_loop P p m buffer (Suc n) d =
     rbind (serial_read_byte P p d) (\<lambda>(b, d1). serial_read_loop P p (m(buffer := b)) (buffer + 1) n d1)"

definition serial_read :: "'d ports \<Rightarrow> vfile \<Rightarrow> u32 \<Rightarrow> u32 \<Rightarrow> u32 \<Rightarrow> mem \<Rightarrow> 'd \<Rightarrow> (u32 \<times> mem \<times> 'd) res" where
  "serial_read P node offset n buffer m d =
     rbind (serial_read_loop P (ucast (vf_inode node)) m (buffer + offset) (unat n) d) (\<lambda>(m1, d1). Inr (0, m1, d1))"

fun serial_write_loop :: "'d ports \<Rightarrow> u16 \<Rightarrow> mem \<Rightarrow> u32 \<Rightarrow> nat \<Rightarrow> 'd \<Rightarrow> 'd res" where
  "serial_write_loop P p m buffer 0 d = Inr d"
| "serial_write_loop P p m buffer (Suc n) d =
     rbind (serial_write_byte P p (m buffer) d) (\<lambda>d1. serial_write_loop P p m (buffer + 1) n d1)"

definition serial_write :: "'d ports \<Rightarrow> vfile \<Rightarrow> u32 \<Rightarrow> u32 \<Rightarrow> u32 \<Rightarrow> mem \<Rightarrow> 'd \<Rightarrow> (u32 \<times> 'd) res" where
  "serial_write P node offset n buffer m d =
     rbind (serial_write_loop P (ucast (vf_inode node)) m (buffer + offset) (unat n) d) (\<lambda>d1. Inr (0, d1))"

section \<open>What goes wrong\<close>

text \<open>
  The tests of the line take the number of the line but are given its port: every transfer reads past the
  table of ports.
\<close>

lemma serial_byte_faults:
  "serial_write_byte P p data d = Inl Wild_access" "serial_read_byte P p d = Inl Wild_access"
proof -
  have "serial_write_byte P p data d = Inl Wild_access \<and> serial_read_byte P p d = Inl Wild_access"
  proof (cases "unat p < 4")
    case True
    define port where "port = serial_device_ports ! unat p"
    have "get_at serial_device_ports (unat p) = Inr port"
      using True by (simp add: get_at_def port_def serial_device_ports_def)
    moreover have "port \<in> set serial_device_ports"
      using True unfolding port_def by (intro nth_mem) (simp add: serial_device_ports_def)
    then have "get_at serial_device_ports (unat port) = Inl Wild_access"
      by (auto simp: serial_device_ports_def get_at_wild)
    ultimately show ?thesis
      by (simp add: serial_write_byte_def serial_read_byte_def serial_wait.simps serial_tx_empty_def serial_available_def)
  qed (simp add: serial_write_byte_def serial_read_byte_def serial_device_ports_def get_at_wild)
  then show "serial_write_byte P p data d = Inl Wild_access" "serial_read_byte P p d = Inl Wild_access" by simp_all
qed

text \<open>In the twelve hour format the mark of the afternoon is masked away before it is tested.\<close>

lemma bcd_hour_small: "((h AND 0x0F) + (h AND 0x70) div 16 * 10) AND 0x80 = (0 :: u8)"
proof -
  have "\<forall>n \<in> set [0..<256]. ((of_nat n AND 0x0F) + (of_nat n AND 0x70) div 16 * 10) AND 0x80 = (0 :: u8)"
    by code_simp
  moreover have "unat h \<in> set [0..<256]" using unsigned_less [of h, where 'a = nat] by simp
  ultimately have "((of_nat (unat h) AND 0x0F) + (of_nat (unat h) AND 0x70) div 16 * 10) AND 0x80 = (0 :: u8)" by blast
  then show ?thesis by simp
qed

lemma rtc_bcd_afternoon_lost:
  assumes "B AND 0x04 = 0"
  shows "rt_hour (rtc_convert B t) = (rt_hour t AND 0x0F) + (rt_hour t AND 0x70) div 16 * 10"
  using assms bcd_hour_small [of "rt_hour t"] by (simp add: rtc_convert_def Let_def)

text \<open>Bus numbers from 128 on set the reserved bits of the address.\<close>

lemma pci_bus_sign:
  "push_bit 16 (scast (0x80 :: u8) :: u32) = 0xFF800000"
  by simp

end
