(* ===== verification/Syscall_Effects.thy ===== *)
theory Syscall_Effects
  imports Syscall
begin

text \<open>
  What a system call can change: one lemma for each operation it is made of, collected in \<open>effects\<close>, and the frame of
  every call of \<^verbatim>\<open>syscall_list\<close>.
\<close>

section \<open>Files\<close>

lemma gft_add_if [effects]: "gft_add mem s node = Inr (i, s') \<Longrightarrow> fs_if s' = fs_if s"
  by (auto simp: gft_add_def gft_entry_exists_def fd_flags)

lemma fd_open_if [effects]: "fd_open mem s node flags = Inr (p, s') \<Longrightarrow> fs_if s' = fs_if s"
  by (auto simp: fd_open_def fd_flags)

lemma file_open_if [effects]: "file_open mem v s path flags mode = Inr (i, s') \<Longrightarrow> fs_if s' = fs_if s"
  by (auto simp: file_open_def fd_flags)

lemma file_read_same [effects]: "file_read ops a v s fd n = Inr (r, s') \<Longrightarrow> s' = s"
  by (auto simp: file_read_def fd_flags split: option.splits if_splits)

lemma file_write_same [effects]: "file_write ops a v s fd n = Inr (r, s') \<Longrightarrow> s' = s"
  by (auto simp: file_write_def fd_flags split: option.splits if_splits)

lemma standard_files_if [effects]: "standard_files e v fs = Inr (l, v', fs') \<Longrightarrow> fs_if fs' = fs_if fs"
  by (auto simp: standard_files_def Let_def dest!: fd_open_if)

section \<open>The current task\<close>

text \<open>What a call may do to the file table and to the descriptors of the current task, and to nothing else.\<close>

lemma with_files_frame [effects]:
  "with_files s f = Inr (r, s') \<Longrightarrow> os_mem s' = os_mem s \<and> os_vfs s' = os_vfs s \<and> os_stacks s' = os_stacks s \<and>
     mt_get_current_task (os_sched s') = mt_get_current_task (os_sched s)"
  by (auto simp: with_files_def upd_cur_def upd_task_def mt_get_current_task_def)

lemma with_files_if:
  assumes "with_files s f = Inr (r, s')" and "\<And>fs x fs'. f fs = Inr (x, fs') \<Longrightarrow> fs_if fs' = fs_if fs"
  shows "fs_if (os_files s') = fs_if (os_files s)"
proof -
  obtain t :: task and fs where "f ((os_files s)\<lparr>fs_list := t_fds t, fs_pid := t_pid t\<rparr>) = Inr (r, fs)" and "os_files s' = fs"
    using assms(1) by (auto simp: with_files_def)
  from assms(2) [OF this(1)] this(2) show ?thesis by simp
qed

lemma upd_cur_effect [effects]:
  "upd_cur s f = Inr s' \<Longrightarrow> os_mem s' = os_mem s \<and> os_vfs s' = os_vfs s \<and> os_files s' = os_files s \<and> os_stacks s' = os_stacks s \<and>
     mt_get_current_task (os_sched s') = mt_get_current_task (os_sched s)"
  by (auto simp: upd_cur_def upd_task_def mt_get_current_task_def)

section \<open>The calls\<close>

lemma sys_open_effect:
  assumes "sys_open e p s = Inr (q, s')"
  shows "(\<exists>v. q = Some (p\<lparr>sp_eax := v\<rparr>)) \<and>
    os_mem s' = os_mem s \<and>
    os_vfs s' = os_vfs s \<and>
    fs_if (os_files s') = fs_if (os_files s) \<and>
    mt_get_current_task (os_sched s') = mt_get_current_task (os_sched s)"
proof -
  obtain path r where 1: "with_files s (\<lambda>fs. file_open (ke_cells e) (os_vfs s) fs path (sp_ecx p) (sp_edx p)) = Inr (r, s')"
      "q = Some (p\<lparr>sp_eax := r\<rparr>)"
    using assms by (auto simp: sys_open_def)
  have "fs_if (os_files s') = fs_if (os_files s)"
    by (rule with_files_if [OF 1(1)]) (rule file_open_if)
  then show ?thesis using with_files_frame [OF 1(1)] 1(2) by auto
qed

lemma sys_close_effect:
  assumes "sys_close p s = Inr (q, s')"
  shows "(\<exists>v. q = Some (p\<lparr>sp_eax := v\<rparr>)) \<and>
    os_mem s' = os_mem s \<and>
    os_vfs s' = os_vfs s \<and>
    mt_get_current_task (os_sched s') = mt_get_current_task (os_sched s)"
  using assms by (auto simp: sys_close_def dest!: effects)

lemma sys_read_effect:
  assumes "sys_read e p s = Inr (q, s')"
  shows "(\<exists>v. q = Some (p\<lparr>sp_eax := v\<rparr>)) \<and>
    os_vfs s' = os_vfs s \<and>
    fs_if (os_files s') = fs_if (os_files s) \<and>
    mt_get_current_task (os_sched s') = mt_get_current_task (os_sched s)"
proof -
  obtain r m s1 where 1: "with_files s (\<lambda>fs. file_read (ke_read e (sp_ecx p) (os_mem s)) (os_mem s) (os_vfs s) fs (sp_ebx p) (sp_edx p)) =
      Inr ((r, m), s1)" "q = Some (p\<lparr>sp_eax := r\<rparr>)" "s' = s1\<lparr>os_mem := m\<rparr>"
    using assms by (auto simp: sys_read_def)
  have "fs_if (os_files s1) = fs_if (os_files s)"
    by (rule with_files_if [OF 1(1)]) (auto dest: file_read_same)
  then show ?thesis using with_files_frame [OF 1(1)] 1(2,3) by auto
qed

lemma sys_write_effect:
  assumes "sys_write e p s = Inr (q, s')"
  shows "q = Some p \<and>
    os_vfs s' = os_vfs s \<and>
    fs_if (os_files s') = fs_if (os_files s) \<and>
    mt_get_current_task (os_sched s') = mt_get_current_task (os_sched s)"
proof -
  obtain r m s1 where 1: "with_files s (\<lambda>fs. file_write (ke_write e (sp_ecx p) (os_mem s)) (os_mem s) (os_vfs s) fs (sp_ebx p) (sp_edx p)) =
      Inr ((r, m), s1)" "q = Some p" "s' = s1\<lparr>os_mem := m\<rparr>"
    using assms by (auto simp: sys_write_def)
  have "fs_if (os_files s1) = fs_if (os_files s)"
    by (rule with_files_if [OF 1(1)]) (auto dest: file_write_same)
  then show ?thesis using with_files_frame [OF 1(1)] 1(2,3) by auto
qed

lemma sys_setcwd_effect:
  assumes "sys_setcwd p s = Inr (q, s')"
  shows "q = Some p \<and>
    os_mem s' = os_mem s \<and>
    os_vfs s' = os_vfs s \<and>
    os_files s' = os_files s \<and>
    mt_get_current_task (os_sched s') = mt_get_current_task (os_sched s)"
  using assms by (auto simp: sys_setcwd_def split: if_splits dest!: effects)

lemma sys_getcwd_effect:
  assumes "sys_getcwd p s = Inr (q, s')"
  shows "q = Some p \<and>
    os_vfs s' = os_vfs s \<and>
    os_files s' = os_files s \<and>
    os_sched s' = os_sched s"
  using assms by (auto simp: sys_getcwd_def Let_def split: option.splits)

lemma sys_exit_effect:
  assumes "sys_exit e p s = Inr (q, s')"
  shows "q = None \<and>
    os_mem s' = os_mem s \<and>
    os_vfs s' = os_vfs s \<and>
    os_files s' = os_files s"
  using assms by (auto simp: sys_exit_def)

lemma upd_task_cur [effects]: "upd_task s t f = Inr s' \<Longrightarrow> sc_cur s' = sc_cur s"
  by (auto simp: upd_task_def)

lemma mt_push_task_cur [effects]: "mt_push_task s t = Inr s' \<Longrightarrow> sc_cur s' = sc_cur s"
  by (auto simp: mt_push_task_def upd_task_def split: if_splits)

lemma ktask_create_cur [effects]: "ktask_create res m s name ppid entry args = Inr (t, m', s') \<Longrightarrow> sc_cur s' = sc_cur s"
  by (auto simp: ktask_create_def gen_pid_def Let_def split: if_splits prod.splits)

lemma mt_spawn_utask_cur [effects]: "mt_spawn_utask res m s name ppid node exec dir = Inr (t, m', s') \<Longrightarrow> sc_cur s' = sc_cur s"
  by (auto simp: mt_spawn_utask_def utask_create_def split: option.splits if_splits dest!: effects)

lemma spawn_program_effect:
  assumes "spawn_program e s name ppid path = Inr (pid, s')"
  shows "os_mem s' = os_mem s" and "fs_if (os_files s') = fs_if (os_files s)" and "sc_cur (os_sched s') = sc_cur (os_sched s)"
proof -
  have "s' = s \<or> (\<exists>l v1 fs1 st sc res nf. standard_files e (os_vfs s) (os_files s) = Inr (l, v1, fs1) \<and>
      mt_spawn_utask res (os_stacks s) (os_sched s) name ppid nf (ke_exec e) (ke_user_dir e) = Inr (pid, st, sc) \<and>
      s' = s\<lparr>os_vfs := v1, os_files := fs1, os_sched := sc, os_stacks := st\<rparr>)"
    using assms by (auto simp: spawn_program_def split: option.splits if_splits) blast
  then consider "s' = s" | l v1 fs1 st sc res nf where "standard_files e (os_vfs s) (os_files s) = Inr (l, v1, fs1)"
      "mt_spawn_utask res (os_stacks s) (os_sched s) name ppid nf (ke_exec e) (ke_user_dir e) = Inr (pid, st, sc)"
      "s' = s\<lparr>os_vfs := v1, os_files := fs1, os_sched := sc, os_stacks := st\<rparr>"
    by blast
  note cases = this
  show "os_mem s' = os_mem s" by (rule cases) simp_all
  show "fs_if (os_files s') = fs_if (os_files s)" by (rule cases) (simp_all add: standard_files_if)
  show "sc_cur (os_sched s') = sc_cur (os_sched s)" by (rule cases) (simp_all add: mt_spawn_utask_cur)
qed

lemma sys_run_effect:
  assumes "sys_run e p s = Inr (q, s')"
  shows "(\<exists>v. q = Some (p\<lparr>sp_eax := v\<rparr>)) \<and>
    os_mem s' = os_mem s \<and>
    fs_if (os_files s') = fs_if (os_files s) \<and>
    mt_get_current_task (os_sched s') = mt_get_current_task (os_sched s)"
  using assms
  by (auto simp: sys_run_def mt_get_current_task_def split: option.splits dest: spawn_program_effect)

section \<open>Every call\<close>

definition with_params :: "registers \<Rightarrow> syscall_params \<Rightarrow> registers" where
  "with_params r p = r\<lparr>rg_eax := sp_eax p, rg_ebx := sp_ebx p, rg_ecx := sp_ecx p, rg_edx := sp_edx p,
     rg_esi := sp_esi p, rg_edi := sp_edi p, rg_ebp := sp_ebp p\<rparr>"

lemma with_params_eax [simp]: "with_params r ((params_of r)\<lparr>sp_eax := v\<rparr>) = r\<lparr>rg_eax := v\<rparr>" "with_params r (params_of r) = r"
  by (simp_all add: with_params_def params_of_def)

lemma dispatch:
  assumes "syscall_handler e r s = Inr (q, s')"
  obtains c q' where "run_syscall c e (params_of r) s = Inr (q', s')" and "q = map_option (with_params r) q'"
    and "(rg_eax r, c) \<in> {(0, Sys_hello), (1, Sys_exit), (3, Sys_read), (4, Sys_write), (5, Sys_open), (6, Sys_close), (7, Sys_getpid),
      (8, Sys_getppid), (9, Sys_run), (10, Sys_wait), (12, Sys_getcwd), (13, Sys_setcwd), (14, Sys_getfb)}"
proof -
  obtain c q' where c: "unat (rg_eax r) < 15" "syscall_list ! unat (rg_eax r) = Some c"
      "run_syscall c e (params_of r) s = Inr (q', s')" "q = map_option (with_params r) q'"
    using assms by (auto simp: syscall_handler_def get_at_def syscall_list_def with_params_def split: if_splits option.splits)
  have "rg_eax r = of_nat (unat (rg_eax r))" by simp
  moreover have "unat (rg_eax r) \<in> set [0..<15]" using c(1) by simp
  ultimately have "rg_eax r \<in> of_nat ` set [0..<15]" by blast
  then have "rg_eax r \<in> {0, 1, 2, 3, 4, 5, 6, 7, 8, 9, 10, 11, 12, 13, 14}" by (simp add: upt_rec)
  then show thesis using c(2) that [OF c(3,4)] by (auto simp: syscall_list_def)
qed



section \<open>Waiting\<close>

lemma wait_loop_gone:
  "wait_loop pid s ss = Inr s' \<Longrightarrow> mt_get_task_by_pid (os_sched s') pid = Inr 0 \<and> s' \<in> set (s # ss)"
  by (induction pid s ss rule: wait_loop.induct) (auto split: if_splits)

text \<open>
  The call that waits returns 0, and only once no task has the number any more; the caller is then in the
  foreground again.
\<close>

lemma sys_wait_gone:
  assumes "sys_wait e p s = Inr (q, s')"
  obtains s1 :: os where "mt_get_task_by_pid (os_sched s1) (sp_ebx p) = Inr 0" and "q = Some (p\<lparr>sp_eax := 0\<rparr>)"
    and "sc_fg (os_sched s') = mt_get_current_task (os_sched s1)" and "os_mem s' = os_mem s1"
proof -
  obtain t s1 where 1: "wait_loop (sp_ebx p) (s\<lparr>os_sched := mt_set_fg_task (os_sched s) t\<rparr>) (ke_waits e) = Inr s1"
      "q = Some (p\<lparr>sp_eax := 0\<rparr>)" "s' = s1\<lparr>os_sched := mt_set_fg_task (os_sched s1) (mt_get_current_task (os_sched s1))\<rparr>"
    using assms by (auto simp: sys_wait_def)
  show thesis
    by (rule that [of s1]) (use wait_loop_gone [OF 1(1)] 1(2,3) in \<open>simp_all add: mt_set_fg_task_def\<close>)
qed

end
