(* ===== verification/Pipe_Mem.thy ===== *)
theory Pipe_Mem
  imports Pipe File_Descr
begin

text \<open>
  The ring buffer of \<open>Pipe\<close> as it lies in memory (\<^verbatim>\<open>ring_buffer_t\<close> of \<^verbatim>\<open>kernel/fs/pipe.h\<close>, with its bytes elsewhere), and
  the file operations of a pipe on it: the structure is taken from memory, worked on, and stored back.
\<close>

section \<open>Double words in memory\<close>

lemma ld32_st32 [simp]: "ld32 (st32 m a v) a = v"
proof -
  have "ld32 (st32 m a v) a = ucast (ucast v :: u8) OR push_bit 8 (ucast (ucast (drop_bit 8 v) :: u8))
     OR push_bit 16 (ucast (ucast (drop_bit 16 v) :: u8)) OR push_bit 24 (ucast (ucast (drop_bit 24 v) :: u8))"
    by (simp add: ld32_def st32_def)
  also have "\<dots> = v" (is "?r = v")
  proof (rule bit_word_eqI)
    fix n assume "n < LENGTH(32)"
    consider "n < 16" | "16 \<le> n" "n < 24" | "24 \<le> n" by linarith
    then show "bit ?r n = bit v n"
      using \<open>n < LENGTH(32)\<close> by cases (auto simp: bit_simps)
  qed
  finally show ?thesis .
qed

lemma st32_other: "\<not> in_region a 4 b \<Longrightarrow> st32 m a v b = m b"
  using in_region_of_nat [of 0 4 a] in_region_of_nat [of 1 4 a] in_region_of_nat [of 2 4 a] in_region_of_nat [of 3 4 a]
  by (auto simp: st32_def)

lemma ld32_cong:
  assumes "\<And>i. i < 4 \<Longrightarrow> m' (a + of_nat i) = m (a + of_nat i)"
  shows "ld32 m' a = ld32 m a"
  using assms [of 0] assms [of 1] assms [of 2] assms [of 3] by (simp add: ld32_def)

section \<open>The structure\<close>

definition rb_at :: "mem \<Rightarrow> u32 \<Rightarrow> ring_buffer" where
  "rb_at m p = \<lparr>rb_buffer = bytes m (ld32 m p) (unat (ld32 m (p + 8))), rb_read_index = m (p + 4),
     rb_write_index = m (p + 5), rb_size = ld32 m (p + 8), rb_valid = ld32 m (p + 12)\<rparr>"

definition put_rb :: "mem \<Rightarrow> u32 \<Rightarrow> ring_buffer \<Rightarrow> mem" where
  "put_rb m p rb =
     st32 ((write_all m (ld32 m p) (rb_buffer rb))(p + 4 := rb_read_index rb, p + 5 := rb_write_index rb)) (p + 12) (rb_valid rb)"

text \<open>The structure and its bytes are apart, and the ring is well formed.\<close>

definition rb_placed :: "mem \<Rightarrow> u32 \<Rightarrow> bool" where
  "rb_placed m p \<longleftrightarrow> rb_inv (rb_at m p) \<and> apart p 16 (ld32 m p) (unat (ld32 m (p + 8)))"

definition in_ring :: "mem \<Rightarrow> u32 \<Rightarrow> u32 \<Rightarrow> bool" where
  "in_ring m p a \<longleftrightarrow> in_region p 16 a \<or> in_region (ld32 m p) (unat (ld32 m (p + 8))) a"

lemma in_structure: "k < 16 \<Longrightarrow> in_region p 16 (p + of_nat k)"
  by (rule in_region_of_nat) auto

lemma last_field: "k < 12 \<Longrightarrow> \<not> in_region (p + 12) 4 (p + of_nat k)"
proof -
  assume "k < 12"
  have "p + of_nat k - (p + 12) = of_nat k - (12 :: u32)" by simp
  moreover have "\<not> unat (of_nat k - 12 :: u32) < 4"
  proof
    assume lt: "unat (of_nat k - 12 :: u32) < 4"
    have "(of_nat k :: u32) = of_nat (unat (of_nat k - 12 :: u32) + 12)" by simp
    then have "k = unat (of_nat k - 12 :: u32) + 12"
      using lt \<open>k < 12\<close> by (intro of_nat_word_inj [where 'a = 32]) auto
    then show False using \<open>k < 12\<close> by simp
  qed
  ultimately show ?thesis by (simp add: in_region_def)
qed

lemma put_rb_apply:
  assumes "rb_placed m p" and "rb_size rb = rb_size (rb_at m p)" and "length (rb_buffer rb) = unat (rb_size rb)"
  shows "rb_at (put_rb m p rb) p = rb" and "ld32 (put_rb m p rb) p = ld32 m p" and "ld32 (put_rb m p rb) (p + 8) = ld32 m (p + 8)"
    and "\<not> in_ring m p a \<Longrightarrow> put_rb m p rb a = m a"
proof -
  let ?d = "ld32 m p" and ?n = "unat (ld32 m (p + 8))"
  let ?m = "put_rb m p rb"
  have n: "length (rb_buffer rb) = ?n" using assms(2,3) by (simp add: rb_at_def)
  have lt: "length (rb_buffer rb) < 2 ^ 32" using unat_u32_less [of "ld32 m (p + 8)"] by (simp add: n)
  have ap: "apart p 16 ?d ?n" using assms(1) by (simp add: rb_placed_def)
  have m1: "?m a = (if in_region ?d ?n a then rb_buffer rb ! unat (a - ?d) else m a)"
    if "a \<noteq> p + 4" "a \<noteq> p + 5" "\<not> in_region (p + 12) 4 a" for a
    using that by (simp add: put_rb_def st32_other write_all_apply [OF lt] n)
  have keep: "?m (p + of_nat k) = m (p + of_nat k)" if "k < 12" "k \<noteq> 4" "k \<noteq> 5" for k
  proof -
    have "(of_nat k :: u32) \<noteq> of_nat 4" "(of_nat k :: u32) \<noteq> of_nat 5"
      using that of_nat_word_inj [of k 4, where 'a = 32] of_nat_word_inj [of k 5, where 'a = 32] by auto
    then show ?thesis
      using m1 [of "p + of_nat k"] last_field [OF that(1)] apartD1 [OF ap in_structure, of k] that(1) by simp
  qed
  show d: "ld32 ?m p = ?d" by (rule ld32_cong) (rule keep, auto)
  show sz: "ld32 ?m (p + 8) = ld32 m (p + 8)"
  proof (rule ld32_cong)
    fix i :: nat assume "i < 4"
    then show "?m (p + 8 + of_nat i) = m (p + 8 + of_nat i)"
      using keep [of "8 + i"] by (simp add: add.assoc)
  qed
  show "?m a = m a" if "\<not> in_ring m p a"
  proof -
    have "a \<noteq> p + 4" "a \<noteq> p + 5" "\<not> in_region (p + 12) 4 a"
      using that in_structure [of 4 p] in_structure [of 5 p] in_region_shift [of p 12 4 a 16] by (auto simp: in_ring_def)
    then show ?thesis using m1 [of a] that by (simp add: in_ring_def)
  qed
  have "bytes ?m ?d ?n = rb_buffer rb"
  proof (rule nth_equalityI)
    show "length (bytes ?m ?d ?n) = length (rb_buffer rb)" by (simp add: n)
    fix i assume "i < length (bytes ?m ?d ?n)"
    then have i: "i < ?n" by simp
    have r: "in_region ?d ?n (?d + of_nat i)"
      using i unat_u32_le [of "ld32 m (p + 8)"] by (intro in_region_of_nat) auto
    then have "\<not> in_region p 16 (?d + of_nat i)" using apartD1 [OF apart_sym [OF ap]] by simp
    then have "?d + of_nat i \<noteq> p + 4" "?d + of_nat i \<noteq> p + 5" "\<not> in_region (p + 12) 4 (?d + of_nat i)"
      using in_structure [of 4 p] in_structure [of 5 p] in_region_shift [of p 12 4 "?d + of_nat i" 16] by auto
    then show "bytes ?m ?d ?n ! i = rb_buffer rb ! i"
      using i r m1 [of "?d + of_nat i"] unat_of_nat_u32 [of i] lt n by simp
  qed
  moreover have "?m (p + 4) = rb_read_index rb" "?m (p + 5) = rb_write_index rb"
    using last_field [of 4 p] last_field [of 5 p] by (simp_all add: put_rb_def st32_other)
  moreover have "ld32 ?m (p + 12) = rb_valid rb" by (simp add: put_rb_def)
  ultimately show "rb_at ?m p = rb"
    using assms(2) by (simp add: rb_at_def d sz)
qed

section \<open>The file operations\<close>

text \<open>
  \<open>file->inode\<close> is the address of the structure. The bytes of the caller are read before the first one is stored, and
  those for the caller are stored after the last one is read: the caller's buffer is not part of the ring.
\<close>

definition rbm_vfs_write :: "mem \<Rightarrow> vfile \<Rightarrow> u32 \<Rightarrow> u32 \<Rightarrow> u32 \<Rightarrow> (u32 \<times> mem) res" where
  "rbm_vfs_write m f offset n buffer =
     rbind (rb_vfs_write (rb_at m (vf_inode f)) offset n (bytes m buffer (unat n))) (\<lambda>(k, rb).
       Inr (k, put_rb m (vf_inode f) rb))"

definition rbm_vfs_read :: "mem \<Rightarrow> vfile \<Rightarrow> u32 \<Rightarrow> u32 \<Rightarrow> u32 \<Rightarrow> (u32 \<times> mem) res" where
  "rbm_vfs_read m f offset n buffer =
     rbind (rb_vfs_read (rb_at m (vf_inode f)) offset n) (\<lambda>(k, bs, rb).
       Inr (k, write_all (put_rb m (vf_inode f) rb) buffer bs))"

definition queued :: "mem \<Rightarrow> u32 \<Rightarrow> u8 list" where
  "queued m p = rb_contents (rb_at m p)"

text \<open>What every operation on the ring at \<open>p\<close> keeps: its place, its size, and all other memory.\<close>

definition ring_step :: "mem \<Rightarrow> u32 \<Rightarrow> mem \<Rightarrow> bool" where
  "ring_step m p m' \<longleftrightarrow> rb_placed m' p \<and> ld32 m' p = ld32 m p \<and> ld32 m' (p + 8) = ld32 m (p + 8) \<and>
     (\<forall>a. \<not> in_ring m p a \<longrightarrow> m' a = m a)"

lemma ring_stepD:
  assumes "ring_step m p m'"
  shows "rb_placed m' p" and "in_ring m' p = in_ring m p" and "ld32 m' (p + 8) = ld32 m (p + 8)"
    and "\<not> in_ring m p a \<Longrightarrow> m' a = m a"
  using assms by (auto simp: ring_step_def in_ring_def fun_eq_iff)

lemma ring_step_refl: "rb_placed m p \<Longrightarrow> ring_step m p m"
  by (simp add: ring_step_def)

lemma ring_step_trans: "ring_step m p m' \<Longrightarrow> ring_step m' p m'' \<Longrightarrow> ring_step m p m''"
  by (auto simp: ring_step_def in_ring_def)

lemma put_rb_step:
  assumes "rb_placed m p" and "rb_inv rb" and "rb_cap rb = rb_cap (rb_at m p)"
  shows "ring_step m p (put_rb m p rb)" and "rb_at (put_rb m p rb) p = rb"
proof -
  have sz: "rb_size rb = rb_size (rb_at m p)" using assms(3) by (intro unsigned_word_eqI) (simp add: rb_cap_def)
  have len: "length (rb_buffer rb) = unat (rb_size rb)" using assms(2) by (simp add: rb_inv_def Let_def)
  note put = put_rb_apply [OF assms(1) sz len]
  show "rb_at (put_rb m p rb) p = rb" by (rule put(1))
  show "ring_step m p (put_rb m p rb)"
    using assms(1,2) put by (simp add: ring_step_def rb_placed_def)
qed

lemma rbm_vfs_write_ok:
  assumes "rb_placed m (vf_inode f)" and "length (queued m (vf_inode f)) + unat n \<le> unat (ld32 m (vf_inode f + 8))"
  obtains m' where "rbm_vfs_write m f offset n buffer = Inr (n, m')" and "ring_step m (vf_inode f) m'"
    and "queued m' (vf_inode f) = queued m (vf_inode f) @ bytes m buffer (unat n)"
proof -
  let ?p = "vf_inode f"
  have inv: "rb_inv (rb_at m ?p)" using assms(1) by (simp add: rb_placed_def)
  have cap: "rb_cap (rb_at m ?p) = unat (ld32 m (?p + 8))" by (simp add: rb_cap_def rb_at_def)
  obtain rb where rb: "rb_write (rb_at m ?p) (bytes m buffer (unat n)) n = Inr (n, rb)" "rb_inv rb"
      "rb_contents rb = queued m ?p @ bytes m buffer (unat n)" "rb_cap rb = rb_cap (rb_at m ?p)"
    using rb_write_ok [OF inv, of "bytes m buffer (unat n)" n] assms(2) unfolding cap queued_def by auto
  note put = put_rb_step [OF assms(1) rb(2,4)]
  show thesis
    by (rule that [of "put_rb m ?p rb"]) (simp_all add: rbm_vfs_write_def rb_vfs_write_def rb(1,3) put queued_def)
qed

lemma rbm_vfs_read_ok:
  assumes "rb_placed m (vf_inode f)" and "unat n \<le> length (queued m (vf_inode f))"
  obtains m' m'' where "rbm_vfs_read m f offset n buffer = Inr (n, m'')" and "ring_step m (vf_inode f) m'"
    and "queued m' (vf_inode f) = drop (unat n) (queued m (vf_inode f))"
    and "m'' = write_all m' buffer (take (unat n) (queued m (vf_inode f)))"
proof -
  let ?p = "vf_inode f"
  have inv: "rb_inv (rb_at m ?p)" using assms(1) by (simp add: rb_placed_def)
  obtain rb where rb: "rb_read (rb_at m ?p) n = Inr (n, take (unat n) (queued m ?p), rb)" "rb_inv rb"
      "rb_contents rb = drop (unat n) (queued m ?p)" "rb_cap rb = rb_cap (rb_at m ?p)"
    using rb_read_ok [OF inv, of n] assms(2) unfolding queued_def by auto
  note put = put_rb_step [OF assms(1) rb(2,4)]
  show thesis
    by (rule that [of _ "put_rb m ?p rb"]) (simp_all add: rbm_vfs_read_def rb_vfs_read_def rb(1,3) put queued_def)
qed

end
