(* ===== verification/Input.thy ===== *)
theory Input
  imports Pipe_Mem Ps2
begin

text \<open>
  From the keyboard to a task: the interrupts of the keyboard put characters into the pipe that is the standard
  input of the foreground task, and the system call that reads descriptor 0 takes them out. The theory puts \<open>Ps2\<close>,
  \<open>Pipe_Mem\<close> and \<open>Syscall\<close> together.
\<close>

section \<open>The parts\<close>

text \<open>Descriptor 0 of the task at \<open>t\<close> is a pipe whose ring is at \<open>p\<close>; \<open>rd\<close> and \<open>wr\<close> are the addresses of its operations.\<close>

definition stdin_pipe :: "os \<Rightarrow> u32 \<Rightarrow> u32 \<Rightarrow> u32 \<Rightarrow> u32 \<Rightarrow> bool" where
  "stdin_pipe s t rd wr p \<longleftrightarrow> t \<noteq> 0 \<and> rd \<noteq> 0 \<and> wr \<noteq> 0 \<and>
     (\<exists>task fd dd node f. sc_store (os_sched s) t = Some task \<and> list_get (t_fds task) 0 = Inr (Some fd) \<and> fd \<noteq> 0 \<and>
        fs_fds (os_files s) fd = Some dd \<and> fd_read dd \<noteq> 0 \<and> fd_to_node (os_files s) fd = Inr node \<and>
        node_file (os_vfs s) node = Inr f \<and> vf_read f = rd \<and> vf_write f = wr \<and> vf_inode f = p)"

definition pipe_ops :: "kenv \<Rightarrow> u32 \<Rightarrow> u32 \<Rightarrow> bool" where
  "pipe_ops e rd wr \<longleftrightarrow>
     ke_read e = (\<lambda>b m a f off n. if a = rd then rbm_vfs_read m f off n b else Inl Wild_access) \<and>
     ke_write e = (\<lambda>b m a f off n. if a = wr then rbm_vfs_write m f off n b else Inl Wild_access)"

text \<open>The keyboard interrupts that follow each other, and the codes the controller hands out to them.\<close>

fun kbd_events :: "'d ports \<Rightarrow> kenv \<Rightarrow> kbd \<Rightarrow> os \<Rightarrow> 'd \<Rightarrow> nat \<Rightarrow> (kbd \<times> os \<times> 'd) res" where
  "kbd_events P e kb s d 0 = Inr (kb, s, d)"
| "kbd_events P e kb s d (Suc n) = rbind (kbd_event P e kb s d) (\<lambda>(kb1, s1, d1). kbd_events P e kb1 s1 d1 n)"

fun feeds :: "'d ports \<Rightarrow> 'd \<Rightarrow> u8 list \<Rightarrow> bool" where
  "feeds P d [] \<longleftrightarrow> True"
| "feeds P d (k # ks) \<longleftrightarrow> fst (io_inb P 0x60 d) = k \<and> feeds P (snd (io_inb P 0x60 d)) ks"

text \<open>The characters of the keys that are pressed, in the layout at \<open>layout\<close>; a release has bit 7 set.\<close>

definition typed :: "mem \<Rightarrow> u32 \<Rightarrow> u8 list \<Rightarrow> u8 list" where
  "typed m layout ks = map (\<lambda>k. m (layout + ucast k)) (filter (\<lambda>k. k AND 0x80 = 0) ks)"

section \<open>One interrupt\<close>

lemma deliver_key_ok:
  assumes st: "stdin_pipe s (sc_fg (os_sched s)) rd wr p" and ops: "pipe_ops e rd wr"
    and rb: "rb_placed (os_mem s) p" and room: "length (queued (os_mem s) p) < unat (ld32 (os_mem s) (p + 8))"
  obtains m where "deliver_key e buffer s = Inr (s\<lparr>os_mem := m\<rparr>)" and "ring_step (os_mem s) p m"
    and "queued m p = queued (os_mem s) p @ [os_mem s buffer]"
proof -
  obtain task fd dd node f where 1: "sc_fg (os_sched s) \<noteq> 0" "wr \<noteq> 0" "sc_store (os_sched s) (sc_fg (os_sched s)) = Some task"
      "list_get (t_fds task) 0 = Inr (Some fd)" "fd_to_node (os_files s) fd = Inr node"
      "node_file (os_vfs s) node = Inr f" "vf_write f = wr" "vf_inode f = p"
    using st by (auto simp: stdin_pipe_def)
  obtain m where m: "rbm_vfs_write (os_mem s) f 0 1 buffer = Inr (1, m)" "ring_step (os_mem s) (vf_inode f) m"
      "queued m (vf_inode f) = queued (os_mem s) (vf_inode f) @ bytes (os_mem s) buffer (unat 1)"
    by (rule rbm_vfs_write_ok [of "os_mem s" f 1 0 buffer]) (use rb room 1(8) in simp_all)
  have "deliver_key e buffer s = Inr (s\<lparr>os_mem := m\<rparr>)"
    using 1 m(1) ops by (simp add: deliver_key_def mt_get_fg_task_def pipe_ops_def Let_def)
  from that [OF this] m(2,3) 1(8) show thesis by simp
qed

text \<open>An interrupt adds the character of a pressed key to the pipe, and changes nothing else of the kernel.\<close>

lemma kbd_event_ok:
  assumes st: "stdin_pipe s (sc_fg (os_sched s)) rd wr p" and ops: "pipe_ops e rd wr"
    and rb: "rb_placed (os_mem s) p"
    and room: "length (queued (os_mem s) p) + length (typed (os_mem s) (kb_layout kb) [fst (io_inb P 0x60 d)]) \<le> unat (ld32 (os_mem s) (p + 8))"
    and kb: "length (kb_states kb) = 128"
  obtains kb' m where "kbd_event P e kb s d = Inr (kb', s\<lparr>os_mem := m\<rparr>, snd (io_inb P 0x60 d))"
    and "kb_layout kb' = kb_layout kb" and "length (kb_states kb') = 128" and "ring_step (os_mem s) p m"
    and "queued m p = queued (os_mem s) p @ typed (os_mem s) (kb_layout kb) [fst (io_inb P 0x60 d)]"
proof -
  obtain k d' where d: "io_inb P 0x60 d = (k, d')" by fastforce
  have lt: "unat (k AND 0xF) < 128"
  proof -
    have "k AND 0xF = take_bit 4 k" by (simp add: take_bit_eq_mask mask_eq_exp_minus_1)
    then have "unat (k AND 0xF) = take_bit 4 (unat k)" by (simp add: unsigned_take_bit_eq)
    then show ?thesis using take_bit_nat_less_exp [of 4 "unat k"] by simp
  qed
  define kb1 where "kb1 = kb\<lparr>kb_states := (kb_states kb)[unat (k AND 0xF) := (if k AND 0x80 = 0 then 1 else 0)]\<rparr>"
  show thesis
  proof (cases "k AND 0x80 = 0")
    case True
    obtain m where m: "deliver_key e (kb_layout kb + ucast k) s = Inr (s\<lparr>os_mem := m\<rparr>)" "ring_step (os_mem s) p m"
        "queued m p = queued (os_mem s) p @ [os_mem s (kb_layout kb + ucast k)]"
      by (rule deliver_key_ok [OF st ops rb, where buffer = "kb_layout kb + ucast k"]) (use room d True in \<open>simp_all add: typed_def\<close>)
    show thesis
      by (rule that [of "kb1\<lparr>kb_last := k\<rparr>" m]) (use lt kb d True m in \<open>simp_all add: kbd_event_def kb1_def typed_def Let_def\<close>)
  next
    case False
    show thesis
      by (rule that [of kb1 "os_mem s"])
        (use lt kb d False ring_step_refl [OF rb] in \<open>simp_all add: kbd_event_def kb1_def typed_def Let_def\<close>)
  qed
qed

section \<open>Many interrupts, one read\<close>

text \<open>The layout lies apart from the ring.\<close>

definition layout_apart :: "mem \<Rightarrow> u32 \<Rightarrow> u32 \<Rightarrow> bool" where
  "layout_apart m p layout \<longleftrightarrow> (\<forall>k :: u8. \<not> in_ring m p (layout + ucast k))"

lemma typed_step:
  assumes "ring_step m p m'" and "layout_apart m p layout"
  shows "typed m' layout ks = typed m layout ks" and "layout_apart m' p layout"
  using assms ring_stepD(2,4) [OF assms(1)] by (auto simp: typed_def layout_apart_def)

lemma typed_Cons: "typed m layout (k # ks) = typed m layout [k] @ typed m layout ks"
  by (simp add: typed_def)

lemma kbd_events_ok:
  assumes "stdin_pipe s (sc_fg (os_sched s)) rd wr p" and "pipe_ops e rd wr" and "rb_placed (os_mem s) p"
    and "layout_apart (os_mem s) p (kb_layout kb)" and "length (kb_states kb) = 128" and "feeds P d ks"
    and "length (queued (os_mem s) p) + length (typed (os_mem s) (kb_layout kb) ks) \<le> unat (ld32 (os_mem s) (p + 8))"
  shows "\<exists>kb' m d'. kbd_events P e kb s d (length ks) = Inr (kb', s\<lparr>os_mem := m\<rparr>, d') \<and> ring_step (os_mem s) p m \<and>
    queued m p = queued (os_mem s) p @ typed (os_mem s) (kb_layout kb) ks"
  using assms
proof (induction ks arbitrary: kb s d)
  case Nil
  then show ?case by (auto simp: typed_def intro: ring_step_refl intro!: exI [of _ "os_mem s"])
next
  case (Cons k ks)
  let ?m = "os_mem s" and ?l = "kb_layout kb"
  have k: "fst (io_inb P 0x60 d) = k" using Cons.prems(6) by simp
  have room1: "length (queued ?m p) + length (typed ?m ?l [fst (io_inb P 0x60 d)]) \<le> unat (ld32 ?m (p + 8))"
    using Cons.prems(7) unfolding k typed_Cons [of ?m ?l k ks] by simp
  obtain kb1 m1 where 1: "kbd_event P e kb s d = Inr (kb1, s\<lparr>os_mem := m1\<rparr>, snd (io_inb P 0x60 d))"
      "kb_layout kb1 = ?l" "length (kb_states kb1) = 128" "ring_step ?m p m1"
      "queued m1 p = queued ?m p @ typed ?m ?l [fst (io_inb P 0x60 d)]"
    by (rule kbd_event_ok [OF Cons.prems(1,2,3) room1 Cons.prems(5)])
  note step = ring_stepD [OF 1(4)] typed_step [OF 1(4) Cons.prems(4)]
  have st1: "stdin_pipe (s\<lparr>os_mem := m1\<rparr>) (sc_fg (os_sched (s\<lparr>os_mem := m1\<rparr>))) rd wr p"
    using Cons.prems(1) by (simp add: stdin_pipe_def)
  have "\<exists>kb' m d'. kbd_events P e kb1 (s\<lparr>os_mem := m1\<rparr>) (snd (io_inb P 0x60 d)) (length ks) = Inr (kb', s\<lparr>os_mem := m1, os_mem := m\<rparr>, d') \<and>
      ring_step (os_mem (s\<lparr>os_mem := m1\<rparr>)) p m \<and> queued m p = queued (os_mem (s\<lparr>os_mem := m1\<rparr>)) p @
        typed (os_mem (s\<lparr>os_mem := m1\<rparr>)) (kb_layout kb1) ks"
    using Cons.prems(2,6,7) 1(2,3,5) step typed_Cons [of ?m ?l k ks] k by (intro Cons.IH [OF st1]) auto
  then obtain kb' m d' where "kbd_events P e kb1 (s\<lparr>os_mem := m1\<rparr>) (snd (io_inb P 0x60 d)) (length ks) = Inr (kb', s\<lparr>os_mem := m\<rparr>, d')"
      "ring_step m1 p m" "queued m p = queued m1 p @ typed m1 ?l ks"
    using 1(2) by auto
  then show ?case
    using 1(1,4,5) step(5) k typed_Cons [of ?m ?l k ks] ring_step_trans by (auto simp del: io_inb_def)
qed

lemma fd_to_node_list [simp]: "fd_to_node (fs\<lparr>fs_list := l, fs_pid := q\<rparr>) fd = fd_to_node fs fd"
  by (simp add: fd_to_node_def)

text \<open>
  C39. What is typed is what is read: after any sequence of keyboard interrupts that the pipe has room for, the
  foreground task that reads descriptor 0 gets the characters that were waiting, followed by the character of each
  key pressed, in the order of the keys.
\<close>

theorem typed_keys_read:
  assumes r: "rg_eax r = 3" "rg_ebx r = 0" and cur: "sc_cur (os_sched s) = sc_fg (os_sched s)"
    and st: "stdin_pipe s (sc_fg (os_sched s)) rd wr p" "pipe_ops e rd wr"
    and rb: "rb_placed (os_mem s) p" "layout_apart (os_mem s) p (kb_layout kb)"
    and kb: "length (kb_states kb) = 128" "feeds P d ks"
    and n: "unat (rg_edx r) = length (queued (os_mem s) p) + length (typed (os_mem s) (kb_layout kb) ks)"
      "unat (rg_edx r) \<le> unat (ld32 (os_mem s) (p + 8))"
  shows "\<exists>kb' s1 d' s2. kbd_events P e kb s d (length ks) = Inr (kb', s1, d') \<and>
    syscall_handler e r s1 = Inr (Some (r\<lparr>rg_eax := rg_edx r\<rparr>), s2) \<and>
    bytes (os_mem s2) (rg_ecx r) (unat (rg_edx r)) = queued (os_mem s) p @ typed (os_mem s) (kb_layout kb) ks"
proof -
  let ?t = "sc_fg (os_sched s)" and ?keys = "queued (os_mem s) p @ typed (os_mem s) (kb_layout kb) ks"
  obtain kb' m d' where ev: "kbd_events P e kb s d (length ks) = Inr (kb', s\<lparr>os_mem := m\<rparr>, d')"
      "ring_step (os_mem s) p m" "queued m p = ?keys"
    using kbd_events_ok [OF st rb kb] n by auto
  obtain task fd dd node f where 1: "?t \<noteq> 0" "rd \<noteq> 0" "sc_store (os_sched s) ?t = Some task"
      "list_get (t_fds task) 0 = Inr (Some fd)" "fd \<noteq> 0" "fs_fds (os_files s) fd = Some dd" "fd_read dd \<noteq> 0"
      "fd_to_node (os_files s) fd = Inr node" "node_file (os_vfs s) node = Inr f" "vf_read f = rd" "vf_inode f = p"
    using st(1) by (auto simp: stdin_pipe_def)
  have len: "length ?keys = unat (rg_edx r)" using n(1) by simp
  obtain m' m'' where rd: "rbm_vfs_read m f (fd_offset dd) (rg_edx r) (rg_ecx r) = Inr (rg_edx r, m'')"
      "m'' = write_all m' (rg_ecx r) ?keys"
    by (rule rbm_vfs_read_ok [of m f "rg_edx r" "fd_offset dd" "rg_ecx r"])
      (use ring_stepD [OF ev(2)] ev(3) len 1(11) in auto)
  let ?s1 = "s\<lparr>os_mem := m\<rparr>"
  have cur1: "cur_task ?s1 = Inr task" using 1(1,3) cur by (simp add: cur_task_def mt_get_current_task_def)
  let ?fs = "(os_files s)\<lparr>fs_list := t_fds task, fs_pid := t_pid task\<rparr>"
  have fr: "file_read (ke_read e (rg_ecx r) m) m (os_vfs s) ?fs 0 (rg_edx r) = Inr ((rg_edx r, m''), ?fs)"
    using 1 rd(1) st(2) by (simp add: file_read_def Let_def vfs_read_def pipe_ops_def)
  obtain s2 where s2: "upd_cur ?s1 (\<lambda>x. x\<lparr>t_fds := t_fds task\<rparr>) = Inr s2"
    using upd_cur_ok [OF cur1] by blast
  let ?s2 = "s2\<lparr>os_files := ?fs, os_mem := m''\<rparr>"
  have "syscall_handler e r ?s1 = Inr (Some (r\<lparr>rg_eax := rg_edx r\<rparr>), ?s2)"
    using r cur1 fr s2 by (cases r) (simp add: handler_defs sys_read_def with_files_def)
  moreover have "bytes (os_mem ?s2) (rg_ecx r) (unat (rg_edx r)) = ?keys"
    using bytes_write_all [of ?keys m' "rg_ecx r"] unat_u32_less [of "rg_edx r"] by (simp add: rd(2) len [symmetric])
  ultimately show ?thesis using ev(1) by blast
qed

text \<open>
  A ring of 16 bytes at 0x3000 with its bytes at 0x3100, the layout at 0x4000; the shell of \<open>Syscall\<close> is in the
  foreground with the ring as its descriptor 0; the keys h, release of h, i.
\<close>

definition input_mem :: mem where
  "input_mem = (\<lambda>a. if a = 0x3001 then 0x31 else if a = 0x3008 then 16
     else if in_region 0x4000 128 a then kbd_layout_us ! unat (a - 0x4000) else 0)"

definition input_os :: os where
  "input_os = demo_os\<lparr>os_mem := input_mem,
     os_vfs := demo_file_vfs\<lparr>vs_nodes := [1 \<mapsto> (demo_vnode ''stdin'' 0 0 0)\<lparr>vn_file := 144\<rparr>],
       vs_files := [144 \<mapsto> demo_file\<lparr>vf_read := 7, vf_write := 8, vf_inode := 0x3000\<rparr>]\<rparr>,
     os_sched := (os_sched demo_os)\<lparr>sc_fg := 0x700,
       sc_store := [0x700 \<mapsto> demo_task\<lparr>t_fds := \<lparr>dl_data = [64, 0], dl_used = 1, dl_size = 2\<rparr>\<rparr>]\<rparr>\<rparr>"

definition input_env :: kenv where
  "input_env = demo_kenv\<lparr>ke_read := (\<lambda>b m a f off n. if a = 7 then rbm_vfs_read m f off n b else Inl Wild_access),
     ke_write := (\<lambda>b m a f off n. if a = 8 then rbm_vfs_write m f off n b else Inl Wild_access)\<rparr>"

definition input_ports :: "u8 list ports" where
  "input_ports = \<lparr>pt_inb = (\<lambda>_ d. (hd d, tl d)), pt_outb = (\<lambda>_ _ d. d), pt_inw = (\<lambda>_ d. (0, d)),
     pt_outw = (\<lambda>_ _ d. d), pt_inl = (\<lambda>_ d. (0, d)), pt_outl = (\<lambda>_ _ d. d)\<rparr>"

definition input_kbd :: kbd where
  "input_kbd = kbd_start \<lparr>ly_us = 0x4000, ly_us_cap = 0, ly_fr = 0, ly_fr_cap = 0\<rparr>"

lemma input_stdin: "stdin_pipe input_os 0x700 7 8 0x3000"
  unfolding stdin_pipe_def
  by (simp add: input_os_def demo_os_def demo_fds_def list_get_def fd_to_node_def list_deref_def node_file_def demo_vnode_def
    demo_file_def demo_file_vfs_def)

lemma input_ring: "ld32 input_mem 0x3000 = 0x3100" "ld32 input_mem 0x3008 = 16" "ld32 input_mem 0x300C = 0"
    "input_mem 0x3004 = 0" "input_mem 0x3005 = 0"
  by (simp_all add: ld32_def input_mem_def in_region_def)

lemma input_placed: "rb_placed input_mem 0x3000" and input_empty: "queued input_mem 0x3000 = []"
  by (simp_all add: rb_placed_def rb_inv_def rb_at_def input_ring queued_def rb_contents_def apart_intervalI)

lemma input_layout: "layout_apart input_mem 0x3000 0x4000"
proof -
  have "unat (c + ucast k :: u32) = unat c + unat k" if "unat c < 0x10000" for k :: u8 and c :: u32
  proof -
    have k: "unat (ucast k :: u32) = unat k" "unat k < 256"
      using unsigned_less [of k, where 'a = nat] by (simp_all add: unsigned_ucast_eq take_bit_nat_eq_self)
    have "c + ucast k = c + (of_nat (unat k) :: u32)" by simp
    then show ?thesis using that k unat_add_of_nat [of c "unat k"] by simp
  qed
  note add = this
  have "unat (0x1000 + ucast k :: u32) = 0x1000 + unat k" and "unat (0xF00 + ucast k :: u32) = 0xF00 + unat k" for k :: u8
    using add [of "0x1000" k] add [of "0xF00" k] by simp_all
  then show ?thesis by (simp add: layout_apart_def in_ring_def in_region_def input_ring)
qed

lemma input_typed: "typed input_mem 0x4000 [0x23, 0xA3, 0x17] = map of_char ''hi''"
proof -
  have "kbd_layout_us ! 35 = of_char CHR ''h''" and "kbd_layout_us ! 23 = of_char CHR ''i''" by code_simp+
  then show ?thesis by (simp add: typed_def input_mem_def in_region_def)
qed

theorem typed_keys_read_witness:
  "\<exists>kb' s1 d' s2. kbd_events input_ports input_env input_kbd input_os [0x23, 0xA3, 0x17] 3 = Inr (kb', s1, d') \<and>
    syscall_handler input_env (demo_regs 3 0 0x5000 2) s1 = Inr (Some ((demo_regs 3 0 0x5000 2)\<lparr>rg_eax := 2\<rparr>), s2) \<and>
    bytes (os_mem s2) 0x5000 2 = map of_char ''hi''"
proof -
  have l: "kb_layout input_kbd = 0x4000" "length (kb_states input_kbd) = 128" by (simp_all add: input_kbd_def kbd_start_def)
  have o: "os_mem input_os = input_mem" "sc_fg (os_sched input_os) = 0x700" "sc_cur (os_sched input_os) = 0x700"
    by (simp_all add: input_os_def demo_os_def)
  have r: "rg_eax (demo_regs 3 0 0x5000 2) = 3" "rg_ebx (demo_regs 3 0 0x5000 2) = 0"
      "rg_ecx (demo_regs 3 0 0x5000 2) = 0x5000" "rg_edx (demo_regs 3 0 0x5000 2) = 2"
    by (simp_all add: demo_regs_def)
  have f: "feeds input_ports [0x23, 0xA3, 0x17] [0x23, 0xA3, 0x17]" by (simp add: input_ports_def io_inb_def)
  have e: "pipe_ops input_env 7 8" by (simp add: pipe_ops_def input_env_def)
  show ?thesis
    using typed_keys_read [where r = "demo_regs 3 0 0x5000 2" and s = input_os and rd = 7 and wr = 8 and p = "0x3000"
      and e = input_env and kb = input_kbd and P = input_ports and d = "[0x23, 0xA3, 0x17]" and ks = "[0x23, 0xA3, 0x17]", OF r(1,2)]
    unfolding o r l
    using input_stdin e input_placed input_layout f by (simp add: input_ring input_empty input_typed numeral_3_eq_3)
qed

end
