(* ===== verification/Reports.thy ===== *)
theory Reports
  imports Stdio Ata Ext2 Data_Bst Scheduler File_Descr Ps2
begin

text \<open>
  The reports that the kernel prints about its state: the tree of nodes, search trees, the lists of tasks,
  partition tables, drives, errors of drives, PS/2 devices and page faults. They read the state of their component and write to
  the current terminal; the tree is shown to be printed completely, in preorder.
\<close>

abbreviation (input) NL :: string where "NL \<equiv> [CHR 0x0A]"
abbreviation (input) TAB :: string where "TAB \<equiv> [CHR 0x09]"

section \<open>The tree of nodes\<close>

text \<open>Directories, mount points and files have their colours.\<close>

definition node_color :: "vfs \<Rightarrow> u32 \<Rightarrow> u32 res" where
  "node_color s p =
     rbind (vfs_is_dir s p) (\<lambda>dir. if dir then Inr NICE_YELLOW
       else rbind (vfs_is_mtpt s p) (\<lambda>mtpt. Inr (if mtpt then NICE_RED else NICE_WHITE)))"

fun print_times :: "'f dbl \<Rightarrow> 's console \<Rightarrow> string \<Rightarrow> nat \<Rightarrow> 's \<Rightarrow> 's res" where
  "print_times D T str 0 s = Inr s"
| "print_times D T str (Suc n) s = rbind (printk D T str [] s) (print_times D T str n)"

definition show_line :: "'f dbl \<Rightarrow> 's console \<Rightarrow> vfs \<Rightarrow> u32 \<Rightarrow> string \<Rightarrow> u32 \<Rightarrow> 's \<Rightarrow> 's res" where
  "show_line D T v root name level s =
     rbind (term_use_color T NICE_WHITE s) (\<lambda>s1.
     rbind (print_times D T ''|  '' (unat level) s1) (\<lambda>s2.
     rbind (node_color v root) (\<lambda>c.
     rbind (term_use_color T c s2) (\<lambda>s3.
     rbind (printk D T (''+- %s'' @ NL) [Str_arg (lit name)] s3) (\<lambda>s4.
     term_use_color T NICE_WHITE s4)))))"

text \<open>The procedure and its loop over the children call each other.\<close>

datatype show_call = Show_node u32 u32 | Show_children u32 u32

partial_function (option) show_run :: "'f dbl \<Rightarrow> 's console \<Rightarrow> vfs \<Rightarrow> show_call \<Rightarrow> 's \<Rightarrow> 's res option" where
  "show_run D T v c s = (case c of
     Show_node root level \<Rightarrow>
       (case deref (vs_nodes v) root of Inl e \<Rightarrow> Some (Inl e) | Inr n \<Rightarrow>
          if vn_name n = ''.'' \<or> vn_name n = ''..'' then Some (Inr s)
          else (case show_line D T v root (vn_name n) level s of Inl e \<Rightarrow> Some (Inl e)
            | Inr s1 \<Rightarrow> show_run D T v (Show_children (vn_childs n) (level + 1)) s1))
   | Show_children child level \<Rightarrow>
       (if child = 0 then Some (Inr s)
        else Option.bind (show_run D T v (Show_node child level) s) (\<lambda>r.
          case r of Inl e \<Rightarrow> Some (Inl e) | Inr s1 \<Rightarrow>
            (case deref (vs_nodes v) child of Inl e \<Rightarrow> Some (Inl e)
             | Inr n \<Rightarrow> show_run D T v (Show_children (vn_next n) level) s1))))"

definition vfs_show_tree :: "'f dbl \<Rightarrow> 's console \<Rightarrow> vfs \<Rightarrow> u32 \<Rightarrow> u32 \<Rightarrow> 's \<Rightarrow> 's res" where
  "vfs_show_tree D T v root level s = returned (show_run D T v (Show_node root level) s)"

section \<open>Search trees\<close>

text \<open>The keys are printed as numbers; the level is a signed number, and below 0 the bars are left out.\<close>

definition show_branch :: "'f dbl \<Rightarrow> 's console \<Rightarrow> string \<Rightarrow> u32 \<Rightarrow> 's \<Rightarrow> 's res" where
  "show_branch D T tag lvl s =
     rbind (print_times D T ''|   '' (nat (sint lvl)) s) (printk D T tag [])"

partial_function (option) bst_show_run :: "'f dbl \<Rightarrow> 's console \<Rightarrow> u32 bst_state \<Rightarrow> u32 \<Rightarrow> u32 \<Rightarrow> 's \<Rightarrow> 's res option" where
  "bst_show_run D T st root lvl s =
     (if root = 0 then Some (Inr s)
      else case deref (bs_nodes st) root of Inl e \<Rightarrow> Some (Inl e) | Inr n \<Rightarrow>
        (case printk D T (''%d'' @ NL) [Int_arg (bn_key n)] s of Inl e \<Rightarrow> Some (Inl e) | Inr s1 \<Rightarrow>
           Option.bind
             (if bn_right n \<noteq> 0
              then (case show_branch D T ''R-- '' lvl s1 of Inl e \<Rightarrow> Some (Inl e)
                    | Inr s2 \<Rightarrow> bst_show_run D T st (bn_right n) (lvl + 1) s2)
              else Some (Inr s1))
             (\<lambda>r. case r of Inl e \<Rightarrow> Some (Inl e) | Inr s3 \<Rightarrow>
                (if bn_left n \<noteq> 0
                 then (case show_branch D T ''L-- '' lvl s3 of Inl e \<Rightarrow> Some (Inl e)
                       | Inr s4 \<Rightarrow> bst_show_run D T st (bn_left n) (lvl + 1) s4)
                 else Some (Inr s3)))))"

definition BST_show :: "'f dbl \<Rightarrow> 's console \<Rightarrow> u32 bst_state \<Rightarrow> u32 \<Rightarrow> u32 \<Rightarrow> 's \<Rightarrow> 's res" where
  "BST_show D T st root lvl s = returned (bst_show_run D T st root lvl s)"

section \<open>Tasks\<close>

definition print_task_head :: "'f dbl \<Rightarrow> 's console \<Rightarrow> 's \<Rightarrow> 's res" where
  "print_task_head D T s =
     rbind (printk D T (NL @ '' PID | PPID '' @ TAB @ ''| name'') [] s)
       (printk D T (NL @ '' --- + -------- + ----'') [])"

partial_function (option) print_task_list ::
    "(task \<Rightarrow> 's \<Rightarrow> 's res) \<Rightarrow> (u32 \<Rightarrow> task option) \<Rightarrow> u32 \<Rightarrow> 's \<Rightarrow> 's res option" where
  "print_task_list f st t s =
     (if t = 0 then Some (Inr s)
      else case deref st t of Inl e \<Rightarrow> Some (Inl e)
        | Inr x \<Rightarrow> (case f x s of Inl e \<Rightarrow> Some (Inl e) | Inr s1 \<Rightarrow> print_task_list f st (t_next x) s1))"

definition mt_print_tasks :: "'f dbl \<Rightarrow> 's console \<Rightarrow> sched \<Rightarrow> 's \<Rightarrow> 's res" where
  "mt_print_tasks D T sc s =
     rbind (print_task_head D T s) (\<lambda>s1.
     returned (print_task_list (\<lambda>t. printk D T (NL @ '' %d '' @ TAB @ '' | %d '' @ TAB @ TAB @ ''| %s'' @ TAB)
       [Int_arg (t_pid t), Int_arg (t_ppid t), Str_arg (lit (t_name t))]) (sc_store sc) (sc_tasks sc) s1))"

definition mt_print_terminated_tasks :: "'f dbl \<Rightarrow> 's console \<Rightarrow> sched \<Rightarrow> 's \<Rightarrow> 's res" where
  "mt_print_terminated_tasks D T sc s =
     rbind (print_task_head D T s) (\<lambda>s1.
     returned (print_task_list (\<lambda>t. printk D T (NL @ '' %d '' @ TAB @ '' | %d '' @ TAB @ TAB @ ''| %s'' @ TAB @ TAB @ '' | %d'')
       [Int_arg (t_pid t), Int_arg (t_ppid t), Str_arg (lit (t_name t)), Int_arg (ucast (t_state t))])
       (sc_store sc) (sc_terminated sc) s1))"

section \<open>Disks\<close>

fun mbr_print_loop :: "'f dbl \<Rightarrow> 's console \<Rightarrow> partition_entry list \<Rightarrow> nat list \<Rightarrow> 's \<Rightarrow> 's res" where
  "mbr_print_loop D T mbr [] s = Inr s"
| "mbr_print_loop D T mbr (i # is) s =
     rbind (get_at mbr i) (\<lambda>p.
     rbind (printk D T (NL @ '' + Partition %d :'') [Int_arg (of_nat i)] s) (\<lambda>s1.
     rbind (printk D T (NL @ '' +--> Type           : %s'') [Str_arg (lit (partition_type_str (pe_type p)))] s1) (\<lambda>s2.
     rbind (printk D T (NL @ '' +--> Starting block : %d'') [Int_arg (pe_lba_start p)] s2) (\<lambda>s3.
     rbind (printk D T (NL @ '' +--> Sector count   : %d'') [Int_arg (pe_sector_count p)] s3) (\<lambda>s4.
     rbind (printk D T NL [] s4) (mbr_print_loop D T mbr is))))))"

definition mbr_print :: "'f dbl \<Rightarrow> 's console \<Rightarrow> partition_entry list \<Rightarrow> 's \<Rightarrow> 's res" where
  "mbr_print D T mbr s = mbr_print_loop D T mbr [0, 1, 2, 3] s"

definition ATA_ERR_in_english_please :: "int \<Rightarrow> string" where
  "ATA_ERR_in_english_please err =
     (if err = 0x80 then ''Bad block'' else if err = 0x40 then ''Uncorrectable data''
      else if err = 0x20 then ''Media changed'' else if err = 0x10 then ''ID mark not found''
      else if err = 0x08 then ''Media change request'' else if err = 0x04 then ''Command aborted''
      else if err = 0x02 then ''Track 0 not found'' else if err = 0x01 then ''Address mark not found''
      else ''<Unknown error>'')"

definition ATA_TYPE_in_english_please :: "int \<Rightarrow> string" where
  "ATA_TYPE_in_english_please type =
     (if type = 0x0000 then ''PATA'' else if type = 0xEB14 then ''PATAPI'' else if type = 0xC33C then ''SATA''
      else if type = 0x9669 then ''SATAPI'' else ''<Unknown type>'')"

text \<open>The report of an error on the screen: the whole of \<^verbatim>\<open>ATA_print_error\<close>.\<close>

definition ATA_report_error :: "'f dbl \<Rightarrow> 'd ports \<Rightarrow> 'd screen console \<Rightarrow> u16 \<Rightarrow> 'd screen \<Rightarrow> 'd screen res" where
  "ATA_report_error D P T base s =
     (let (err, d) = io_inb P (base + 1) (ATA_400_nano_sec P base (sn_dev s))
      in log_f D T ERROR ''ATA'' ''Error %d : %s''
           [Int_arg (ucast err), Str_arg (lit (ATA_ERR_in_english_please (uint err)))] (s\<lparr>sn_dev := d\<rparr>))"

text \<open>A string in an array: the bytes up to the terminator.\<close>

definition array_str :: "u8 list \<Rightarrow> u8 list res" where
  "array_str a = (if 0 \<in> set a then Inr (takeWhile (\<lambda>c. c \<noteq> 0) a) else Inl Wild_access)"

definition print_drive :: "'f dbl \<Rightarrow> 'd screen console \<Rightarrow> ata_drive list \<Rightarrow> nat \<Rightarrow> nat \<Rightarrow> 'd screen \<Rightarrow> 'd screen res" where
  "print_drive D T drives ps ms s =
     rbind (get_at drives (2 * ps + ms)) (\<lambda>drv.
     rbind (log_info D T NICE_WHITE ''ATA'' '' %s %s : ''
       [Str_arg (lit (if ps \<noteq> 0 then ''SECONDARY'' else ''PRIMARY'')), Str_arg (lit (if ms \<noteq> 0 then ''MASTER'' else ''SLAVE''))] s) (\<lambda>s1.
       if ad_present drv = 0 then printk D T (''NOT PRESENT'' @ NL) [] s1
       else
         rbind (array_str (ad_name drv)) (\<lambda>name.
         rbind (printk D T ''%s'' [Str_arg name] s1) (\<lambda>s2.
         rbind (printk D T (NL @ ''       type : %s'') [Str_arg (lit (ATA_TYPE_in_english_please (uint (ad_type drv))))] s2) (\<lambda>s3.
         rbind (printk D T (NL @ ''       sectors : %d'') [Int_arg (ad_sectors drv)] s3) (\<lambda>s4.
         printk D T NL [] s4))))))"

definition ATA_print_infos :: "'f dbl \<Rightarrow> 'd screen console \<Rightarrow> ata_drive list \<Rightarrow> 'd screen \<Rightarrow> 'd screen res" where
  "ATA_print_infos D T drives s =
     rbind (print_drive D T drives 0 0 s) (\<lambda>s1.
     rbind (print_drive D T drives 0 1 s1) (\<lambda>s2.
     rbind (print_drive D T drives 1 0 s2) (print_drive D T drives 1 1)))"

section \<open>PS/2 devices\<close>

definition ps2_device_names :: "string list" where
  "ps2_device_names = [''Unknown'', ''Ancient AT keyboard with translation enabled'', ''Standard PS/2 mouse'',
     ''Mouse with scroll wheel'', ''MF2 keyboard with translation enabled'', ''MF2 keyboard'', ''PS/2 Mouse'', ''PS/2 Keyboard'']"

definition ps2_device_name :: "u16 \<Rightarrow> string res" where
  "ps2_device_name w = get_at ps2_device_names (unat (ps2_device_id w))"

definition ps2_test_failed :: "'f dbl \<Rightarrow> 'd screen console \<Rightarrow> u8 \<Rightarrow> u8 \<Rightarrow> 'd screen \<Rightarrow> 'd screen res" where
  "ps2_test_failed D T p r s =
     (if r = 0x01 then log_f D T ERROR ''PS2'' ''Port %d clock is stuck on low'' [Int_arg (ucast p)] s
      else if r = 0x02 then log_f D T ERROR ''PS2'' ''Port %d clock is stuck on high'' [Int_arg (ucast p)] s
      else if r = 0x03 then log_f D T ERROR ''PS2'' ''Port %d data is stuck on low'' [Int_arg (ucast p)] s
      else if r = 0x04 then log_f D T ERROR ''PS2'' ''Port %d data is stuck on high'' [Int_arg (ucast p)] s
      else log_f D T ERROR ''PS2'' ''??'' [] s)"

section \<open>Page faults\<close>

definition yes_no :: "bool \<Rightarrow> u8 list" where
  "yes_no b = lit (if b then ''true'' else ''false'')"

text \<open>\<open>cr2\<close> is the register with the address that was accessed.\<close>

definition pg_page_fault :: "'f dbl \<Rightarrow> 's console \<Rightarrow> u32 \<Rightarrow> u32 \<Rightarrow> 's \<Rightarrow> 's res" where
  "pg_page_fault D T cr2 code s =
     (let present = (code AND 0x1 = 0); write = (code AND 0x2 \<noteq> 0); user = (code AND 0x4 \<noteq> 0);
          reserved = (code AND 0x8 \<noteq> 0); instr = (code AND 0x10 \<noteq> 0) in
      rbind (term_use_color T NICE_WHITE_0 s) (\<lambda>s1.
      rbind (printk D T (NL @ '' PAGE FAULT !'' @ NL) [] s1) (\<lambda>s2.
      rbind (printk D T '' at '' [] s2) (\<lambda>s3.
      rbind (term_print_hex T cr2 s3) (\<lambda>s4.
      rbind (printk D T (NL @ NL) [] s4) (\<lambda>s5.
      rbind (printk D T (TAB @ '' Present               : %s'' @ NL) [Str_arg (yes_no present)] s5) (\<lambda>s6.
      rbind (printk D T (TAB @ '' Write?                : %s'' @ NL) [Str_arg (yes_no write)] s6) (\<lambda>s7.
      rbind (printk D T (TAB @ '' User mode             : %s'' @ NL) [Str_arg (yes_no user)] s7) (\<lambda>s8.
      rbind (printk D T (TAB @ '' Reserved              : %s'' @ NL) [Str_arg (yes_no reserved)] s8) (\<lambda>s9.
      printk D T (TAB @ '' Instruction fetch ?   : %s'' @ NL) [Str_arg (yes_no instr)] s9))))))))))"

section \<open>The tree is printed completely\<close>

text \<open>What a report does to a terminal: a sequence of changes of the colour and of texts.\<close>

datatype out_op = Out_color u32 | Out_text "u8 list"

fun out_ops :: "'s console \<Rightarrow> out_op list \<Rightarrow> 's \<Rightarrow> 's res" where
  "out_ops T [] s = Inr s"
| "out_ops T (Out_color c # os) s = rbind (term_use_color T c s) (out_ops T os)"
| "out_ops T (Out_text xs # os) s = rbind (put_all (term_putchar T) xs s) (out_ops T os)"

lemma out_ops_fun:
  "out_ops T [] = Inr"
  "out_ops T (Out_color c # os) = (\<lambda>s. rbind (term_use_color T c s) (out_ops T os))"
  "out_ops T (Out_text xs # os) = (\<lambda>s. rbind (put_all (term_putchar T) xs s) (out_ops T os))"
  by (rule ext, simp)+

lemma out_ops_append: "out_ops T (xs @ ys) s = rbind (out_ops T xs s) (out_ops T ys)"
proof (induction xs arbitrary: s)
  case (Cons x xs)
  have "out_ops T (xs @ ys) = (\<lambda>s. rbind (out_ops T xs s) (out_ops T ys))" using Cons.IH by (rule ext)
  then show ?case by (cases x) (simp_all add: rbind_assoc)
qed simp

text \<open>A tree of names and types, how the store holds it, and its report.\<close>

datatype file_tree = File_tree string u8 "file_tree list"

inductive node_tree :: "vfs \<Rightarrow> u32 \<Rightarrow> file_tree \<Rightarrow> bool"
  and node_trees :: "vfs \<Rightarrow> u32 \<Rightarrow> file_tree list \<Rightarrow> bool" for v where
  node_tree_node: "deref (vs_nodes v) p = Inr n \<Longrightarrow> deref (vs_files v) (vn_file n) = Inr f \<Longrightarrow>
    vn_name n \<noteq> ''.'' \<Longrightarrow> vn_name n \<noteq> ''..'' \<Longrightarrow> node_trees v (vn_childs n) ts \<Longrightarrow>
    node_tree v p (File_tree (vn_name n) (vf_type f) ts)"
| node_trees_end: "node_trees v 0 []"
| node_trees_step: "p \<noteq> 0 \<Longrightarrow> deref (vs_nodes v) p = Inr n \<Longrightarrow> node_tree v p t \<Longrightarrow> node_trees v (vn_next n) ts \<Longrightarrow>
    node_trees v p (t # ts)"

definition type_color :: "u8 \<Rightarrow> u32" where
  "type_color type = (if type = VFS_DIR then NICE_YELLOW else if type = VFS_MTPT then NICE_RED else NICE_WHITE)"

definition tree_line :: "u32 \<Rightarrow> string \<Rightarrow> u8 \<Rightarrow> out_op list" where
  "tree_line level name type =
     [Out_color NICE_WHITE, Out_text (concat (replicate (unat level) (lit ''|  ''))), Out_color (type_color type),
      Out_text (lit ''+- '' @ lit name @ [10]), Out_color NICE_WHITE]"

fun tree_ops :: "u32 \<Rightarrow> file_tree \<Rightarrow> out_op list" where
  "tree_ops level (File_tree name type ts) = tree_line level name type @ concat (map (tree_ops (level + 1)) ts)"

lemma node_color_type:
  "deref (vs_nodes v) p = Inr n \<Longrightarrow> deref (vs_files v) (vn_file n) = Inr f \<Longrightarrow> node_color v p = Inr (type_color (vf_type f))"
  by (auto simp: node_color_def vfs_is_dir_def vfs_is_mtpt_def node_file_def type_color_def)

context char_console begin

lemma putchar_eq: "term_putchar T = putc"
  by (intro ext) (simp add: putchar_law)

lemma printk_out: "format_out (lit fmt) ap = Some out \<Longrightarrow> printk D T fmt ap s = put_all (term_putchar T) out s"
  by (simp add: printk_def v_printk_out putchar_eq)

lemma print_times_out:
  assumes "format_out (lit fmt) ([] :: 'f arg list) = Some out"
  shows "print_times (D :: 'f dbl) T fmt n s = put_all (term_putchar T) (concat (replicate n out)) s"
proof (induction n arbitrary: s)
  case (Suc n)
  have "print_times D T fmt n = put_all (term_putchar T) (concat (replicate n out))" using Suc.IH by (rule ext)
  then show ?case using printk_out [OF assms] by (simp add: put_all_append)
qed simp

lemma show_line_out:
  assumes "deref (vs_nodes v) p = Inr n" and "deref (vs_files v) (vn_file n) = Inr f"
  shows "show_line D T v p name level s = out_ops T (tree_line level name (vf_type f)) s"
proof -
  have bars: "print_times D T ''|  '' k x = put_all (term_putchar T) (concat (replicate k (lit ''|  ''))) x" for k x
    by (rule print_times_out) simp
  have name: "printk D T (''+- %s'' @ NL) [Str_arg (lit name)] x = put_all (term_putchar T) (lit ''+- '' @ lit name @ [10]) x" for x
    by (rule printk_out) (simp add: conversion_def arg_out_def)
  show ?thesis
    using assms by (simp add: show_line_def tree_line_def bars name node_color_type out_ops_fun rbind_return del: append.simps)
qed

lemma show_run_tree:
  "node_tree v p t \<Longrightarrow> show_run D T v (Show_node p level) s = Some (out_ops T (tree_ops level t) s)"
  "node_trees v p ts \<Longrightarrow> show_run D T v (Show_children p level) s = Some (out_ops T (concat (map (tree_ops level) ts)) s)"
proof (induction arbitrary: level s and level s rule: node_tree_node_trees.inducts)
  case (node_tree_node p n f ts)
  then show ?case
    by (subst show_run.simps) (simp add: show_line_out out_ops_append rbind_def split: sum.splits)
next
  case node_trees_end
  then show ?case by (subst show_run.simps) simp
next
  case (node_trees_step p n t ts)
  then show ?case
    by (subst show_run.simps) (simp add: out_ops_append rbind_def split: sum.splits)
qed

end

text \<open>
  C38. On whichever terminal was initialised, the report of a tree ends, and it is one line for each node, in
  preorder, behind as many bars as the node is deep and in the colour of its type.
\<close>

theorem vfs_show_tree_writes:
  assumes "term_init P mbi back type T0 s0 = Inr (0, T, s1)" and "node_tree v p t"
  shows "vfs_show_tree D T v p level s = out_ops T (tree_ops level t) s"
proof -
  consider "T = vga_console P" | "T = vesa_console"
    using assms(1) by (auto simp: term_init_def Let_def split: if_splits)
  then have "show_run D T v (Show_node p level) s = Some (out_ops T (tree_ops level t) s)"
  proof cases
    case 1
    then show ?thesis using vga.show_run_tree(1) [OF assms(2)] by simp
  next
    case 2
    then show ?thesis using vesa.show_run_tree(1) [OF assms(2)] by simp
  qed
  then show ?thesis by (simp add: vfs_show_tree_def)
qed

text \<open>The directory \<^verbatim>\<open>dev\<close> of the example tree, with the file in it.\<close>

definition demo_dirs :: vfs where
  "demo_dirs = demo_file_vfs\<lparr>vs_nodes := (vs_nodes demo_file_vfs)(32 \<mapsto> (demo_vnode ''dev'' 16 48 64)\<lparr>vn_file := 160\<rparr>),
     vs_files := (vs_files demo_file_vfs)(160 \<mapsto> demo_file\<lparr>vf_type := VFS_DIR\<rparr>)\<rparr>"

lemmas demo_dirs_defs = demo_dirs_def demo_file_vfs_def demo_vfs_def demo_vnode_def demo_file_def

lemma demo_dirs_tree: "node_tree demo_dirs 32 (File_tree ''dev'' VFS_DIR [File_tree ''con'' VFS_CDEV []])"
proof -
  have con: "node_tree demo_dirs 48 (File_tree ''con'' VFS_CDEV [])"
    using node_tree_node [where p = 48 and v = demo_dirs and ts = "[]" and n = "(demo_vnode ''con'' 32 0 0)\<lparr>vn_file := 144\<rparr>"
      and f = demo_file] node_trees_end [of demo_dirs]
    by (simp add: demo_dirs_defs)
  then have "node_trees demo_dirs 48 [File_tree ''con'' VFS_CDEV []]"
    using node_trees_step [where p = 48 and v = demo_dirs and ts = "[]" and n = "(demo_vnode ''con'' 32 0 0)\<lparr>vn_file := 144\<rparr>"]
      node_trees_end [of demo_dirs]
    by (simp add: demo_dirs_defs)
  then show ?thesis
    using node_tree_node [where p = 32 and v = demo_dirs and n = "(demo_vnode ''dev'' 16 48 64)\<lparr>vn_file := 160\<rparr>"
      and f = "demo_file\<lparr>vf_type := VFS_DIR\<rparr>"]
    by (simp add: demo_dirs_defs)
qed

theorem vfs_show_tree_writes_witness:
  "vfs_show_tree demo_dbl (vga_console demo_screen_ports) demo_dirs 32 0 demo_screen =
     out_ops (vga_console demo_screen_ports) (tree_ops 0 (File_tree ''dev'' VFS_DIR [File_tree ''con'' VFS_CDEV []])) demo_screen"
proof (rule vfs_show_tree_writes [OF _ demo_dirs_tree])
  show "term_init demo_screen_ports \<lparr>mi_addr = 0, mi_width = 0, mi_height = 0, mi_pitch = 0, mi_bpp = 0\<rparr> 0 0
      vesa_console demo_screen = Inr (0, vga_console demo_screen_ports, vga_term_init demo_screen_ports demo_screen)"
    by (simp add: term_init_def)
qed

text \<open>The number of a type of drive does not fit in the byte it is kept in: only the first is ever named.\<close>

lemma ata_type_names: "ATA_TYPE_in_english_please (uint (type :: u8)) \<in> {''PATA'', ''<Unknown type>''}"
proof -
  have "uint type < 256" using uint_lt2p [of type] by simp
  then show ?thesis by (auto simp: ATA_TYPE_in_english_please_def)
qed

text \<open>
  The tables of names and of drivers have an entry for every identification, and a device has a name other than
  unknown exactly if it has a driver.
\<close>

lemma ps2_tables_complete:
  "\<exists>name drv. ps2_device_name w = Inr name \<and> ps2_device_driver w = Inr drv \<and> (name = ''Unknown'' \<longleftrightarrow> drv = None)"
proof -
  have "ps2_device_id w \<in> {0, 1, 2, 3, 4, 5, 6, 7}" by (simp add: ps2_device_id_def Let_def)
  then show ?thesis
    by (auto simp: ps2_device_name_def ps2_device_names_def ps2_device_driver_def ps2_device_drivers_def)
qed

end
