(* ===== verification/Kernel.thy ===== *)
theory Kernel
  imports Reports Devices Interrupts Syscall Cpu_Tables Paging
begin

text \<open>
  \<^verbatim>\<open>kernel/kernel.c\<close>: the order in which the kernel is put together, the panic, and the command line. Its
  state is put together from the states of the components; what interrupts do while the code waits is an
  argument of the round in which it waits.
\<close>


section \<open>Panic\<close>

text \<open>The interrupts are disabled for good and the scheduler is stopped; the result is the state the machine halts in.\<close>

definition panic :: "'f dbl \<Rightarrow> 'd screen console \<Rightarrow> string \<Rightarrow> sched \<Rightarrow> 'd screen \<Rightarrow> (sched \<times> 'd screen) res" where
  "panic D T err_msg sc s =
     rbind (term_use_color T NICE_RED (s\<lparr>sn_if := False, sn_mt := False\<rparr>)) (\<lambda>s1.
     rbind (printk D T (NL @ '' KERNEL PANIC : %s'') [Str_arg (lit err_msg)] s1) (\<lambda>s2.
     Inr (mt_panic sc, s2)))"

section \<open>The command line\<close>

text \<open>
  What the commands are given: the terminal and the devices, the layouts, the reads of a drive, the version of
  the build, the addresses of the line, of a path and of a buffer from the heap, what lies on the stack behind
  the permissions of a file, and what the environment of \<open>Ext2\<close> and \<open>Syscall\<close> needs.
\<close>

record ('f, 'd) shell_env =
  se_env :: kenv
  se_ports :: "'d ports"
  se_term :: "'d screen console"
  se_dbl :: "'f dbl"
  se_layouts :: layouts
  se_rd :: "ata_drive \<Rightarrow> reader"
  se_rs :: "ata_drive \<Rightarrow> reader"
  se_dir :: dirstream
  se_fs :: u32
  se_ext2_read :: u32
  se_version :: "u8 list"
  se_cmd :: u32
  se_path :: u32
  se_buffer :: u32
  se_stack :: "u8 list"
  se_timer :: "nat \<Rightarrow> pit_infos \<Rightarrow> pit_infos"

record 'd shell =
  sh_os :: os
  sh_screen :: "'d screen"
  sh_kbd :: kbd
  sh_pit :: pit_infos
  sh_devices :: "pci_device list"
  sh_drives :: "ata_drive list"
  sh_cwd :: u32

definition on_screen :: "('d screen \<Rightarrow> 'd screen res) \<Rightarrow> 'd shell \<Rightarrow> 'd shell res" where
  "on_screen f k = rbind (f (sh_screen k)) (\<lambda>s. Inr (k\<lparr>sh_screen := s\<rparr>))"

definition color :: "('f, 'd) shell_env \<Rightarrow> u32 \<Rightarrow> 'd shell \<Rightarrow> 'd shell res" where
  "color E c = on_screen (term_use_color (se_term E) c)"

definition say :: "('f, 'd) shell_env \<Rightarrow> string \<Rightarrow> 'f arg list \<Rightarrow> 'd shell \<Rightarrow> 'd shell res" where
  "say E format args = on_screen (printk (se_dbl E) (se_term E) format args)"

abbreviation sh_vfs :: "'d shell \<Rightarrow> vfs" where
  "sh_vfs k \<equiv> os_vfs (sh_os k)"

abbreviation sh_sched :: "'d shell \<Rightarrow> sched" where
  "sh_sched k \<equiv> os_sched (sh_os k)"

text \<open>
  The words of the line. \<open>cut_line\<close> is what the first call of \<^verbatim>\<open>strtok\<close> leaves in the line: the blanks in front
  of the first word stay. A word that is missing is the null pointer.
\<close>

definition words_of :: "string \<Rightarrow> string list" where
  "words_of line = tokens '' '' line"

definition cut_line :: "string \<Rightarrow> string" where
  "cut_line line = takeWhile (\<lambda>c. c = CHR '' '') line @ takeWhile (\<lambda>c. c \<noteq> CHR '' '') (dropWhile (\<lambda>c. c = CHR '' '') line)"

definition word_at :: "string \<Rightarrow> nat \<Rightarrow> string res" where
  "word_at line i = (if i < length (words_of line) then Inr (words_of line ! i) else Inl Null_deref)"

definition number_at :: "string \<Rightarrow> nat \<Rightarrow> u32 res" where
  "number_at line i = rbind (word_at line i) (\<lambda>w.
     case atoi (line_mem (lit w)) 0x1000 of None \<Rightarrow> Inl Diverges | Some n \<Rightarrow> Inr n)"

subsection \<open>Directories\<close>

text \<open>The directory of the task follows: its path is stored and the system call is made on it.\<close>

definition params_ebx :: "u32 \<Rightarrow> syscall_params" where
  "params_ebx b = \<lparr>sp_eax = 0, sp_ebx = b, sp_ecx = 0, sp_edx = 0, sp_esi = 0, sp_edi = 0, sp_ebp = 0\<rparr>"

definition set_task_cwd :: "('f, 'd) shell_env \<Rightarrow> string \<Rightarrow> 'd shell \<Rightarrow> 'd shell res" where
  "set_task_cwd E path k =
     (let s = sh_os k in
      rbind (sys_setcwd (params_ebx (se_path E)) (s\<lparr>os_mem := write_all (os_mem s) (se_path E) (lit path @ [0])\<rparr>)) (\<lambda>(_, s1).
      Inr (k\<lparr>sh_os := s1\<rparr>)))"

definition path_of :: "'d shell \<Rightarrow> u32 \<Rightarrow> string res" where
  "path_of k node = rbind (vfs_abs_path_to (sh_vfs k) node) (\<lambda>p. case p of None \<Rightarrow> Inl Null_deref | Some path \<Rightarrow> Inr path)"

definition cmd_cd :: "('f, 'd) shell_env \<Rightarrow> string \<Rightarrow> 'd shell \<Rightarrow> 'd shell res" where
  "cmd_cd E line k =
     rbind (word_at line 1) (\<lambda>path.
     rbind (vfs_node_from_path (sh_vfs k) (sh_cwd k) path) (\<lambda>n.
     rbind
       (if n \<noteq> 0 then
          rbind (vfs_is_dir (sh_vfs k) n) (\<lambda>dir.
          rbind (if dir then Inr True else vfs_is_mtpt (sh_vfs k) n) (\<lambda>ok.
            if ok then Inr (k\<lparr>sh_cwd := n\<rparr>) else say E ''Not a directory'' [] k))
        else say E ''Not found'' [] k) (\<lambda>k1.
     rbind (path_of k1 (sh_cwd k1)) (\<lambda>cwd. set_task_cwd E cwd k1))))"

text \<open>A loop over the children of the current directory.\<close>

partial_function (option) child_loop ::
    "(u32 \<Rightarrow> vnode \<Rightarrow> 's \<Rightarrow> 's res) \<Rightarrow> (u32 \<Rightarrow> vnode option) \<Rightarrow> u32 \<Rightarrow> 's \<Rightarrow> 's res option" where
  "child_loop f ns p s =
     (if p = 0 then Some (Inr s)
      else case deref ns p of Inl e \<Rightarrow> Some (Inl e)
        | Inr n \<Rightarrow> (case f p n s of Inl e \<Rightarrow> Some (Inl e) | Inr s1 \<Rightarrow> child_loop f ns (vn_next n) s1))"

definition for_children :: "(u32 \<Rightarrow> vnode \<Rightarrow> 'd shell \<Rightarrow> 'd shell res) \<Rightarrow> 'd shell \<Rightarrow> 'd shell res" where
  "for_children f k =
     rbind (deref (vs_nodes (sh_vfs k)) (sh_cwd k)) (\<lambda>d. returned (child_loop f (vs_nodes (sh_vfs k)) (vn_childs d) k))"

definition cmd_ls :: "('f, 'd) shell_env \<Rightarrow> 'd shell \<Rightarrow> 'd shell res" where
  "cmd_ls E k =
     rbind (for_children (\<lambda>p n k1.
       rbind (node_color (sh_vfs k1) p) (\<lambda>c.
       rbind (color E c k1) (say E (''%s '' @ TAB) [Str_arg (lit (vn_name n))]))) k) (\<lambda>k2.
     rbind (say E NL [] k2) (color E NICE_WHITE))"

text \<open>The ten characters of the permissions have no terminator: what lies behind them is printed too.\<close>

definition cmd_ll :: "('f, 'd) shell_env \<Rightarrow> 'd shell \<Rightarrow> 'd shell res" where
  "cmd_ll E k =
     rbind (for_children (\<lambda>p n k1.
       rbind (node_file (sh_vfs k1) p) (\<lambda>f.
       rbind (say E (NL @ '' %s user group %dB '' @ TAB)
         [Str_arg (lit (vfs_drwxrwxrwx (vf_permissions f)) @ se_stack E), Int_arg (vf_size f)] k1) (\<lambda>k2.
       rbind (node_color (sh_vfs k2) p) (\<lambda>c.
       rbind (color E c k2) (\<lambda>k3.
       rbind (say E ''%s'' [Str_arg (lit (vn_name n))] k3) (color E NICE_WHITE)))))) k) (\<lambda>k4.
     rbind (say E NL [] k4) (color E NICE_WHITE))"

text \<open>The contents are read into a buffer that is cleared before and has one byte more.\<close>

definition cmd_cat :: "('f, 'd) shell_env \<Rightarrow> string \<Rightarrow> 'd shell \<Rightarrow> 'd shell res" where
  "cmd_cat E line k =
     rbind (word_at line 1) (\<lambda>name.
     rbind (vfs_get_child_by_name (sh_vfs k) (sh_cwd k) name) (\<lambda>node.
       if node = 0 then say E ''Not found'' [] k
       else
         rbind (node_file (sh_vfs k) node) (\<lambda>file.
         rbind (say E (NL @ ''Reading : %d Bytes '' @ NL @ ''---'' @ NL) [Int_arg (vf_size file)] k) (\<lambda>k1.
         let m = memset (os_mem (sh_os k1)) (se_buffer E) 0 (vf_size file + 1) in
         rbind (vfs_read (ke_read (se_env E) (se_buffer E) m) m file 0 (vf_size file)) (\<lambda>(r, m1).
         let k2 = k1\<lparr>sh_os := (sh_os k1)\<lparr>os_mem := m1\<rparr>\<rparr> in
           if r = 0 then Inr k2
           else (case bytes_at m1 (se_buffer E) of None \<Rightarrow> Inl Diverges
             | Some contents \<Rightarrow> say E ''%s'' [Str_arg contents] k2))))))"

subsection \<open>Tasks, time and the keyboard\<close>

definition cmd_term :: "string \<Rightarrow> 'd shell \<Rightarrow> 'd shell res" where
  "cmd_term line k =
     rbind (number_at line 1) (\<lambda>pid.
     rbind (mt_task_terminate_pid (sh_sched k) pid) (\<lambda>sc. Inr (k\<lparr>sh_os := (sh_os k)\<lparr>os_sched := sc\<rparr>\<rparr>)))"

text \<open>The task is not tested: the name of one that does not exist is read through the null pointer.\<close>

definition cmd_pid :: "('f, 'd) shell_env \<Rightarrow> string \<Rightarrow> 'd shell \<Rightarrow> 'd shell res" where
  "cmd_pid E line k =
     rbind (number_at line 1) (\<lambda>pid.
     rbind (mt_get_task_by_pid (sh_sched k) pid) (\<lambda>p.
     rbind (deref (sc_store (sh_sched k)) p) (\<lambda>t.
     say E (''PID %d : %s '' @ NL) [Int_arg pid, Str_arg (lit (t_name t))] k)))"

definition cmd_sleep :: "('f, 'd) shell_env \<Rightarrow> string \<Rightarrow> 'd shell \<Rightarrow> 'd shell res" where
  "cmd_sleep E line k =
     rbind (number_at line 1) (\<lambda>n.
     let s = ucast n :: u8 in
       case pit_sleep (se_timer E) (sh_pit k) (ucast s * 100) of None \<Rightarrow> Inl Diverges
       | Some pit \<Rightarrow> Inr (k\<lparr>sh_pit := pit\<rparr>))"

definition cmd_kbd :: "('f, 'd) shell_env \<Rightarrow> string \<Rightarrow> 'd shell \<Rightarrow> 'd shell res" where
  "cmd_kbd E line k =
     rbind (word_at line 1) (\<lambda>w.
       if w = ''fr'' \<or> w = ''en'' then
         say E ''Keyboard layout changed to : %s%s''
           [Str_arg (lit w), Str_arg (lit (if w = ''fr'' then NL @ ''Enjoy your baguette !'' @ NL else NL))]
           (k\<lparr>sh_kbd := snd (kbd_switch_layout (se_layouts E) (sh_kbd k) w)\<rparr>)
       else say E (''Invalid keyboard layout'' @ NL) [] k)"

text \<open>
  The controller is asked to reset the processor, then the code loops for ever: the result is the state the
  devices are in from then on.
\<close>

definition cmd_reboot :: "('f, 'd) shell_env \<Rightarrow> 'd shell \<Rightarrow> 'd option" where
  "cmd_reboot E k =
     Option.bind (in_until (se_ports E) 0x64 (\<lambda>TW. TW AND 0x02 = 0) (sn_dev (sh_screen k)))
       (\<lambda>d. Some (io_outb (se_ports E) 0x64 0xFE d))"

subsection \<open>Disks\<close>

text \<open>
  The first number is meant as the choice of master or slave and the second as the channel, but the lookup
  takes the channel first. \<open>put_drive\<close> stores the drive that the lookup with these numbers returns.
\<close>

definition bad_drive :: "u8 \<Rightarrow> u8 \<Rightarrow> bool" where
  "bad_drive ms ps \<longleftrightarrow> (ms \<noteq> 0 \<and> ms \<noteq> 1) \<or> (ps \<noteq> 0 \<and> ps \<noteq> 1)"

definition byte_at :: "string \<Rightarrow> nat \<Rightarrow> u8 res" where
  "byte_at line i = rbind (number_at line i) (\<lambda>n. Inr (ucast n))"

definition put_drive :: "'d shell \<Rightarrow> u8 \<Rightarrow> u8 \<Rightarrow> ata_drive \<Rightarrow> 'd shell" where
  "put_drive k ms ps drv = k\<lparr>sh_drives := (sh_drives k)[2 * unat ms + unat ps := drv]\<rparr>"

definition cmd_mbr :: "('f, 'd) shell_env \<Rightarrow> string \<Rightarrow> 'd shell \<Rightarrow> 'd shell res" where
  "cmd_mbr E line k =
     rbind (byte_at line 1) (\<lambda>ms.
     rbind (byte_at line 2) (\<lambda>ps.
       if bad_drive ms ps then say E (''Invalid drive'' @ NL) [] k
       else rbind (ATA_get_drive (sh_drives k) ms ps) (\<lambda>d. case d of
           None \<Rightarrow> say E (''Drive not found'' @ NL) [] k
         | Some drv \<Rightarrow> rbind (mbr_parse (se_rs E drv)) (\<lambda>mbr. on_screen (mbr_print (se_dbl E) (se_term E) mbr) k))))"

text \<open>A path that is missing is the null pointer.\<close>

definition mount_drive :: "('f, 'd) shell_env \<Rightarrow> string option \<Rightarrow> u8 \<Rightarrow> u8 \<Rightarrow> u8 \<Rightarrow> ata_drive \<Rightarrow> 'd shell \<Rightarrow> 'd shell res" where
  "mount_drive E path ms ps part drv k =
     rbind (vfs_mount_partition (se_dir E) (ke_node (se_env E)) (ke_file (se_env E)) (se_fs E) (se_ext2_read E)
         (se_rd E drv) (se_rs E drv) drv (sh_vfs k) part path (sh_cwd k)) (\<lambda>(err, drv1, v1).
     let k1 = put_drive k ms ps drv1; k2 = k1\<lparr>sh_os := (sh_os k1)\<lparr>os_vfs := v1\<rparr>\<rparr>;
         name = (case path of None \<Rightarrow> [] | Some x \<Rightarrow> lit x)
     in
       if err = 1 then say E (NL @ ''Unknown filesystem'') [] k2
       else if err = 2 then say E (NL @ ''%s not found'') [Str_arg name] k2
       else if err = 3 then say E (NL @ ''%s not empty'') [Str_arg name] k2
       else if err = 255 then
         rbind (get_at (ad_mtpts drv1) (unat part)) (\<lambda>mtpt.
         rbind (path_of k2 mtpt) (\<lambda>at. say E (NL @ ''Already mounted at %s'') [Str_arg (lit at)] k2))
       else Inr k2)"

definition cmd_mount :: "('f, 'd) shell_env \<Rightarrow> string \<Rightarrow> 'd shell \<Rightarrow> 'd shell res" where
  "cmd_mount E line k =
     rbind (byte_at line 1) (\<lambda>ms.
     rbind (byte_at line 2) (\<lambda>ps.
     rbind (byte_at line 3) (\<lambda>part.
       if bad_drive ms ps then say E (NL @ ''Invalid drive'' @ NL) [] k
       else if part > 3 then say E (NL @ ''Invalid partition number'' @ NL) [] k
       else rbind (ATA_get_drive (sh_drives k) ms ps) (\<lambda>d. case d of
           None \<Rightarrow> say E (NL @ ''Drive not found'' @ NL) [] k
         | Some drv \<Rightarrow>
             mount_drive E (if 4 < length (words_of line) then Some (words_of line ! 4) else None) ms ps part drv k))))"

definition cmd_umount :: "('f, 'd) shell_env \<Rightarrow> string \<Rightarrow> 'd shell \<Rightarrow> 'd shell res" where
  "cmd_umount E line k =
     rbind (byte_at line 1) (\<lambda>ms.
     rbind (byte_at line 2) (\<lambda>ps.
     rbind (byte_at line 3) (\<lambda>part.
       if bad_drive ms ps then say E (''Invalid drive'' @ NL) [] k
       else if part > 3 then say E (''Invalid partition number'' @ NL) [] k
       else rbind (ATA_get_drive (sh_drives k) ms ps) (\<lambda>d. case d of
           None \<Rightarrow> say E (''Drive not found'' @ NL) [] k
         | Some drv \<Rightarrow>
             rbind (vfs_umount_partition drv (sh_vfs k) part) (\<lambda>(err, drv1, v1).
             let k1 = put_drive k ms ps drv1; k2 = k1\<lparr>sh_os := (sh_os k1)\<lparr>os_vfs := v1\<rparr>\<rparr>
             in if err = 1 then say E ''Not mounted'' [] k2 else Inr k2)))))"

subsection \<open>Programs\<close>

text \<open>The new task is in the foreground until it is gone; \<open>ke_waits\<close> is what the interrupts do meanwhile.\<close>

definition cmd_run :: "('f, 'd) shell_env \<Rightarrow> string \<Rightarrow> 'd shell \<Rightarrow> 'd shell res" where
  "cmd_run E line k =
     (let name = cut_line line; s = sh_os k in
      rbind (vfs_node_from_path (os_vfs s) (sh_cwd k) name) (\<lambda>n.
        if n = 0 then say E (''Unknown command'' @ NL) [] k
        else
          rbind (path_of k n) (\<lambda>abs.
          rbind (cur_task s) (\<lambda>t.
          rbind (spawn_program (se_env E) s name (t_pid t) abs) (\<lambda>(pid, s1).
            if pid = 0 then say E (''Couldn'' @ [CHR 0x27] @ ''t spawn new task'' @ NL) [] (k\<lparr>sh_os := s1\<rparr>)
            else
              rbind (mt_get_task_by_pid (os_sched s1) pid) (\<lambda>p.
              rbind (wait_loop pid (s1\<lparr>os_sched := mt_set_fg_task (os_sched s1) p\<rparr>) (ke_waits (se_env E))) (\<lambda>s2.
              Inr (k\<lparr>sh_os := s2\<lparr>os_sched := mt_set_fg_task (os_sched s2) (mt_get_current_task (os_sched s2))\<rparr>\<rparr>))))))))"

subsection \<open>The loop\<close>

definition shell_words :: "('f, 'd) shell_env \<Rightarrow> string \<Rightarrow> 'd shell \<Rightarrow> 'd shell res" where
  "shell_words E line k =
     rbind (word_at line 0) (\<lambda>token.
     let cmd = cut_line line in
       if token = ''cd'' then cmd_cd E line k
       else if cmd = ''sleep'' then cmd_sleep E line k
       else if cmd = ''kbd'' then cmd_kbd E line k
       else if cmd = ''cat'' then cmd_cat E line k
       else if cmd = ''term'' then cmd_term line k
       else if cmd = ''pid'' then cmd_pid E line k
       else if cmd = ''tasks'' then on_screen (mt_print_tasks (se_dbl E) (se_term E) (sh_sched k)) k
       else if cmd = ''mbr'' then cmd_mbr E line k
       else if cmd = ''mount'' then cmd_mount E line k
       else if cmd = ''umount'' then cmd_umount E line k
       else cmd_run E line k)"

definition shell_command :: "('f, 'd) shell_env \<Rightarrow> string \<Rightarrow> 'd shell \<Rightarrow> 'd shell res" where
  "shell_command E cmd k =
     (if cmd = ''info'' then
        on_screen (term_print (se_term E) (lit ''Hydrangea kernel '' @ se_version E @ [10])) k
      else if cmd = ''clear'' then on_screen (term_clear (se_term E)) k
      else if cmd = ''help'' then say E (''Too lazy to write help, sorry'' @ NL) [] k
      else if cmd = ''reboot'' then (case cmd_reboot E k of None \<Rightarrow> Inl Diverges | Some d \<Rightarrow> Inl Diverges)
      else if cmd = ''datetime'' then on_screen (rtc_print_now (se_dbl E) (se_ports E) (se_term E)) k
      else if cmd = ''lspci'' then on_screen (PCI_list (se_dbl E) (se_term E) (sh_devices k)) k
      else if cmd = ''ls'' then cmd_ls E k
      else if cmd = ''ll'' then cmd_ll E k
      else if cmd = ''ki'' then on_screen (vfs_show_tree (se_dbl E) (se_term E) (sh_vfs k) (sh_cwd k) 0) k
      else if cmd = ''lsdrv'' then on_screen (ATA_print_infos (se_dbl E) (se_term E) (sh_drives k)) k
      else if cmd \<noteq> [] then shell_words E cmd k
      else Inr k)"

definition prompt :: "('f, 'd) shell_env \<Rightarrow> 'd shell \<Rightarrow> 'd shell res" where
  "prompt E k =
     rbind (color E NICE_CYAN_0 k) (\<lambda>k1.
     rbind (say E (NL @ ''Kernel '') [] k1) (\<lambda>k2.
     rbind (color E NICE_CYAN k2) (\<lambda>k3.
     rbind (path_of k3 (sh_cwd k3)) (\<lambda>path.
     rbind (say E ''%s'' [Str_arg (lit path)] k3) (\<lambda>k4.
     rbind (color E NICE_WHITE k4) (say E ''> '' []))))))"

text \<open>
  The line is read to the address of the array \<^verbatim>\<open>cmd\<close>, which has 100 bytes, while \<^verbatim>\<open>scank\<close> stores up to 255.
\<close>

definition read_command :: "('f, 'd) shell_env \<Rightarrow> (nat \<Rightarrow> kbd \<Rightarrow> kbd) \<Rightarrow> 'd shell \<Rightarrow> (string \<times> 'd shell) res" where
  "read_command E ev k =
     rbind (scank (se_term E) ev (lit ''%s'') [se_cmd E] 0 (os_mem (sh_os k)) (sh_kbd k) (sh_screen k)) (\<lambda>(m, kb, s).
     let k1 = k\<lparr>sh_os := (sh_os k)\<lparr>os_mem := m\<rparr>, sh_kbd := kb, sh_screen := s\<rparr> in
     rbind (str_arg (sh_os k1) (se_cmd E)) (\<lambda>cmd. if length cmd < 100 then Inr (cmd, k1) else Inl Wild_access))"

definition kshell_round :: "('f, 'd) shell_env \<Rightarrow> (nat \<Rightarrow> kbd \<Rightarrow> kbd) \<Rightarrow> 'd shell \<Rightarrow> 'd shell res" where
  "kshell_round E ev k =
     rbind (prompt E k) (\<lambda>k1. rbind (read_command E ev k1) (\<lambda>(cmd, k2). shell_command E cmd k2))"

text \<open>The loop never ends; this is its state after the rounds whose interrupts are given.\<close>

fun kshell_rounds :: "('f, 'd) shell_env \<Rightarrow> (nat \<Rightarrow> kbd \<Rightarrow> kbd) list \<Rightarrow> 'd shell \<Rightarrow> 'd shell res" where
  "kshell_rounds E [] k = Inr k"
| "kshell_rounds E (ev # evs) k = rbind (kshell_round E ev k) (kshell_rounds E evs)"

definition kshell :: "('f, 'd) shell_env \<Rightarrow> (nat \<Rightarrow> kbd \<Rightarrow> kbd) list \<Rightarrow> 'd shell \<Rightarrow> 'd shell res" where
  "kshell E evs k =
     rbind (vfs_node_from_path (sh_vfs k) (vfs_get_root (sh_vfs k)) ''/'') (\<lambda>cwd.
     rbind (set_task_cwd E ''/'' (k\<lparr>sh_cwd := cwd\<rparr>)) (kshell_rounds E evs))"

section \<open>What the commands do\<close>

text \<open>After a panic the scheduler leaves every task where it is.\<close>

lemma panic_no_switch:
  assumes "panic D T msg sc s = Inr (sc', s')"
  shows "mt_schedule sc' esp = Inr (esp, sc')"
  using assms by (auto simp: panic_def mt_panic_def mt_schedule_def mt_is_initialized_def)

text \<open>Before a terminal is chosen a panic prints nothing: both tests of the boot information are silent.\<close>

lemma panic_silent:
  assumes "tm_use_color T = None" and "tm_putchar T = None" and "tm_print T = None"
  shows "panic D T msg sc s = Inr (mt_panic sc, s\<lparr>sn_if := False, sn_mt := False\<rparr>)"
  using assms
  by (simp add: panic_def printk_def term_use_color_def term_putchar_def term_print_def print_arg_def conversion_def)

text \<open>A line of blanks is compared through a null pointer, and so is the name of a task that does not exist.\<close>

lemma shell_blank_line:
  assumes "line \<noteq> []" and "set line \<subseteq> {CHR '' ''}"
  shows "shell_command E line k = Inl Null_deref"
proof -
  have "dropWhile (\<lambda>x. x \<in> set '' '') line = []" using assms(2) by (auto simp: dropWhile_eq_Nil_conv)
  then have "words_of line = []" by (simp add: words_of_def tokens_Nil)
  moreover have "line = CHR '' '' # tl line" using assms by (cases line) auto
  then have "line \<noteq> x # xs" if "x \<noteq> CHR '' ''" for x xs using that by (metis list.inject)
  ultimately show ?thesis using assms(1) by (simp add: shell_command_def shell_words_def word_at_def)
qed

lemma cmd_pid_missing:
  assumes "number_at line 1 = Inr pid" and "mt_get_task_by_pid (sh_sched k) pid = Inr 0"
  shows "cmd_pid E line k = Inl Null_deref"
  using assms by (simp add: cmd_pid_def)

text \<open>Paths in memory.\<close>

lemma chars_lit [simp]: "chars (lit x) = x"
proof -
  have "char_of (unat (of_char c :: u8)) = c" for c
  proof -
    have "(of_char c :: u8) = of_nat (of_char c)" by (simp add: of_nat_of_char)
    then have "unat (of_char c :: u8) = of_char c"
      using nat_of_char_less_256 [of c] by (simp only: unat_of_nat) (simp add: take_bit_nat_eq_self)
    then show ?thesis by simp
  qed
  then show ?thesis by (simp add: chars_def o_def)
qed

lemma lit_no_zero: "CHR 0x00 \<notin> set x \<Longrightarrow> 0 \<notin> set (lit x :: u8 list)"
proof -
  have "CHR 0x00 \<in> set (chars (lit x))" if "0 \<in> set (lit x :: u8 list)"
  proof -
    have "char_of (unat (0 :: u8)) \<in> set (chars (lit x))" using that unfolding chars_def set_map by (rule imageI)
    then show ?thesis by (simp add: char_of_def)
  qed
  then show "CHR 0x00 \<notin> set x \<Longrightarrow> 0 \<notin> set (lit x :: u8 list)" by auto
qed

lemma cstr_write_all:
  assumes "p \<noteq> 0" and "0 \<notin> set bs" and "unat p + length bs + 1 < 2 ^ 32"
  shows "cstr (write_all m p (bs @ [0])) p bs"
  using assms
proof (induction bs arbitrary: p m)
  case (Cons b bs)
  have "unat (p + 1) = unat p + 1" using Cons.prems by (intro unat_Suc_less) simp
  then have "p + 1 \<noteq> 0" by (metis add_is_0 unat_0 zero_neq_one)
  moreover have "unat (- 1 :: u32) = 4294967295" by (simp add: unsigned_minus_1_eq_mask mask_eq_exp_minus_1)
  then have "write_all (m(p := b)) (p + 1) (bs @ [0]) p = b"
    using Cons.prems write_all_apply [of "bs @ [0]" "m(p := b)" "p + 1" p] unat_gt_0 [of p]
    by (simp add: in_region_def)
  ultimately show ?case using Cons \<open>unat (p + 1) = _\<close> by auto
qed simp

text \<open>
  C37. The command \<^verbatim>\<open>cd\<close> with a path to a directory of a well-formed tree moves the shell and its task to this
  directory. The task follows through the absolute path, which is written to memory, read by the system call
  and looked up again; nothing is printed and the tree stays as it is.
\<close>

theorem cmd_cd_moves_task:
  assumes tree: "vfs_wf (sh_vfs k)" "walk (sh_vfs k) (vs_root (sh_vfs k)) ns = Inr n" "n \<noteq> 0"
      "\<forall>x\<in>set ns. valid_name x"
    and line: "word_at line 1 = Inr path" "vfs_node_from_path (sh_vfs k) (sh_cwd k) path = Inr n"
      "vfs_is_dir (sh_vfs k) n = Inr True"
    and room: "se_path E \<noteq> 0" "unat (se_path E) + length (join ns) + 2 < 2 ^ 32" "CHR 0x00 \<notin> set (join ns)"
    and cur: "cur_task (sh_os k) = Inr t"
  shows "\<exists>k'. cmd_cd E line k = Inr k' \<and> sh_cwd k' = n \<and> cur_task (sh_os k') = Inr (t\<lparr>t_cwd := n\<rparr>) \<and>
    sh_screen k' = sh_screen k \<and> sh_vfs k' = sh_vfs k"
proof -
  define full where "full = CHR ''/'' # join ns"
  have up: "vfs_abs_path_to (sh_vfs k) n = Inr (Some full)" and down: "vfs_node_from_path (sh_vfs k) (t_cwd t) full = Inr n"
    unfolding full_def by (rule abs_path_to_walk [OF tree], rule node_from_joined [OF tree(2,4)])
  let ?s = "(sh_os k)\<lparr>os_mem := write_all (os_mem (sh_os k)) (se_path E) (lit full @ [0])\<rparr>"
  have "CHR 0x00 \<notin> set full" and "unat (se_path E) + length (lit full :: u8 list) + 1 < 2 ^ 32"
    using room(2,3) by (simp_all add: full_def)
  then have cs: "cstr (os_mem ?s) (se_path E) (lit full)"
    using cstr_write_all [OF room(1) lit_no_zero, of full] by simp
  have cur': "cur_task ?s = Inr t" using cur by (simp add: cur_task_def)
  obtain s1 where s1: "upd_cur ?s (\<lambda>x. x\<lparr>t_cwd := n\<rparr>) = Inr s1" using upd_cur_ok [OF cur'] by blast
  have "sys_setcwd (params_ebx (se_path E)) ?s = Inr (Some (params_ebx (se_path E)), s1)"
    using str_arg_ok [OF cs] cur' s1 down tree(3) by (simp add: sys_setcwd_def params_ebx_def)
  then show ?thesis
    using line up cur_task_upd [OF cur' s1] tree(3)
    by (simp add: cmd_cd_def path_of_def set_task_cwd_def Let_def)
qed

text \<open>The shell of the example task, whose tree has the directory \<^verbatim>\<open>/dev\<close>.\<close>

definition demo_shell_env :: "(unit, unit) shell_env" where
  "demo_shell_env = \<lparr>se_env = demo_kenv, se_ports = demo_screen_ports, se_term = vga_console demo_screen_ports,
     se_dbl = demo_dbl, se_layouts = \<lparr>ly_us = 0, ly_us_cap = 0, ly_fr = 0, ly_fr_cap = 0\<rparr>,
     se_rd = (\<lambda>_ _ _. Inl Wild_access), se_rs = (\<lambda>_ _ _. Inl Wild_access),
     se_dir = \<lparr>ds_inode_number = 0, ds_block = [], ds_bp_index = 0, ds_so_far = 0, ds_next = 0,
       ds_ent = \<lparr>de_inode_number = 0, de_size = 0, de_type = 0, de_permissions = 0, de_name = []\<rparr>\<rparr>,
     se_fs = 0, se_ext2_read = 0, se_version = [], se_cmd = 0x8000, se_path = 0x9000, se_buffer = 0xA000, se_stack = [],
     se_timer = (\<lambda>_ p. p)\<rparr>"

definition demo_shell :: "unit shell" where
  "demo_shell = \<lparr>sh_os = demo_os\<lparr>os_vfs := demo_dirs\<rparr>, sh_screen = demo_screen,
     sh_kbd = \<lparr>kb_layout = 0, kb_layout_cap = 0, kb_states = [], kb_last = 0\<rparr>,
     sh_pit = \<lparr>pi_timer_value = 0, pi_freq = 1000\<rparr>, sh_devices = [], sh_drives = [], sh_cwd = 16\<rparr>"

lemma demo_dirs_wf: "vfs_wf demo_dirs"
proof -
  have "vfs_wf demo_file_vfs"
    using vfs_wf_upd_file [OF demo_vfs_wf, of 48 "demo_vnode ''con'' 32 0 0" "[144 \<mapsto> demo_file]" 144]
    by (simp add: demo_file_vfs_def demo_node)
  then show ?thesis
    using vfs_wf_upd_file [of demo_file_vfs 32 "demo_vnode ''dev'' 16 48 64"
      "(vs_files demo_file_vfs)(160 \<mapsto> demo_file\<lparr>vf_type := VFS_DIR\<rparr>)" 160]
    by (simp add: demo_dirs_def demo_file_vfs_def demo_node)
qed

lemma demo_dirs_walk: "walk demo_dirs 16 [''dev''] = Inr 32"
  by (simp add: demo_dirs_defs vfs_get_child_by_name_def search_child.simps)

theorem cmd_cd_moves_task_witness:
  "\<exists>k'. cmd_cd demo_shell_env ''cd /dev'' demo_shell = Inr k' \<and> sh_cwd k' = 32 \<and>
    cur_task (sh_os k') = Inr (demo_task\<lparr>t_cwd := 32\<rparr>) \<and> sh_screen k' = sh_screen demo_shell \<and> sh_vfs k' = sh_vfs demo_shell"
proof (rule cmd_cd_moves_task [where ns = "[''dev'']" and path = "''/dev''"])
  have v: "sh_vfs demo_shell = demo_dirs" and c: "sh_cwd demo_shell = 16" and r: "vs_root demo_dirs = 16"
    by (simp_all add: demo_shell_def demo_dirs_defs)
  show "vfs_wf (sh_vfs demo_shell)" "walk (sh_vfs demo_shell) (vs_root (sh_vfs demo_shell)) [''dev''] = Inr 32"
    unfolding v r by (rule demo_dirs_wf, rule demo_dirs_walk)
  show "vfs_node_from_path (sh_vfs demo_shell) (sh_cwd demo_shell) ''/dev'' = Inr 32"
    using demo_dirs_walk unfolding v c by (simp add: vfs_node_from_path_def tokens.simps vfs_get_root_def r)
  show "vfs_is_dir (sh_vfs demo_shell) 32 = Inr True"
    unfolding v by (simp add: vfs_is_dir_def node_file_def demo_dirs_defs)
  show "cur_task (sh_os demo_shell) = Inr demo_task" using demo_cur by (simp add: demo_shell_def cur_task_def)
qed (simp_all add: word_at_def words_of_def tokens.simps valid_name_def demo_shell_env_def)

end
