(* ===== verification/Boot.thy ===== *)
theory Boot
  imports Kernel
begin

text \<open>
  \<^verbatim>\<open>kmain\<close> of \<^verbatim>\<open>kernel/kernel.c\<close>: the initialisations of all components in their order, on the state put
  together from theirs. The addresses that the linker and the heap give, and what fresh memory holds, are in
  the record \<open>boot_conf\<close>; interrupts are taken not to come between two steps.
\<close>

section \<open>State\<close>

record mbinfo =
  mb_flags :: u32
  mb_mmap_addr :: u32
  mb_mmap_length :: u32
  mb_mods_count :: u32
  mb_mods_addr :: u32
  mb_mode :: mode_info

record ('f, 'd) boot_conf =
  bc_dbl :: "'f dbl"
  bc_ports :: "'d ports"
  bc_sleep :: "u64 \<Rightarrow> 'd \<Rightarrow> 'd"
  bc_symbols :: symbols
  bc_end_of_kernel :: u32
  bc_placement :: u32
  bc_ker_dir :: u32
  bc_back_buffer :: u32
  bc_dev :: devfs_node
  bc_pci_head :: pci_device
  bc_env :: "nat \<Rightarrow> kenv"
  bc_con_write :: u32
  bc_serial_read :: u32
  bc_serial_write :: u32
  bc_initrd_read :: u32
  bc_pit_event :: u32
  bc_kbd_event :: u32
  bc_ker_idle :: u32
  bc_cleaner :: u32
  bc_kshell :: u32

record 'd machine =
  mc_tables :: tables
  mc_pg :: pg_state
  mc_heap :: heap
  mc_handlers :: "u32 list"
  mc_pit :: pit_infos
  mc_os :: os
  mc_screen :: "'d screen"
  mc_term :: "'d screen console"
  mc_pci :: pci_state
  mc_devfs :: u32
  mc_tmpfs :: u32

definition gnode :: "('f, 'd) boot_conf \<Rightarrow> vnode" where
  "gnode C = ke_node (bc_env C 0)"

definition gfile :: "('f, 'd) boot_conf \<Rightarrow> vfile" where
  "gfile C = ke_file (bc_env C 0)"

definition set_vfs :: "'d machine \<Rightarrow> vfs \<Rightarrow> 'd machine" where
  "set_vfs m v = m\<lparr>mc_os := (mc_os m)\<lparr>os_vfs := v\<rparr>\<rparr>"

definition set_dev :: "'d machine \<Rightarrow> 'd \<Rightarrow> 'd machine" where
  "set_dev m d = m\<lparr>mc_screen := (mc_screen m)\<lparr>sn_dev := d\<rparr>\<rparr>"

definition boot_screen :: "('d screen console \<Rightarrow> 'd screen \<Rightarrow> 'd screen res) \<Rightarrow> 'd machine \<Rightarrow> 'd machine res" where
  "boot_screen f m = rbind (f (mc_term m) (mc_screen m)) (\<lambda>s. Inr (m\<lparr>mc_screen := s\<rparr>))"

section \<open>The steps\<close>

definition check_multiboot_info :: "u32 \<Rightarrow> mbinfo \<Rightarrow> unit res" where
  "check_multiboot_info mb_magic mb =
     (if mb_magic \<noteq> 0x2BADB002 then Inl (Panic ''Invalid multiboot magic number !'')
      else if mb_flags mb AND 0x40 = 0 then Inl (Panic ''No multiboot memory map !'')
      else Inr ())"

text \<open>Segments, physical memory, interrupts, paging; then the graphic terminal, without which the kernel halts.\<close>

definition boot_memory :: "('f, 'd) boot_conf \<Rightarrow> mbinfo \<Rightarrow> 'd machine \<Rightarrow> 'd machine res" where
  "boot_memory C mb m =
     rbind (gdt_init (bc_symbols C) (mc_tables m)) (\<lambda>t1.
     rbind (pmm_init (os_mem (mc_os m)) (mb_mmap_addr mb) (mb_mmap_length mb) (bc_end_of_kernel C) (bc_placement C)) (\<lambda>pm.
     rbind (interrupts_init (bc_ports C) (bc_symbols C) t1 (sn_dev (mc_screen m))) (\<lambda>(t2, d).
     rbind (pg_init ((mc_pg m)\<lparr>pg_pmm := pm\<rparr>) (bc_ker_dir C) (term_get_type (mc_term m) = 1) (mi_addr (mb_mode mb))) (\<lambda>(hp, pg).
     Inr (m\<lparr>mc_tables := t2, mc_pg := pg, mc_heap := hp,
       mc_screen := (mc_screen m)\<lparr>sn_dev := d, sn_if := cp_if t2\<rparr>\<rparr>)))))"

definition boot_terminal :: "('f, 'd) boot_conf \<Rightarrow> mbinfo \<Rightarrow> 'd machine \<Rightarrow> 'd machine res" where
  "boot_terminal C mb m =
     rbind (term_init (bc_ports C) (mb_mode mb) (bc_back_buffer C) 1 (mc_term m) (mc_screen m)) (\<lambda>(r, T, s).
       if r \<noteq> 0 then Inl Diverges else Inr (m\<lparr>mc_term := T, mc_screen := s\<rparr>))"

definition boot_files :: "('f, 'd) boot_conf \<Rightarrow> 'd machine \<Rightarrow> 'd machine res" where
  "boot_files C m =
     rbind (vfs_dummy (gnode C) (gfile C) (os_vfs (mc_os m))) (\<lambda>v.
     rbind (devfs_init v (mc_devfs m) ''/dev'') (\<lambda>(_, dr).
     rbind (tmpfs_init v (mc_tmpfs m) ''/tmp'') (\<lambda>(_, tr).
     Inr ((set_vfs m v)\<lparr>mc_devfs := dr, mc_tmpfs := tr\<rparr>))))"

definition boot_messages :: "('f, 'd) boot_conf \<Rightarrow> 'd machine \<Rightarrow> 'd machine res" where
  "boot_messages C m =
     rbind (boot_screen (\<lambda>T. log_info (bc_dbl C) T NICE_CYAN ''INFO'' ''Kernel loaded !'' []) m)
       (boot_screen (\<lambda>T. log_info (bc_dbl C) T NICE_CYAN ''INFO'' (''Available memory : %d KiB'' @ NL)
          [Int_arg (pmm_available_memory (pg_pmm (mc_pg m)))]))"

text \<open>The serial lines, the console, the timer with 1000 ticks in a second, and the keyboard on the first port.\<close>

definition boot_serial :: "('f, 'd) boot_conf \<Rightarrow> u16 \<Rightarrow> 'd machine \<Rightarrow> 'd machine res" where
  "boot_serial C p m =
     rbind (serial_init (bc_ports C) (gnode C) (gfile C) (bc_dev C) (bc_serial_read C) (bc_serial_write C) (mc_devfs m) p
       (os_vfs (mc_os m)) (sn_dev (mc_screen m))) (\<lambda>(v, d). Inr (set_dev (set_vfs m v) d))"

definition boot_console :: "('f, 'd) boot_conf \<Rightarrow> 'd machine \<Rightarrow> 'd machine res" where
  "boot_console C m =
     rbind (console_init (gnode C) (gfile C) (bc_dev C) (bc_con_write C) (os_vfs (mc_os m)) (mc_devfs m)) (\<lambda>(_, v).
     Inr (set_vfs m v))"

definition boot_timer :: "('f, 'd) boot_conf \<Rightarrow> 'd machine \<Rightarrow> 'd machine res" where
  "boot_timer C m =
     (let pm = pg_pmm (mc_pg m) in
      rbind (pit_init (bc_ports C) (bc_pit_event C) (mc_handlers m) (pm_placement pm) 1000 (sn_dev (mc_screen m)))
        (\<lambda>(pit, placement, hs, d).
        Inr (set_dev (m\<lparr>mc_pit := pit, mc_handlers := hs, mc_pg := (mc_pg m)\<lparr>pg_pmm := pm\<lparr>pm_placement := placement\<rparr>\<rparr>\<rparr>) d)))"

definition boot_kbd :: "('f, 'd) boot_conf \<Rightarrow> 'd machine \<Rightarrow> 'd machine res" where
  "boot_kbd C m =
     rbind (kbd_init (bc_ports C) (bc_kbd_event C) 1 (mc_handlers m) (sn_dev (mc_screen m))) (\<lambda>(hs, d).
     Inr (set_dev (m\<lparr>mc_handlers := hs\<rparr>) d))"

definition boot_initrd :: "('f, 'd) boot_conf \<Rightarrow> mbinfo \<Rightarrow> 'd machine \<Rightarrow> 'd machine res" where
  "boot_initrd C mb m =
     (let s = mc_os m in
      rbind (initrd_init (gnode C) (gfile C) (bc_initrd_read C) (mb_flags mb) (mb_mods_count mb) (mb_mods_addr mb)
        (os_mem s) (os_vfs s)) (\<lambda>(_, mem, v). Inr (m\<lparr>mc_os := s\<lparr>os_mem := mem, os_vfs := v\<rparr>\<rparr>)))"

definition boot_pci :: "('f, 'd) boot_conf \<Rightarrow> 'd machine \<Rightarrow> 'd machine res" where
  "boot_pci C m =
     rbind (PCI_detect (bc_ports C) (bc_sleep C) (bc_pci_head C) (mc_pci m) (sn_dev (mc_screen m))) (\<lambda>(r, pci, d).
     boot_screen (\<lambda>T. log_result (bc_dbl C) T (if r = 0 then 1 else 0) ''Detecting and initializing PCI devices'' [])
       (set_dev (m\<lparr>mc_pci := pci\<rparr>) d))"

text \<open>The standard descriptors of the task number \<open>i\<close>, with the memory and the ring buffer made for it.\<close>

definition task_files :: "('f, 'd) boot_conf \<Rightarrow> nat \<Rightarrow> os \<Rightarrow> (task_res \<times> os) res" where
  "task_files C i s =
     rbind (standard_files (bc_env C i) (os_vfs s) (os_files s)) (\<lambda>(l, v, fs).
     Inr ((ke_task (bc_env C i))\<lparr>tr_fds := l, tr_root := vfs_get_root v\<rparr>, s\<lparr>os_vfs := v, os_files := fs\<rparr>))"

definition boot_tasks :: "('f, 'd) boot_conf \<Rightarrow> 'd machine \<Rightarrow> 'd machine res" where
  "boot_tasks C m =
     rbind (boot_screen (\<lambda>T. log_info (bc_dbl C) T NICE_MAGENTA ''SCHED'' ''Initializing multitasking'' []) m) (\<lambda>m1.
     rbind (task_files C 0 ((mc_os m1)\<lparr>os_files := snd (gft_init (ke_cells (bc_env C 0)) (os_files (mc_os m1)))\<rparr>)) (\<lambda>(r1, s1).
     rbind (task_files C 1 s1) (\<lambda>(r2, s2).
     rbind (task_files C 2 s2) (\<lambda>(r3, s3).
     rbind (mt_init r1 r2 r3 (os_stacks s3) (os_sched s3) (bc_ker_idle C) (bc_cleaner C)) (\<lambda>(st, sc).
     Inr (m1\<lparr>mc_os := s3\<lparr>os_stacks := st, os_sched := sc\<rparr>, mc_screen := (mc_screen m1)\<lparr>sn_mt := True\<rparr>\<rparr>))))))"

definition boot_welcome :: "('f, 'd) boot_conf \<Rightarrow> 'd machine \<Rightarrow> 'd machine res" where
  "boot_welcome C m =
     rbind (boot_screen (\<lambda>T. printk (bc_dbl C) T (NL @ NL @ ''Welcome to '') []) m) (\<lambda>m1.
     rbind (boot_screen (\<lambda>T. term_use_color T NICE_CYAN_0) m1) (\<lambda>m2.
     rbind (boot_screen (\<lambda>T. printk (bc_dbl C) T (''Hydrangea !'' @ NL) []) m2)
       (boot_screen (\<lambda>T. term_use_color T NICE_WHITE))))"

definition boot_shell :: "('f, 'd) boot_conf \<Rightarrow> 'd machine \<Rightarrow> 'd machine res" where
  "boot_shell C m =
     rbind (task_files C 3 (mc_os m)) (\<lambda>(r, s).
     rbind (mt_spawn_ktask r (os_stacks s) (os_sched s) ''cli'' 0 (bc_kshell C) 0) (\<lambda>(_, st, sc).
     Inr (m\<lparr>mc_os := s\<lparr>os_stacks := st, os_sched := sc\<rparr>\<rparr>)))"

text \<open>The whole of \<^verbatim>\<open>kmain\<close>: the result is the state in which it waits for interrupts.\<close>

fun steps :: "('m \<Rightarrow> 'm res) list \<Rightarrow> 'm \<Rightarrow> 'm res" where
  "steps [] m = Inr m"
| "steps (f # fs) m = rbind (f m) (steps fs)"

definition kmain :: "('f, 'd) boot_conf \<Rightarrow> u32 \<Rightarrow> mbinfo \<Rightarrow> 'd machine \<Rightarrow> 'd machine res" where
  "kmain C mb_magic mb m =
     rbind (check_multiboot_info mb_magic mb) (\<lambda>_.
     steps [boot_memory C mb, boot_terminal C mb, boot_files C, boot_messages C, boot_serial C 0, boot_serial C 1,
       boot_serial C 2, boot_serial C 3, boot_console C, boot_timer C, boot_kbd C, boot_initrd C mb, boot_pci C,
       boot_tasks C, boot_welcome C, boot_shell C] m)"

section \<open>The state the kernel ends in\<close>

text \<open>
  Two parts of the state that later steps do not touch: the tables with the terminal, and the interrupt handlers.
\<close>

definition fixed_part :: "'d machine \<Rightarrow> tables \<times> 'd screen console" where
  "fixed_part m = (mc_tables m, mc_term m)"

lemma steps_append: "steps (fs @ gs) m = rbind (steps fs m) (steps gs)"
proof (induction fs arbitrary: m)
  case (Cons f fs)
  have "steps (fs @ gs) = (\<lambda>m. rbind (steps fs m) (steps gs))" using Cons.IH by (rule ext)
  then show ?case by (simp add: rbind_assoc)
qed simp

lemma steps_one: "steps [f] m = f m"
  by (simp add: rbind_def split: sum.splits)

named_theorems boot_keeps "which steps of the boot keep which part of the machine"

text \<open>A step that keeps a part of the state.\<close>

definition keeps :: "('m \<Rightarrow> 'a) \<Rightarrow> ('m \<Rightarrow> 'm res) \<Rightarrow> bool" where
  "keeps g f \<longleftrightarrow> (\<forall>x y. f x = Inr y \<longrightarrow> g y = g x)"

lemma keepsD: "keeps g f \<Longrightarrow> f x = Inr y \<Longrightarrow> g y = g x"
  by (simp add: keeps_def)

lemma keeps_steps: "list_all (keeps g) fs \<Longrightarrow> keeps g (steps fs)"
  by (induction fs) (auto simp: keeps_def)

lemmas boot_defs = boot_screen_def boot_files_def boot_messages_def boot_serial_def boot_console_def boot_timer_def
  boot_kbd_def boot_initrd_def boot_pci_def boot_tasks_def boot_welcome_def boot_shell_def set_vfs_def set_dev_def Let_def

lemma keeps_fixed [boot_keeps]:
  "keeps fixed_part (boot_files C)" "keeps fixed_part (boot_messages C)" "keeps fixed_part (boot_serial C p)"
  "keeps fixed_part (boot_console C)" "keeps fixed_part (boot_timer C)" "keeps fixed_part (boot_kbd C)"
  "keeps fixed_part (boot_initrd C mb)" "keeps fixed_part (boot_pci C)" "keeps fixed_part (boot_tasks C)"
  "keeps fixed_part (boot_welcome C)" "keeps fixed_part (boot_shell C)"
  by (auto simp: keeps_def boot_defs fixed_part_def split: prod.splits)

lemma keeps_handlers [boot_keeps]:
  "keeps mc_handlers (boot_initrd C mb)" "keeps mc_handlers (boot_pci C)" "keeps mc_handlers (boot_tasks C)"
  "keeps mc_handlers (boot_welcome C)" "keeps mc_handlers (boot_shell C)"
  by (auto simp: keeps_def boot_defs split: prod.splits)

lemma mt_init_enables: "mt_init r1 r2 r3 m s idle cl = Inr (m', s') \<Longrightarrow> sc_enabled s' = 1"
  by (auto simp: mt_init_def split: prod.splits)

lemma ktask_create_enabled:
  "ktask_create r m s name ppid ent args = Inr (t, m', s') \<Longrightarrow> sc_enabled s' = sc_enabled s"
  by (auto simp: ktask_create_def gen_pid_def Let_def split: if_splits prod.splits)

lemma mt_spawn_ktask_enabled:
  "mt_spawn_ktask r m s name ppid ent args = Inr (t, m', s') \<Longrightarrow> sc_enabled s' = sc_enabled s"
  by (auto simp: mt_spawn_ktask_def mt_push_task_def upd_task_def dest!: ktask_create_enabled split: if_splits prod.splits)

lemma boot_tasks_enabled: "boot_tasks C m = Inr m' \<Longrightarrow> sc_enabled (os_sched (mc_os m')) = 1"
  by (auto simp: boot_tasks_def dest!: mt_init_enables split: prod.splits)

lemma keeps_enabled [boot_keeps]:
  "keeps (\<lambda>m. sc_enabled (os_sched (mc_os m))) (boot_welcome C)"
  "keeps (\<lambda>m. sc_enabled (os_sched (mc_os m))) (boot_shell C)"
  by (auto simp: keeps_def boot_welcome_def boot_shell_def boot_screen_def task_files_def dest!: mt_spawn_ktask_enabled
      split: prod.splits)

lemma boot_timer_handler:
  "boot_timer C m = Inr m' \<Longrightarrow> 0 < length (mc_handlers m) \<and> mc_handlers m' = (mc_handlers m)[0 := bc_pit_event C]"
  by (auto simp: boot_timer_def pit_init_def irq_register_def put_at_eq_Inr set_dev_def Let_def split: if_splits prod.splits)

lemma boot_kbd_handler:
  "boot_kbd C m = Inr m' \<Longrightarrow> 1 < length (mc_handlers m) \<and> mc_handlers m' = (mc_handlers m)[1 := bc_kbd_event C]"
  by (auto simp: boot_kbd_def kbd_init_def irq_register_def put_at_eq_Inr set_dev_def Let_def split: prod.splits)

lemma boot_terminal_vesa: "boot_terminal C mb m = Inr m' \<Longrightarrow> mc_term m' = vesa_console \<and> mc_tables m' = mc_tables m"
  by (auto simp: boot_terminal_def term_init_def Let_def split: if_splits prod.splits)

lemma boot_memory_idt: "boot_memory C mb m = Inr m' \<Longrightarrow> \<exists>t. idt_init (bc_symbols C) t = Inr (mc_tables m')"
  by (auto simp: boot_memory_def interrupts_init_def split: prod.splits)

text \<open>
  When the kernel gets to the end of \<^verbatim>\<open>kmain\<close>, the loader was the right one, the gates are those of \<^verbatim>\<open>idt_init\<close>,
  output goes to the graphic terminal, the timer and the keyboard have their handlers and the scheduler runs.
\<close>

lemma kmain_ready:
  assumes "kmain C mb_magic mb m = Inr m'"
  shows "mb_magic = 0x2BADB002" and "\<exists>t. idt_init (bc_symbols C) t = Inr (mc_tables m')" and "mc_term m' = vesa_console"
    and "mc_handlers m' ! 0 = bc_pit_event C" and "mc_handlers m' ! 1 = bc_kbd_event C"
    and "sc_enabled (os_sched (mc_os m')) = 1"
proof -
  let ?A = "[boot_files C, boot_messages C, boot_serial C 0, boot_serial C 1, boot_serial C 2, boot_serial C 3, boot_console C]"
  let ?B = "[boot_initrd C mb, boot_pci C]" and ?E = "[boot_welcome C, boot_shell C]"
  have "steps ([boot_memory C mb] @ [boot_terminal C mb] @ ?A @ [boot_timer C] @ [boot_kbd C] @ ?B @ [boot_tasks C] @ ?E) m =
      Inr m'"
    using assms by (auto simp: kmain_def)
  then obtain m1 m2 m3 m4 m5 m6 m7 where s: "boot_memory C mb m = Inr m1" "boot_terminal C mb m1 = Inr m2" "steps ?A m2 = Inr m3"
      "boot_timer C m3 = Inr m4" "boot_kbd C m4 = Inr m5" "steps ?B m5 = Inr m6" "boot_tasks C m6 = Inr m7" "steps ?E m7 = Inr m'"
    unfolding steps_append steps_one rbind_eq_Inr by blast
  show "mb_magic = 0x2BADB002" using assms by (auto simp: kmain_def check_multiboot_info_def split: if_splits)
  have "fixed_part m3 = fixed_part m2" "fixed_part m6 = fixed_part m5" "fixed_part m' = fixed_part m7"
    by (rule keepsD [OF keeps_steps s(3)] keepsD [OF keeps_steps s(6)] keepsD [OF keeps_steps s(8)], simp add: boot_keeps)+
  then have "fixed_part m' = fixed_part m2"
    using keepsD [OF keeps_fixed(5) s(4)] keepsD [OF keeps_fixed(6) s(5)] keepsD [OF keeps_fixed(9) s(7)] by simp
  then show "mc_term m' = vesa_console" "\<exists>t. idt_init (bc_symbols C) t = Inr (mc_tables m')"
    using boot_terminal_vesa [OF s(2)] boot_memory_idt [OF s(1)] by (auto simp: fixed_part_def)
  have "mc_handlers m6 = mc_handlers m5" "mc_handlers m' = mc_handlers m7"
    by (rule keepsD [OF keeps_steps s(6)] keepsD [OF keeps_steps s(8)], simp add: boot_keeps)+
  then have "mc_handlers m' = (mc_handlers m3)[0 := bc_pit_event C, 1 := bc_kbd_event C]" and "1 < length (mc_handlers m3)"
    using keepsD [OF keeps_handlers(3) s(7)] boot_timer_handler [OF s(4)] boot_kbd_handler [OF s(5)] by auto
  moreover have "0 < length (mc_handlers m3)" using calculation(2) by linarith
  ultimately show "mc_handlers m' ! 0 = bc_pit_event C" "mc_handlers m' ! 1 = bc_kbd_event C" by simp_all
  have "sc_enabled (os_sched (mc_os m')) = sc_enabled (os_sched (mc_os m7))"
    by (rule keepsD [OF keeps_steps s(8)]) (simp add: boot_keeps)
  then show "sc_enabled (os_sched (mc_os m')) = 1" using boot_tasks_enabled [OF s(7)] by simp
qed

end
