(* ===== verification/Kernel_Run.thy ===== *)
theory Kernel_Run
  imports Syscall_Effects Input
begin

text \<open>
  The kernel as it runs: interrupts of the timer, the keyboard and the mouse, dispatched by
  \<^verbatim>\<open>irq_common_handler\<close>, and system calls, dispatched by \<^verbatim>\<open>isr_common_handler\<close>, follow each other in any
  order. A call is one step, also where the code could be interrupted. The step relation puts \<open>Interrupts\<close>, \<open>Ps2\<close>, \<open>Scheduler\<close> and \<open>Syscall\<close> together; what the tasks get of
  the processor is a rotation of a ring of tasks.
\<close>

section \<open>The state\<close>

record 'd running =
  rn_os :: os
  rn_kbd :: kbd
  rn_mouse :: mouse
  rn_pit :: pit_infos
  rn_dev :: 'd

text \<open>The ports of the devices, as a part of this state.\<close>

definition on_running :: "'d ports \<Rightarrow> 'd running ports" where
  "on_running P =
     \<lparr>pt_inb = (\<lambda>p x. case pt_inb P p (rn_dev x) of (v, d) \<Rightarrow> (v, x\<lparr>rn_dev := d\<rparr>)),
      pt_outb = (\<lambda>p v x. x\<lparr>rn_dev := pt_outb P p v (rn_dev x)\<rparr>),
      pt_inw = (\<lambda>p x. case pt_inw P p (rn_dev x) of (v, d) \<Rightarrow> (v, x\<lparr>rn_dev := d\<rparr>)),
      pt_outw = (\<lambda>p v x. x\<lparr>rn_dev := pt_outw P p v (rn_dev x)\<rparr>),
      pt_inl = (\<lambda>p x. case pt_inl P p (rn_dev x) of (v, d) \<Rightarrow> (v, x\<lparr>rn_dev := d\<rparr>)),
      pt_outl = (\<lambda>p v x. x\<lparr>rn_dev := pt_outl P p v (rn_dev x)\<rparr>)\<rparr>"

text \<open>The addresses of the three handlers the drivers register, and the table they register them in.\<close>

record irq_code =
  ic_timer :: u32
  ic_kbd :: u32
  ic_mouse :: u32

definition code_placed :: "irq_code \<Rightarrow> bool" where
  "code_placed c \<longleftrightarrow> distinct [0, ic_timer c, ic_kbd c, ic_mouse c]"

definition irq_handlers :: "irq_code \<Rightarrow> u32 list res" where
  "irq_handlers c =
     rbind (irq_register (replicate 16 0) 0 (ic_timer c)) (\<lambda>h1.
     rbind (irq_register h1 1 (ic_kbd c)) (\<lambda>h2.
     irq_register h2 12 (ic_mouse c)))"

definition run_handler :: "'d ports \<Rightarrow> kenv \<Rightarrow> irq_code \<Rightarrow> u32 \<Rightarrow> registers \<Rightarrow> 'd running \<Rightarrow> 'd running res" where
  "run_handler P e c h r x =
     (if h = ic_timer c then
        rbind (pit_event (ke_esp e) (rn_pit x) (os_sched (rn_os x))) (\<lambda>(_, pit, sc).
        Inr (x\<lparr>rn_pit := pit, rn_os := (rn_os x)\<lparr>os_sched := sc\<rparr>\<rparr>))
      else if h = ic_kbd c then
        rbind (kbd_event P e (rn_kbd x) (rn_os x) (rn_dev x)) (\<lambda>(k, s, d).
        Inr (x\<lparr>rn_kbd := k, rn_os := s, rn_dev := d\<rparr>))
      else if h = ic_mouse c then
        (case mouse_event P (rn_mouse x) (rn_dev x) of (mo, d) \<Rightarrow> Inr (x\<lparr>rn_mouse := mo, rn_dev := d\<rparr>))
      else Inl Wild_access)"

section \<open>Steps and runs\<close>

text \<open>What happens: the interrupt of a line, or the system call of a number.\<close>

datatype happening = Irq u8 | Call u32

text \<open>\<^verbatim>\<open>kmalloc\<close> places the control block of a new task where no other is.\<close>

definition fresh_task :: "kenv \<Rightarrow> os \<Rightarrow> bool" where
  "fresh_task e s \<longleftrightarrow> tr_ptr (ke_task e) \<noteq> 0 \<and> sc_store (os_sched s) (tr_ptr (ke_task e)) = None"

inductive kernel_step :: "'d ports \<Rightarrow> irq_code \<Rightarrow> 'd running \<Rightarrow> happening \<Rightarrow> 'd running \<Rightarrow> bool" for P c where
  interrupt: "irq_handlers c = Inr hs \<Longrightarrow> irq_common_handler (on_running P) (run_handler P e c) hs r x = Inr y \<Longrightarrow>
    kernel_step P c x (Irq (ucast (rg_int r - 32))) y"
| system_call: "rg_int r = 0x20 \<Longrightarrow> fresh_task e (rn_os x) \<Longrightarrow> isr_common_handler e r (rn_os x) = Inr (q, s) \<Longrightarrow>
    kernel_step P c x (Call (rg_eax r)) (x\<lparr>rn_os := s\<rparr>)"

inductive_cases irqE: "kernel_step P c x (Irq n) y"
inductive_cases callE: "kernel_step P c x (Call n) y"

text \<open>The states a run goes through, the first and the last included.\<close>

inductive kernel_run :: "'d ports \<Rightarrow> irq_code \<Rightarrow> 'd running \<Rightarrow> happening list \<Rightarrow> 'd running list \<Rightarrow> bool" for P c where
  stop: "kernel_run P c x [] [x]"
| go: "kernel_step P c x h y \<Longrightarrow> kernel_run P c y hs zs \<Longrightarrow> kernel_run P c x (h # hs) (x # zs)"

inductive_simps kernel_run_Nil [simp]: "kernel_run P c x [] zs"
inductive_simps kernel_run_Cons: "kernel_run P c x (h # hs) zs"

section \<open>The ring of tasks\<close>

text \<open>The tasks in their order, and the place of the one that runs.\<close>

type_synonym rota = "u32 list \<times> nat"

inductive rota_step :: "rota \<Rightarrow> happening \<Rightarrow> rota \<Rightarrow> bool" where
  turn: "rota_step (ts, i) (Irq 0) (ts, (i + 1) mod length ts)"
| device: "n \<noteq> 0 \<Longrightarrow> rota_step (ts, i) (Irq n) (ts, i)"
| quiet: "rota_step (ts, i) (Call n) (ts, i)"
| spawn: "p \<noteq> 0 \<Longrightarrow> p \<notin> set ts \<Longrightarrow> rota_step (ts, i) (Call 9) (ts @ [p], i)"

definition in_rota :: "'d running \<Rightarrow> rota \<Rightarrow> bool" where
  "in_rota x R \<longleftrightarrow> round_inv (os_sched (rn_os x)) (fst R) (snd R)"

section \<open>The timer turns the ring\<close>

lemma round_invI:
  assumes "round_inv s ts i" and "sc_enabled s' = sc_enabled s" and "sc_tasks_count s' = sc_tasks_count s"
    and "sc_tasks s' = sc_tasks s" and "sc_cur s' = sc_cur s"
    and "\<And>k t. k < length ts \<Longrightarrow> sc_store s (ts ! k) = Some t \<Longrightarrow> fair_task (next_in ts k) t \<Longrightarrow>
      \<exists>t'. sc_store s' (ts ! k) = Some t' \<and> fair_task (next_in ts k) t'"
  shows "round_inv s' ts i"
proof -
  have "\<exists>t. sc_store s' (ts ! k) = Some t \<and> fair_task (next_in ts k) t" if k: "k < length ts" for k
  proof -
    obtain t where "sc_store s (ts ! k) = Some t" "fair_task (next_in ts k) t"
      using round_inv_task [OF assms(1) k] .
    from assms(6) [OF k this] show ?thesis .
  qed
  then show ?thesis using assms(1-5) by (simp add: round_inv_def)
qed

lemma pit_event_turns:
  assumes "round_inv sc ts i"
  shows "\<exists>esp' pit' sc'. pit_event esp pit sc = Inr (esp', pit', sc') \<and> round_inv sc' ts ((i + 1) mod length ts)"
  using round_schedule [OF assms, of esp] by (auto simp: pit_event_def Let_def)

lemma deliver_key_sched: "deliver_key e b s = Inr s' \<Longrightarrow> os_sched s' = os_sched s"
  by (auto simp: deliver_key_def Let_def split: if_splits)

lemma kbd_event_sched: "kbd_event P e kb s d = Inr (kb', s', d') \<Longrightarrow> os_sched s' = os_sched s"
  by (auto simp: kbd_event_def Let_def split: prod.splits if_splits dest: deliver_key_sched)

lemma eoi_os [simp]: "rn_os (pic_eoi (on_running P) irq x) = rn_os x"
  by (simp add: pic_eoi_def on_running_def io_outb_def Let_def)

lemma sus7_os [simp]: "rn_os (snd (pic_is_irq7_sus (on_running P) x)) = rn_os x"
  by (simp add: pic_is_irq7_sus_def on_running_def io_outb_def io_inb_def split: prod.split)

lemma sus15_os [simp]: "rn_os (snd (pic_is_irq15_sus (on_running P) x)) = rn_os x"
  by (auto simp: pic_is_irq15_sus_def on_running_def io_outb_def io_inb_def Let_def split: prod.split)

lemma sus_os:
  "pic_is_irq7_sus (on_running P) x = (v, x') \<Longrightarrow> rn_os x' = rn_os x \<and> x' = snd (pic_is_irq7_sus (on_running P) x)"
  "pic_is_irq15_sus (on_running P) x = (v, x') \<Longrightarrow> rn_os x' = rn_os x \<and> x' = snd (pic_is_irq15_sus (on_running P) x)"
  using sus7_os [of P x] sus15_os [of P x] by simp_all

lemma handlers_table:
  assumes "irq_handlers c = Inr hs"
  shows "hs = (replicate 16 0)[0 := ic_timer c, 1 := ic_kbd c, 12 := ic_mouse c]"
  using assms by (auto simp: irq_handlers_def irq_register_def put_at_eq_Inr)

lemma handlers_exist: "\<exists>hs. irq_handlers c = Inr hs"
  by (simp add: irq_handlers_def irq_register_def put_at_def)

lemma timer_only:
  assumes "irq_handlers c = Inr hs" and "code_placed c" and "get_at hs n = Inr h" and "h \<noteq> 0" and "n \<noteq> 0"
  shows "h \<noteq> ic_timer c"
  using assms handlers_table [OF assms(1)] by (auto simp: get_at_def nth_list_update code_placed_def split: if_splits)

text \<open>The interrupt of the timer turns the ring and is never stuck; the other lines leave the tasks alone.\<close>

lemma timer_line:
  assumes "ucast (rg_int r - 32) = (0 :: u8)" and hs: "irq_handlers c = Inr hs" and c: "code_placed c"
  shows "irq_common_handler (on_running P) (run_handler P e c) hs r x =
    run_handler P e c (ic_timer c) r (pic_eoi (on_running P) 0 x)"
proof -
  have "get_at hs 0 = Inr (ic_timer c)" by (simp add: handlers_table [OF hs] get_at_def)
  then show ?thesis using assms(1) c by (simp add: irq_common_handler_def code_placed_def)
qed

lemma timer_step:
  assumes "round_inv (os_sched (rn_os x)) ts i" and "irq_handlers c = Inr hs" and "code_placed c"
    and "ucast (rg_int r - 32) = (0 :: u8)"
  shows "\<exists>y. irq_common_handler (on_running P) (run_handler P e c) hs r x = Inr y \<and>
    round_inv (os_sched (rn_os y)) ts ((i + 1) mod length ts)"
  using pit_event_turns [OF assms(1), of "ke_esp e" "rn_pit (pic_eoi (on_running P) 0 x)"]
  by (auto simp: timer_line [OF assms(4,2,3)] run_handler_def)

lemma other_line:
  assumes "irq_common_handler (on_running P) (run_handler P e c) hs r x = Inr y" and "irq_handlers c = Inr hs"
    and "code_placed c" and "ucast (rg_int r - 32) \<noteq> (0 :: u8)"
  shows "os_sched (rn_os y) = os_sched (rn_os x)"
proof -
  have run: "os_sched (rn_os y') = os_sched (rn_os x')"
    if "get_at hs n = Inr h" "h \<noteq> 0" "n \<noteq> 0" "run_handler P e c h r x' = Inr y'" for n h x' y'
    using timer_only [OF assms(2,3) that(1-3)] that(4)
    by (auto simp: run_handler_def kbd_event_sched split: if_splits prod.splits)
  have "unat (ucast (rg_int r - 32) :: u8) \<noteq> 0" using assms(4) by (metis unat_eq_zero)
  then show ?thesis
    using assms(1) by (auto simp: irq_common_handler_def Let_def split: if_splits prod.splits dest!: sus_os run simp del: unsigned_ucast_eq)
qed

section \<open>The calls keep the ring\<close>

lemma upd_cur_round:
  assumes "upd_cur s f = Inr s'" and "\<And>nx t. fair_task nx (f t) = fair_task nx t" and "round_inv (os_sched s) ts i"
  shows "round_inv (os_sched s') ts i"
  by (rule round_invI [OF assms(3)]) (use assms(1,2) in \<open>auto simp: upd_cur_def upd_task_def\<close>)

lemma fair_task_fields [simp]:
  "fair_task nx (t\<lparr>t_fds := l\<rparr>) = fair_task nx t" "fair_task nx (t\<lparr>t_cwd := v\<rparr>) = fair_task nx t"
  "fair_task nx (t\<lparr>t_cr3 := v\<rparr>) = fair_task nx t" "fair_task nx (t\<lparr>t_prev := v\<rparr>) = fair_task nx t"
  by (simp_all add: fair_task_def)

lemma with_files_round:
  assumes "with_files s f = Inr (r, s')" and "round_inv (os_sched s) ts i"
  shows "round_inv (os_sched s') ts i"
proof -
  obtain l s1 where "upd_cur s (\<lambda>x. x\<lparr>t_fds := l\<rparr>) = Inr s1" and "os_sched s' = os_sched s1"
    using assms(1) by (auto simp: with_files_def)
  then show ?thesis using upd_cur_round assms(2) by fastforce
qed

text \<open>The calls that neither start, end nor wait for a task.\<close>

lemma quiet_call_round:
  assumes "run_syscall c e p s = Inr (q, s')" and "c \<notin> {Sys_exit, Sys_run, Sys_wait}" and "round_inv (os_sched s) ts i"
  shows "round_inv (os_sched s') ts i"
proof (cases c)
  case Sys_setcwd
  have "s' = s \<or> (\<exists>v. upd_cur s (\<lambda>x. x\<lparr>t_cwd := v\<rparr>) = Inr s')"
    using assms(1) Sys_setcwd by (auto simp: sys_setcwd_def split: if_splits)
  then show ?thesis using upd_cur_round assms(3) by fastforce
qed (use assms with_files_round in
    \<open>auto simp: sys_hello_def sys_getpid_def sys_getppid_def sys_getfb_def sys_open_def sys_close_def sys_read_def sys_write_def
       dest!: sys_getcwd_effect\<close>)

section \<open>A new task joins the ring\<close>

lemma last_task_round:
  assumes "round_inv s ts i" and "j < length ts"
  shows "last_task (sc_store s) (ts ! j) = Some (Inr (last ts))"
  using assms(2)
proof (induction "length ts - j" arbitrary: j rule: less_induct)
  case less
  obtain t where t: "sc_store s (ts ! j) = Some t" "fair_task (next_in ts j) t" "ts ! j \<noteq> 0"
    using round_inv_task [OF assms(1) less.prems] .
  show ?case
  proof (cases "j + 1 < length ts")
    case True
    then have "ts ! (j + 1) \<noteq> 0" and "last_task (sc_store s) (ts ! (j + 1)) = Some (Inr (last ts))"
      using round_inv_task [OF assms(1) True] less.hyps by auto
    then show ?thesis using t True by (subst last_task.simps) (simp add: fair_task_def next_in_def)
  next
    case False
    then have "last ts = ts ! j" using less.prems by (subst last_conv_nth) (auto intro: arg_cong [where f = "(!) ts"])
    then show ?thesis using t False by (subst last_task.simps) (simp add: fair_task_def next_in_def)
  qed
qed

lemma push_round:
  assumes inv: "round_inv s ts i" and p: "p \<noteq> 0" "p \<notin> set ts" "sc_store s p = Some t" "fair_task 0 t"
    and push: "mt_push_task s p = Inr s'"
  shows "round_inv s' (ts @ [p]) i"
proof -
  have ts: "ts \<noteq> []" "i < length ts" "sc_tasks s = ts ! 0" "0 \<notin> set ts" "distinct ts" "sc_cur s = ts ! i"
      "sc_enabled s \<noteq> 0" "sc_tasks_count s \<noteq> 1"
    using inv by (auto simp: round_inv_def)
  let ?n = "length ts - 1"
  have n: "?n < length ts" "last ts = ts ! ?n" using ts(1) by (simp_all add: last_conv_nth)
  obtain l where l: "sc_store s (ts ! ?n) = Some l" "fair_task (next_in ts ?n) l" "ts ! ?n \<noteq> 0"
    using round_inv_task [OF inv n(1)] .
  have "last_task (sc_store s) (sc_tasks s) = Some (Inr (ts ! ?n))"
    using last_task_round [OF inv, of 0] ts n(2) by simp
  moreover have "sc_tasks s \<noteq> 0" using ts(1,3,4) by (metis length_greater_0_conv nth_mem)
  moreover have "ts ! ?n \<noteq> p" using p(2) n(1) by auto
  ultimately have s': "s' = s\<lparr>sc_store := (sc_store s)(ts ! ?n \<mapsto> l\<lparr>t_next := p\<rparr>, p \<mapsto> t\<lparr>t_prev := ts ! ?n\<rparr>)\<rparr>"
    using push p l by (simp add: mt_push_task_def upd_task_def)
  have "\<exists>u. sc_store s' ((ts @ [p]) ! k) = Some u \<and> fair_task (next_in (ts @ [p]) k) u" if "k < length (ts @ [p])" for k
  proof (cases "k < length ts")
    case True
    obtain u where u: "sc_store s (ts ! k) = Some u" "fair_task (next_in ts k) u"
      using round_inv_task [OF inv True] .
    have "ts ! k \<noteq> p" using p(2) True by auto
    moreover have "ts ! k = ts ! ?n \<longleftrightarrow> k = ?n" using ts(5) True n(1) by (simp add: nth_eq_iff_index_eq)
    moreover have "k \<noteq> ?n \<Longrightarrow> next_in (ts @ [p]) k = next_in ts k" and "k = ?n \<Longrightarrow> next_in (ts @ [p]) k = p"
      using True ts(1) by (auto simp: next_in_def nth_append)
    ultimately show ?thesis
      using u l True by (auto simp: s' nth_append fair_task_def)
  next
    case False
    then have "k = length ts" using that by simp
    then show ?thesis using p(4) by (simp add: s' next_in_def)
  qed
  then show ?thesis
    using ts p(1,2) by (simp add: round_inv_def s' nth_append)
qed

lemma ktask_create_round:
  assumes "ktask_create res m s name ppid entry args = Inr (p, m', s')" and "p \<noteq> 0"
    and "sc_store s (tr_ptr res) = None" and inv: "round_inv s ts i"
  shows "p = tr_ptr res \<and> round_inv s' ts i \<and> p \<notin> set ts \<and> (\<exists>t. sc_store s' p = Some t \<and> fair_task 0 t)"
proof -
  obtain n t where p: "p = tr_ptr res" and s': "s' = s\<lparr>sc_next_pid := n, sc_store := (sc_store s)(tr_ptr res \<mapsto> t)\<rparr>"
      and t: "fair_task 0 t"
    using assms(1,2) by (auto simp: ktask_create_def gen_pid_def Let_def fair_task_def split: if_splits prod.splits)
  have "tr_ptr res \<notin> set ts"
    using inv assms(3) by (metis in_set_conv_nth option.distinct(1) round_inv_task)
  then have "ts ! k \<noteq> tr_ptr res" if "k < length ts" for k using that by (metis nth_mem)
  then have "round_inv s' ts i" by (intro round_invI [OF inv]) (auto simp: s')
  then show ?thesis using p t \<open>tr_ptr res \<notin> set ts\<close> by (simp add: s')
qed

lemma spawn_round:
  assumes spawn: "mt_spawn_utask res m s name ppid node exec dir = Inr (pid, m', s')"
    and ptr: "tr_ptr res \<noteq> 0" "sc_store s (tr_ptr res) = None" and inv: "round_inv s ts i"
  shows "round_inv s' ts i \<or> (\<exists>p. p \<noteq> 0 \<and> p \<notin> set ts \<and> round_inv s' (ts @ [p]) i)"
proof -
  obtain p m1 s1 where u: "utask_create res m s name ppid node exec dir = Inr (p, m1, s1)"
      and rest: "p = 0 \<and> s' = s1 \<or> p \<noteq> 0 \<and> mt_push_task s1 p = Inr s'"
    using spawn by (auto simp: mt_spawn_utask_def split: if_splits)
  consider (none) "p = 0" "s1 = s" | (new) s2 addr where "ktask_create res m s name ppid exec addr = Inr (p, m1, s2)" "p \<noteq> 0"
      "upd_task s2 p (\<lambda>x. x\<lparr>t_cr3 := dir\<rparr>) = Inr s1"
    using u by (fastforce simp: utask_create_def upd_task_def split: option.splits if_splits prod.splits)
  then show ?thesis
  proof cases
    case none
    then show ?thesis using rest inv by auto
  next
    case new
    obtain t where p: "p = tr_ptr res" "round_inv s2 ts i" "p \<notin> set ts" "sc_store s2 p = Some t" "fair_task 0 t"
      using ktask_create_round [OF new(1,2) ptr(2) inv] by auto
    have s1: "s1 = s2\<lparr>sc_store := (sc_store s2)(p \<mapsto> t\<lparr>t_cr3 := dir\<rparr>)\<rparr>"
      using new(2,3) p(4) by (simp add: upd_task_def)
    have "round_inv s1 ts i" by (intro round_invI [OF p(2)]) (use p(3) in \<open>auto simp: s1\<close>)
    moreover have "sc_store s1 p = Some (t\<lparr>t_cr3 := dir\<rparr>)" "fair_task 0 (t\<lparr>t_cr3 := dir\<rparr>)"
      using p(5) by (simp_all add: s1)
    ultimately have "round_inv s' (ts @ [p]) i"
      using push_round [of s1 ts i p] p(3) new(2) rest by blast
    then show ?thesis using p(3) new(2) by blast
  qed
qed

lemma run_call_round:
  assumes "sys_run e p s = Inr (q, s')" and fresh: "fresh_task e s" and inv: "round_inv (os_sched s) ts i"
  shows "round_inv (os_sched s') ts i \<or> (\<exists>p. p \<noteq> 0 \<and> p \<notin> set ts \<and> round_inv (os_sched s') (ts @ [p]) i)"
proof -
  obtain name ppid path pid where sp: "spawn_program e s name ppid path = Inr (pid, s')"
    using assms(1) by (auto simp: sys_run_def split: option.splits)
  have "s' = s \<or> (\<exists>l v1 st nf. mt_spawn_utask ((ke_task e)\<lparr>tr_fds := l, tr_root := vfs_get_root v1\<rparr>) (os_stacks s) (os_sched s)
      name ppid nf (ke_exec e) (ke_user_dir e) = Inr (pid, st, os_sched s'))"
    using sp by (auto simp: spawn_program_def split: option.splits if_splits)
  then show ?thesis
  proof
    assume "s' = s"
    then show ?thesis using inv by simp
  next
    assume "\<exists>l v1 st nf. mt_spawn_utask ((ke_task e)\<lparr>tr_fds := l, tr_root := vfs_get_root v1\<rparr>) (os_stacks s) (os_sched s)
      name ppid nf (ke_exec e) (ke_user_dir e) = Inr (pid, st, os_sched s')"
    then show ?thesis using spawn_round inv fresh by (fastforce simp: fresh_task_def)
  qed
qed

section \<open>The kernel refines the ring\<close>

lemma kernel_step_refines:
  assumes step: "kernel_step P c x h y" and inv: "in_rota x R" and c: "code_placed c" and h: "h \<notin> {Call 1, Call 10}"
  obtains R' where "rota_step R h R'" and "in_rota y R'"
proof -
  obtain ts i where R: "R = (ts, i)" by fastforce
  have inv: "round_inv (os_sched (rn_os x)) ts i" using inv by (simp add: in_rota_def R)
  note that = that [unfolded R in_rota_def]
  show thesis
    using step
  proof cases
    case (interrupt hs e r)
    show thesis
    proof (cases "ucast (rg_int r - 32) = (0 :: u8)")
      case True
      have "round_inv (os_sched (rn_os y)) ts ((i + 1) mod length ts)"
        using timer_step [OF inv interrupt(2) c True, of P e] interrupt(3) by auto
      then show thesis
        using that [of "(ts, (i + 1) mod length ts)"] rota_step.turn [of ts i] interrupt(1) True by simp
    next
      case False
      then show thesis
        using that [of "(ts, i)"] rota_step.device [OF False, of ts i] other_line [OF interrupt(3,2) c False] inv interrupt(1) by simp
    qed
  next
    case (system_call r e q s)
    have run: "syscall_handler e r (rn_os x) = Inr (q, s)"
      using system_call(3,5) isr_syscall by simp
    obtain k q' where k: "run_syscall k e (params_of r) (rn_os x) = Inr (q', s)"
      "(rg_eax r, k) \<in> {(0, Sys_hello), (1, Sys_exit), (3, Sys_read), (4, Sys_write), (5, Sys_open), (6, Sys_close), (7, Sys_getpid),
      (8, Sys_getppid), (9, Sys_run), (10, Sys_wait), (12, Sys_getcwd), (13, Sys_setcwd), (14, Sys_getfb)}"
      by (rule dispatch [OF run])
    show thesis
    proof (cases "k = Sys_run")
      case True
      then have "rg_eax r = 9" and "sys_run e (params_of r) (rn_os x) = Inr (q', s)" using k by auto
      with run_call_round [OF this(2) system_call(4) inv] show thesis
        using that [of "(ts, i)"] that [of "(ts @ [_], i)"] rota_step.quiet rota_step.spawn system_call(1,2) by fastforce
    next
      case False
      then have "k \<notin> {Sys_exit, Sys_run, Sys_wait}" using k(2) h system_call(1) by auto
      then show thesis
        using that [of "(ts, i)"] rota_step.quiet [of ts i] quiet_call_round [OF k(1) _ inv] system_call(1,2) by simp
    qed
  qed
qed

inductive rota_run :: "rota \<Rightarrow> happening list \<Rightarrow> rota list \<Rightarrow> bool" where
  rota_stop: "rota_run R [] [R]"
| rota_go: "rota_step R h R' \<Longrightarrow> rota_run R' hs Rs \<Longrightarrow> rota_run R (h # hs) (R # Rs)"

lemma kernel_run_refines:
  assumes "kernel_run P c x hs zs" and "in_rota x R" and "code_placed c" and "set hs \<inter> {Call 1, Call 10} = {}"
  shows "\<exists>Rs. rota_run R hs Rs \<and> list_all2 in_rota zs Rs"
  using assms
proof (induction arbitrary: R rule: kernel_run.induct)
  case (stop x)
  then show ?case by (auto intro: rota_stop)
next
  case (go x h y hs zs)
  obtain R' where R': "rota_step R h R'" "in_rota y R'"
    by (rule kernel_step_refines [OF go.hyps(1) go.prems(1,2)]) (use go.prems(3) in auto)
  with go.IH [OF R'(2)] go.prems show ?case by (auto intro: rota_go)
qed

section \<open>Every task gets its turn\<close>

text \<open>How many turns of the ring bring the task at \<open>k\<close> to the processor.\<close>

definition turns_to :: "rota \<Rightarrow> nat \<Rightarrow> nat" where
  "turns_to R k = (case R of (ts, i) \<Rightarrow> if i \<le> k then k - i else length ts - i + k)"

lemma turns_to_less: "i < length ts \<Longrightarrow> k < length ts \<Longrightarrow> turns_to (ts, i) k < length ts"
  by (auto simp: turns_to_def)

lemma rota_run_visits:
  assumes "rota_run R hs Rs" and "snd R < length (fst R)" and "k < length (fst R)"
    and "turns_to R k + count_list hs (Call 9) \<le> count_list hs (Irq 0)"
  shows "\<exists>(ts, i) \<in> set Rs. i < length ts \<and> ts ! i = fst R ! k"
  using assms
proof (induction rule: rota_run.induct)
  case (rota_stop R)
  then show ?case by (auto simp: turns_to_def split: prod.splits if_splits)
next
  case (rota_go R h R' hs Rs)
  show ?case
  proof (cases "turns_to R k = 0")
    case True
    then have "snd R = k" using rota_go.prems(1) by (auto simp: turns_to_def split: prod.splits if_splits)
    then show ?thesis using rota_go.prems(1) by (cases R) auto
  next
    case False
    have "snd R' < length (fst R') \<and> k < length (fst R') \<and> fst R' ! k = fst R ! k \<and>
        turns_to R' k + count_list hs (Call 9) \<le> count_list hs (Irq 0)"
      using rota_go.hyps(1)
    proof cases
      case (turn ts i)
      have "(i + 1) mod length ts = (if i + 1 < length ts then i + 1 else 0)"
        using rota_go.prems(1) turn(1) by (auto simp: mod_Suc)
      then show ?thesis using turn rota_go.prems False by (auto simp: turns_to_def split: if_splits)
    next
      case (spawn p ts i)
      then show ?thesis using rota_go.prems by (auto simp: turns_to_def nth_append split: if_splits)
    qed (use rota_go.prems in \<open>auto split: if_splits\<close>)
    with rota_go.IH show ?thesis by auto
  qed
qed

lemma rota_run_grows: "rota_run R hs Rs \<Longrightarrow> Rs \<noteq> [] \<and> (\<exists>news j. last Rs = (fst R @ news, j))"
  by (induction rule: rota_run.induct) (auto elim!: rota_step.cases)

lemma timer_enabled:
  assumes "in_rota x R" and "code_placed c"
  shows "\<exists>y. kernel_step P c x (Irq 0) y \<and> in_rota y (fst R, (snd R + 1) mod length (fst R))"
proof -
  obtain hs where hs: "irq_handlers c = Inr hs" using handlers_exist by blast
  fix e :: kenv and r0 :: registers
  let ?r = "r0\<lparr>rg_int := 32\<rparr>"
  have zero: "ucast (rg_int ?r - 32) = (0 :: u8)" by simp
  obtain y where y: "irq_common_handler (on_running P) (run_handler P e c) hs ?r x = Inr y"
      "round_inv (os_sched (rn_os y)) (fst R) ((snd R + 1) mod length (fst R))"
    using timer_step [OF assms(1) [unfolded in_rota_def] hs assms(2) zero, of P e] by blast
  show ?thesis
    using kernel_step.interrupt [OF hs y(1)] y(2) zero by (auto simp: in_rota_def)
qed

text \<open>
  C17. Every task gets its turn, whatever the others do: in any interleaving of interrupts and system calls other than
  exit and wait, as many timer interrupts as there are tasks, those started meanwhile included, bring each task of
  the list to the processor; the tasks stay in their order with the new ones behind them, and the next timer
  interrupt is served without a fault.
\<close>

theorem every_task_runs:
  assumes run: "kernel_run P c x hs zs" and inv: "round_inv (os_sched (rn_os x)) ts i" and c: "code_placed c"
    and "set hs \<inter> {Call 1, Call 10} = {}" and k: "k < length ts"
    and ticks: "length ts + count_list hs (Call 9) \<le> count_list hs (Irq 0)"
  shows "(\<exists>z \<in> set zs. mt_get_current_task (os_sched (rn_os z)) = ts ! k) \<and>
    (\<exists>news j. round_inv (os_sched (rn_os (last zs))) (ts @ news) j) \<and> (\<exists>y. kernel_step P c (last zs) (Irq 0) y)"
proof -
  obtain Rs where Rs: "rota_run (ts, i) hs Rs" "list_all2 in_rota zs Rs"
    using kernel_run_refines [OF run _ c assms(4), of "(ts, i)"] inv by (auto simp: in_rota_def)
  have "i < length ts" using inv by (simp add: round_inv_def)
  then obtain ts' i' where turn: "(ts', i') \<in> set Rs" "i' < length ts'" "ts' ! i' = ts ! k"
    using rota_run_visits [OF Rs(1), of k] turns_to_less [of i ts k] k ticks by fastforce
  obtain z where "z \<in> set zs" "in_rota z (ts', i')"
    using Rs(2) turn(1) by (metis in_set_conv_nth list_all2_conv_all_nth)
  then have 1: "\<exists>z \<in> set zs. mt_get_current_task (os_sched (rn_os z)) = ts ! k"
    using turn(3) by (auto simp: in_rota_def round_inv_def mt_get_current_task_def)
  obtain news j where "Rs \<noteq> []" "last Rs = (ts @ news, j)"
    using rota_run_grows [OF Rs(1)] by auto
  then have last: "in_rota (last zs) (ts @ news, j)"
    using Rs(2) by (metis last_conv_nth length_greater_0_conv diff_less list_all2_conv_all_nth zero_less_one)
  then show ?thesis
    using 1 timer_enabled [OF last c, of P] by (auto simp: in_rota_def)
qed

text \<open>
  The kernel starts in order: \<^verbatim>\<open>mt_init\<close> builds a ring of its three tasks, the first of them running.
\<close>

lemma mt_init_round:
  assumes s: "sc_tasks s = 0" "sc_store s = Map.empty" "sc_next_pid s = 0" "sc_tasks_count s = 0"
    and p: "distinct [0, tr_ptr r1, tr_ptr r2, tr_ptr r3]"
  shows "\<exists>m' s'. mt_init r1 r2 r3 m s ker_idle cleaner = Inr (m', s') \<and>
    round_inv s' [tr_ptr r1, tr_ptr r2, tr_ptr r3] 0 \<and> sc_fg s' = 0"
proof -
  have pid: "find_pid st 0 q = Some (Inr 0)" for st q by (subst find_pid.simps) simp
  have 3: "k < Suc (Suc (Suc 0)) \<longleftrightarrow> k = 0 \<or> k = 1 \<or> k = 2" for k by auto
  obtain m1 sp1 where k1: "ktask_stack m (tr_stack r1 + DEFAULT_STACK_SIZE) ker_idle 0 (tr_iret r1) = (m1, sp1)" by fastforce
  obtain m2 sp2 where k2: "ktask_stack m1 (tr_stack r2 + DEFAULT_STACK_SIZE) ker_idle 0 (tr_iret r2) = (m2, sp2)" by fastforce
  obtain m3 sp3 where k3: "ktask_stack m2 (tr_stack r3 + DEFAULT_STACK_SIZE) cleaner 0 (tr_iret r3) = (m3, sp3)" by fastforce
  have q: "tr_ptr r1 \<noteq> 0" "tr_ptr r2 \<noteq> 0" "tr_ptr r3 \<noteq> 0" "tr_ptr r1 \<noteq> tr_ptr r2" "tr_ptr r1 \<noteq> tr_ptr r3"
      "tr_ptr r2 \<noteq> tr_ptr r3" "tr_ptr r2 \<noteq> tr_ptr r1" "tr_ptr r3 \<noteq> tr_ptr r1" "tr_ptr r3 \<noteq> tr_ptr r2"
    using p by auto
  show ?thesis
    by (simp add: s q mt_init_def ktask_create_def gen_pid_def mt_get_task_by_pid_def pid find_pid.simps mt_push_task_def upd_task_def
      last_task.simps k1 k2 k3)
      (auto simp: round_inv_def fair_task_def next_in_def 3 s q)
qed

text \<open>The three tasks of \<open>Scheduler\<close>: a call that prints, then three timer interrupts.\<close>

definition demo_irq_code :: irq_code where
  "demo_irq_code = \<lparr>ic_timer = 0x100, ic_kbd = 0x200, ic_mouse = 0x300\<rparr>"

definition demo_running :: "u8 list running" where
  "demo_running = \<lparr>rn_os = input_os\<lparr>os_sched := demo_sched\<rparr>, rn_kbd = input_kbd, rn_mouse = mouse_start,
     rn_pit = \<lparr>pi_timer_value = 0, pi_freq = 1000\<rparr>, rn_dev = []\<rparr>"

lemma demo_running_round: "round_inv (os_sched (rn_os demo_running)) [0x100, 0x200, 0x300] 0"
  using demo_sched_round by (simp add: demo_running_def)

lemma demo_hello: "kernel_step P c demo_running (Call 0) demo_running"
proof -
  have e: "fresh_task demo_kenv (rn_os demo_running)"
    by (simp add: fresh_task_def demo_running_def demo_kenv_def demo_sched_def)
  have "isr_common_handler demo_kenv (demo_regs 0 0 0 0\<lparr>rg_int := 0x20\<rparr>) (rn_os demo_running) =
      Inr (Some (demo_regs 0 0 0 0\<lparr>rg_int := 0x20\<rparr>), rn_os demo_running)"
    by (subst isr_syscall) (simp_all add: handler_defs demo_regs_def sys_hello_def)
  from kernel_step.system_call [OF _ e this, of P c] show ?thesis by (simp add: demo_regs_def)
qed

lemma ticks_run:
  assumes "in_rota x R" and "code_placed c"
  shows "\<exists>zs. kernel_run P c x (replicate n (Irq 0)) zs"
  using assms(1)
proof (induction n arbitrary: x R)
  case (Suc n)
  obtain y where "kernel_step P c x (Irq 0) y" "in_rota y (fst R, (snd R + 1) mod length (fst R))"
    using timer_enabled [OF Suc.prems assms(2)] by blast
  with Suc.IH [OF this(2)] show ?case by (auto intro: kernel_run.go)
qed auto

theorem every_task_runs_witness:
  "\<exists>zs. kernel_run input_ports demo_irq_code demo_running [Call 0, Irq 0, Irq 0, Irq 0] zs \<and>
    (\<exists>z \<in> set zs. mt_get_current_task (os_sched (rn_os z)) = 0x300)"
proof -
  have c: "code_placed demo_irq_code" by (simp add: code_placed_def demo_irq_code_def)
  have "in_rota demo_running ([0x100, 0x200, 0x300], 0)"
    using demo_running_round by (simp add: in_rota_def)
  from ticks_run [OF this c, of input_ports 3]
  obtain zs where run: "kernel_run input_ports demo_irq_code demo_running [Call 0, Irq 0, Irq 0, Irq 0] (demo_running # zs)"
    using kernel_run.go [OF demo_hello [of input_ports demo_irq_code]] by (fastforce simp: numeral_3_eq_3)
  then show ?thesis
    using every_task_runs [OF run demo_running_round c, of 2, THEN conjunct1]
    by (intro exI [of _ "demo_running # zs"] conjI) auto
qed

end
